(* ===== verification/Prelude.thy ===== *)
theory Prelude
  imports Main "HOL-Library.Word" "HOL-Library.Char_ord" "HOL-Library.List_Lexorder"
    "HOL-Library.Finite_Map" "HOL-Library.AList"
begin

text \<open>
  Shared vocabulary of the development: the machine integers, Go's maps (an association list in
  the order one iteration visits it), the result of code that may panic, and the generic
  lemmas on lists, maps and sorted key lists the components share.
\<close>

named_theorems tx_simps \<open>rewriting of database transactions on an open database\<close>
named_theorems cmd_simps \<open>the getters of the commands\<close>
named_theorems step_defs \<open>definitions unfolded in one step of a state machine\<close>

section \<open>Types of the language\<close>

text \<open>
  \<open>u64\<close> is Go's \<^verbatim>\<open>uint64\<close> and \<open>i64\<close> the bit pattern of an \<^verbatim>\<open>int64\<close> (read by \<open>sint\<close>). Times are
  nanoseconds since the Unix epoch.
\<close>

type_synonym u64 = "64 word"
type_synonym i64 = "64 word"
type_synonym time = int

text \<open>
  A Go map: an association list, listed in the order in which one \<^verbatim>\<open>range\<close> loop visits it. Go
  leaves that order open, so a theorem about a map speaks of \<open>map_of\<close> only, or holds for
  every order of the list.
\<close>

type_synonym ('k, 'v) gomap = "('k \<times> 'v) list"

text \<open>A call that may panic either returns a value or stops the goroutine with a message.\<close>

datatype 'a run = Ret 'a | Panic string

fun panics :: "'a run \<Rightarrow> bool" where
  "panics (Ret _) = False"
| "panics (Panic _) = True"

lemma not_panics_conv: "\<not> panics r \<longleftrightarrow> (\<exists>x. r = Ret x)"
  by (cases r) auto

section \<open>Go maps\<close>

abbreviation gomap_update :: "'k \<Rightarrow> 'v \<Rightarrow> ('k, 'v) gomap \<Rightarrow> ('k, 'v) gomap" where
  "gomap_update \<equiv> AList.update"

abbreviation gomap_delete :: "'k \<Rightarrow> ('k, 'v) gomap \<Rightarrow> ('k, 'v) gomap" where
  "gomap_delete \<equiv> AList.delete"

abbreviation gomap_ok :: "('k, 'v) gomap \<Rightarrow> bool" where
  "gomap_ok m \<equiv> distinct (map fst m)"

lemma map_of_update [simp]: "map_of (AList.update k v m) = (map_of m)(k \<mapsto> v)"
  by (rule update_conv')

lemma map_of_delete [simp]: "map_of (AList.delete k m) = (map_of m)(k := None)"
  by (rule delete_conv')

lemma fold_update_conv:
  "map_of (fold (\<lambda>x m. AList.update (f x) (g x) m) xs m0) k =
     (case map_of (rev (map (\<lambda>x. (f x, g x)) xs)) k of Some v \<Rightarrow> Some v | None \<Rightarrow> map_of m0 k)"
  by (induction xs arbitrary: m0)
     (auto simp: map_add_def map_of_append split: option.splits)

lemma fold_delete_conv:
  "map_of (fold (\<lambda>x m. AList.delete (f x) m) xs m0) k =
     (if k \<in> f ` set xs then None else map_of m0 k)"
  by (induction xs arbitrary: m0) auto

lemma fold_update_distinct:
  "distinct (map fst m0) \<Longrightarrow> distinct (map fst (fold (\<lambda>x m. AList.update (f x) (g x) m) xs m0))"
  by (induction xs arbitrary: m0) (auto simp: distinct_update)

lemma fold_delete_distinct:
  "distinct (map fst m0) \<Longrightarrow> distinct (map fst (fold (\<lambda>x m. AList.delete (f x) m) xs m0))"
  by (induction xs arbitrary: m0) (auto simp: distinct_delete)

lemma map_of_filter_key:
  "distinct (map fst m) \<Longrightarrow>
   map_of (filter (\<lambda>(k, v). P k v) m) k =
     (case map_of m k of None \<Rightarrow> None | Some v \<Rightarrow> if P k v then Some v else None)"
  by (induction m) (auto split: option.splits simp: map_of_eq_None_iff rev_image_eqI)

lemma map_of_rev_distinct: "gomap_ok m \<Longrightarrow> map_of (rev m) = map_of m"
proof (rule ext)
  fix k assume ok: "gomap_ok m"
  then have "gomap_ok (rev m)" by (simp add: rev_map [symmetric])
  with ok show "map_of (rev m) k = map_of m k"
    using map_of_eq_None_iff [of m k] map_of_eq_None_iff [of "rev m" k] by (cases "map_of m k") auto
qed

section \<open>Lists\<close>

text \<open>\<open>take_int n\<close> keeps the first \<open>n\<close> elements; a negative Go limit keeps none.\<close>

definition take_int :: "int \<Rightarrow> 'a list \<Rightarrow> 'a list" where
  "take_int n xs = take (nat n) xs"

lemma take_int_neg [simp]: "n \<le> 0 \<Longrightarrow> take_int n xs = []"
  by (simp add: take_int_def)

lemma take_int_Nil [simp]: "take_int n [] = []"
  by (simp add: take_int_def)

lemma take_int_Cons: "0 < n \<Longrightarrow> take_int n (x # xs) = x # take_int (n - 1) xs"
  by (simp add: take_int_def take_Cons' nat_diff_distrib)

lemma sorted_list_of_set_eqI:
  "sorted_wrt (<) xs \<Longrightarrow> set xs = A \<Longrightarrow> sorted_list_of_set A = (xs :: 'a::linorder list)"
  by (metis sorted_list_of_set.idem_if_sorted_distinct strict_sorted_iff)

lemma sorted_list_of_set_image:
  fixes f :: "'a::linorder \<Rightarrow> 'b::linorder"
  assumes "finite A" and "\<And>x y. x \<in> A \<Longrightarrow> y \<in> A \<Longrightarrow> x < y \<Longrightarrow> f x < f y"
  shows "sorted_list_of_set (f ` A) = map f (sorted_list_of_set A)"
proof (rule sorted_list_of_set_eqI)
  have "sorted_wrt (\<lambda>x y. f x < f y) (sorted_list_of_set A)"
    using strict_sorted_list_of_set [of A]
    by (rule sorted_wrt_mono_rel [rotated]) (use assms in auto)
  then show "sorted_wrt (<) (map f (sorted_list_of_set A))"
    by (simp add: sorted_wrt_map)
qed (use assms in simp)

lemma sorted_list_of_set_insert_max:
  fixes x :: "'a::linorder"
  assumes "finite A" and "\<And>y. y \<in> A \<Longrightarrow> y < x"
  shows "sorted_list_of_set (insert x A) = sorted_list_of_set A @ [x]"
proof (rule sorted_list_of_set_eqI)
  show "sorted_wrt (<) (sorted_list_of_set A @ [x])"
    using assms by (simp add: sorted_wrt_append)
qed (use assms in auto)

section \<open>Words\<close>

lemma u64_less_plus_1: "x + 1 \<noteq> 0 \<Longrightarrow> x < x + (1 :: u64)"
  by unat_arith

end
