(* ===== verification/GoStrings.thy ===== *)
theory GoStrings
  imports Prelude
begin

text \<open>
  The parts of Go's standard library on strings and numbers that the program uses. A Go
  string is a sequence of bytes, here a \<open>char list\<close> with one \<open>char\<close> per byte. Modelled:
  \<^verbatim>\<open>string(b)\<close> of a byte, \<^verbatim>\<open>utf8.Valid\<close>, \<^verbatim>\<open>strings.TrimSpace\<close>, \<^verbatim>\<open>strings.HasPrefix\<close>, \<^verbatim>\<open>strings.Join\<close>,
  \<^verbatim>\<open>strings.Title\<close> on ASCII, \<^verbatim>\<open>strconv.ParseUint(_, 10, 64)\<close>, \<^verbatim>\<open>%d\<close> of an unsigned integer and
  \<^verbatim>\<open>binary.BigEndian\<close> on 64 bits, with the lemmas the components need about them.
\<close>

section \<open>Bytes and UTF-8\<close>

abbreviation byte :: "char \<Rightarrow> nat" where
  "byte c \<equiv> of_char c"

abbreviation chr :: "nat \<Rightarrow> char" where
  "chr n \<equiv> char_of n"

lemma byte_less_256 [simp]: "byte c < 256"
  using of_char_mod_256 [where 'a = nat, of c] by (metis mod_less_divisor zero_less_numeral)

text \<open>\<^verbatim>\<open>string(c)\<close> for a byte \<^verbatim>\<open>c\<close> converts the byte to a rune: its UTF-8 encoding.\<close>

definition go_string_of_byte :: "char \<Rightarrow> string" where
  "go_string_of_byte c =
     (if byte c < 128 then [c] else [chr (192 + byte c div 64), chr (128 + byte c mod 64)])"

abbreviation ascii_string :: "string \<Rightarrow> bool" where
  "ascii_string s \<equiv> (\<forall>c \<in> set s. byte c < 128)"

lemma go_string_of_byte_ascii [simp]: "byte c < 128 \<Longrightarrow> go_string_of_byte c = [c]"
  by (simp add: go_string_of_byte_def)

lemma go_string_of_byte_inj: "go_string_of_byte c = go_string_of_byte d \<longleftrightarrow> c = d"
proof
  assume eq: "go_string_of_byte c = go_string_of_byte d"
  show "c = d"
  proof (cases "byte c < 128")
    case True
    with eq show ?thesis by (auto simp: go_string_of_byte_def split: if_splits)
  next
    case False
    with eq have big: "\<not> byte d < 128"
      by (auto simp: go_string_of_byte_def split: if_splits)
    have lt: "byte c div 64 < 4" "byte d div 64 < 4"
      using byte_less_256 [of c] byte_less_256 [of d] by (simp_all add: div_less_iff_less_mult)
    from eq False big
    have hi: "(chr (192 + byte c div 64) :: char) = chr (192 + byte d div 64)"
      and lo: "(chr (128 + byte c mod 64) :: char) = chr (128 + byte d mod 64)"
      by (auto simp: go_string_of_byte_def)
    from hi have "(192 + byte c div 64) mod 256 = (192 + byte d div 64) mod 256"
      by (metis of_char_of)
    then have "byte c div 64 = byte d div 64" using lt by simp
    moreover from lo have "(128 + byte c mod 64) mod 256 = (128 + byte d mod 64) mod 256"
      by (metis of_char_of)
    then have "byte c mod 64 = byte d mod 64" by simp
    ultimately have "byte c = byte d" by (metis div_mult_mod_eq)
    then show ?thesis by simp
  qed
qed simp

text \<open>
  \<^verbatim>\<open>utf8.Valid\<close>: the string is a sequence of well-formed byte sequences, each given by the ranges of
  its bytes (shortest forms only, no surrogates, up to U+10FFFF).
\<close>

definition rune_patterns :: "(nat \<times> nat) list list" where
  "rune_patterns =
     [[(0, 127)],
      [(194, 223), (128, 191)],
      [(224, 224), (160, 191), (128, 191)],
      [(225, 236), (128, 191), (128, 191)],
      [(237, 237), (128, 159), (128, 191)],
      [(238, 239), (128, 191), (128, 191)],
      [(240, 240), (144, 191), (128, 191), (128, 191)],
      [(241, 243), (128, 191), (128, 191), (128, 191)],
      [(244, 244), (128, 143), (128, 191), (128, 191)]]"

fun starts_rune :: "(nat \<times> nat) list \<Rightarrow> string \<Rightarrow> bool" where
  "starts_rune [] s = True"
| "starts_rune (r # rs) [] = False"
| "starts_rune (r # rs) (c # s) = (fst r \<le> byte c \<and> byte c \<le> snd r \<and> starts_rune rs s)"

lemma starts_rune_length: "starts_rune rs s \<Longrightarrow> length rs \<le> length s"
  by (induction rs s rule: starts_rune.induct) auto

lemma starts_rune_append: "starts_rune rs s \<Longrightarrow> starts_rune rs (s @ t)"
  by (induction rs s rule: starts_rune.induct) auto

lemma rune_patterns_nonempty: "rs \<in> set rune_patterns \<Longrightarrow> rs \<noteq> []"
  by (auto simp: rune_patterns_def)

function valid_utf8 :: "string \<Rightarrow> bool" where
  "valid_utf8 s =
     (if s = [] then True
      else list_ex (\<lambda>rs. if starts_rune rs s then valid_utf8 (drop (length rs) s) else False)
             rune_patterns)"
  by pat_completeness auto
termination
  by (relation "measure length") (auto dest: rune_patterns_nonempty)

declare valid_utf8.simps [simp del]

lemma valid_utf8_Nil [simp]: "valid_utf8 []"
  by (simp add: valid_utf8.simps)

lemma valid_utf8_rune:
  "rs \<in> set rune_patterns \<Longrightarrow> starts_rune rs s \<Longrightarrow> valid_utf8 (drop (length rs) s) \<Longrightarrow> valid_utf8 s"
  by (subst valid_utf8.simps) (auto simp: list_ex_iff)

lemma valid_utf8_ascii_Cons: "byte c < 128 \<Longrightarrow> valid_utf8 s \<Longrightarrow> valid_utf8 (c # s)"
  by (rule valid_utf8_rune [of "[(0, 127)]"]) (auto simp: rune_patterns_def)

lemma valid_utf8_ascii: "ascii_string s \<Longrightarrow> valid_utf8 s"
  by (induction s) (auto intro: valid_utf8_ascii_Cons)

lemma valid_utf8_append: "valid_utf8 s \<Longrightarrow> valid_utf8 t \<Longrightarrow> valid_utf8 (s @ t)"
proof (induction s rule: valid_utf8.induct)
  case (1 s)
  show ?case
  proof (cases "s = []")
    case True
    with "1.prems" show ?thesis by simp
  next
    case False
    with "1.prems"(1) obtain rs where rs: "rs \<in> set rune_patterns" "starts_rune rs s"
        "valid_utf8 (drop (length rs) s)"
      by (auto simp: valid_utf8.simps [of s] list_ex_iff split: if_splits)
    have "valid_utf8 (drop (length rs) (s @ t))"
      using "1.IH" [OF False rs(1,2,3) "1.prems"(2)] starts_rune_length [OF rs(2)] by simp
    with rs(1) starts_rune_append [OF rs(2)] show ?thesis
      by (rule valid_utf8_rune)
  qed
qed

lemma valid_utf8_go_string_of_byte: "valid_utf8 (go_string_of_byte c)"
proof (cases "byte c < 128")
  case True
  then show ?thesis by (auto intro: valid_utf8_ascii)
next
  case False
  have "byte c div 64 < 4"
    using byte_less_256 [of c] by (simp add: div_less_iff_less_mult)
  then have hi: "byte (chr (192 + byte c div 64)) = 192 + byte c div 64"
    by (simp only: of_char_of) simp
  have "byte c mod 64 < 64" by simp
  then have lo: "byte (chr (128 + byte c mod 64)) = 128 + byte c mod 64"
    by (simp only: of_char_of) simp
  have "2 \<le> byte c div 64" using False by (simp add: less_eq_div_iff_mult_less_eq)
  with \<open>byte c div 64 < 4\<close> \<open>byte c mod 64 < 64\<close>
  have "starts_rune [(194, 223), (128, 191)] (go_string_of_byte c)"
    using False by (simp only: go_string_of_byte_def if_False starts_rune.simps hi lo) simp
  then show ?thesis
    by (rule valid_utf8_rune [rotated]) (use False in \<open>simp_all add: rune_patterns_def go_string_of_byte_def\<close>)
qed

section \<open>Package strings\<close>

definition has_prefix :: "string \<Rightarrow> string \<Rightarrow> bool" where
  "has_prefix s p \<longleftrightarrow> take (length p) s = p"

lemma has_prefix_iff: "has_prefix s p \<longleftrightarrow> (\<exists>t. s = p @ t)"
  unfolding has_prefix_def by (metis append_eq_conv_conj append_take_drop_id)

lemma has_prefix_hd: "has_prefix s p \<Longrightarrow> p \<noteq> [] \<Longrightarrow> hd p = hd s"
  by (auto simp: has_prefix_iff)

text \<open>The UTF-8 encodings of the code points that \<^verbatim>\<open>unicode.IsSpace\<close> accepts.\<close>

definition utf8_spaces :: "string list" where
  "utf8_spaces =
     [[CHR 0x09], [CHR 0x0A], [CHR 0x0B], [CHR 0x0C], [CHR 0x0D], [CHR 0x20],
      [CHR 0xC2, CHR 0x85], [CHR 0xC2, CHR 0xA0], [CHR 0xE1, CHR 0x9A, CHR 0x80]] @
     map (\<lambda>n. [CHR 0xE2, CHR 0x80, chr n]) ([128..<139] @ [168, 169, 175]) @
     [[CHR 0xE2, CHR 0x81, CHR 0x9F], [CHR 0xE3, CHR 0x80, CHR 0x80]]"

function trim_with :: "string list \<Rightarrow> string \<Rightarrow> string" where
  "trim_with sps s =
     (case find (\<lambda>sp. sp \<noteq> [] \<and> has_prefix s sp) sps of
        None \<Rightarrow> s
      | Some sp \<Rightarrow> trim_with sps (drop (length sp) s))"
  by pat_completeness auto
termination
  by (relation "measure (\<lambda>(sps, s). length s)")
     (auto simp: find_Some_iff has_prefix_iff)

declare trim_with.simps [simp del]

text \<open>
  \<^verbatim>\<open>strings.TrimSpace\<close>: leading and then trailing white space. Reading a suffix backwards is
  matching the reversed encodings, because a rune's first byte is never a continuation byte.
\<close>

definition trim_space :: "string \<Rightarrow> string" where
  "trim_space s = rev (trim_with (map rev utf8_spaces) (rev (trim_with utf8_spaces s)))"

lemma trim_with_id:
  assumes "\<And>sp. sp \<in> set sps \<Longrightarrow> sp \<noteq> [] \<Longrightarrow> \<not> has_prefix s sp"
  shows "trim_with sps s = s"
proof -
  have "find (\<lambda>sp. sp \<noteq> [] \<and> has_prefix s sp) sps = None"
    using assms by (auto simp: find_None_iff)
  then show ?thesis by (simp add: trim_with.simps)
qed

lemma trim_with_suffix: "\<exists>p. s = p @ trim_with sps s"
proof (induction sps s rule: trim_with.induct)
  case (1 sps s)
  show ?case
  proof (cases "find (\<lambda>sp. sp \<noteq> [] \<and> has_prefix s sp) sps")
    case None
    then show ?thesis by (simp add: trim_with.simps)
  next
    case (Some sp)
    then have "has_prefix s sp" by (auto simp: find_Some_iff)
    then have s: "s = sp @ drop (length sp) s"
      by (metis append_take_drop_id has_prefix_def)
    from "1.IH" [OF Some] obtain p where p: "drop (length sp) s = p @ trim_with sps (drop (length sp) s)"
      by blast
    have "trim_with sps s = trim_with sps (drop (length sp) s)"
      by (subst trim_with.simps) (simp add: Some)
    with s p have "s = (sp @ p) @ trim_with sps s" by simp
    then show ?thesis by blast
  qed
qed

lemma trim_space_infix: "\<exists>p q. s = p @ trim_space s @ q"
proof -
  obtain p where p: "s = p @ trim_with utf8_spaces s"
    using trim_with_suffix by blast
  obtain q where "rev (trim_with utf8_spaces s) = q @ trim_with (map rev utf8_spaces) (rev (trim_with utf8_spaces s))"
    using trim_with_suffix by blast
  then have "trim_with utf8_spaces s = trim_space s @ rev q"
    by (metis rev_append rev_rev_ident trim_space_def)
  with p show ?thesis by metis
qed

lemma set_trim_space: "set (trim_space s) \<subseteq> set s"
  using trim_space_infix [of s] by (metis Un_iff set_append subsetI)

text \<open>A string whose first and last byte start and end no white space is left alone.\<close>

definition edge_byte :: "char \<Rightarrow> bool" where
  "edge_byte c \<longleftrightarrow> 32 < byte c \<and> byte c < 128"

lemma utf8_spaces_not_edge:
  "\<forall>sp \<in> set utf8_spaces. sp \<noteq> [] \<and> \<not> edge_byte (hd sp) \<and> \<not> edge_byte (last sp)"
  by code_simp

lemma trim_space_id:
  assumes "s = [] \<or> edge_byte (hd s) \<and> edge_byte (last s)"
  shows "trim_space s = s"
proof (cases "s = []")
  case True
  then show ?thesis
    using trim_space_infix [of s] by auto
next
  case False
  with assms have e: "edge_byte (hd s)" "edge_byte (last s)" by auto
  have 1: "trim_with utf8_spaces s = s"
  proof (rule trim_with_id)
    fix sp assume sp: "sp \<in> set utf8_spaces" "sp \<noteq> []"
    then have "\<not> edge_byte (hd sp)" using utf8_spaces_not_edge by blast
    with e(1) sp(2) show "\<not> has_prefix s sp" using has_prefix_hd by metis
  qed
  have 2: "trim_with (map rev utf8_spaces) (rev s) = rev s"
  proof (rule trim_with_id)
    fix sp assume sp: "sp \<in> set (map rev utf8_spaces)" "sp \<noteq> []"
    then obtain sp' where "sp = rev sp'" "sp' \<in> set utf8_spaces" by auto
    then have "\<not> edge_byte (hd sp)" using utf8_spaces_not_edge by (simp add: hd_rev)
    with e(2) sp(2) show "\<not> has_prefix (rev s) sp" using has_prefix_hd hd_rev by metis
  qed
  from 1 2 show ?thesis by (simp add: trim_space_def)
qed

fun strings_join :: "string \<Rightarrow> string list \<Rightarrow> string" where
  "strings_join sep [] = []"
| "strings_join sep [x] = x"
| "strings_join sep (x # y # ys) = x @ sep @ strings_join sep (y # ys)"

lemma strings_join_Cons: "xs \<noteq> [] \<Longrightarrow> strings_join sep (x # xs) = x @ sep @ strings_join sep xs"
  by (cases xs) auto

text \<open>
  \<^verbatim>\<open>strings.Title\<close> upper-cases every letter that starts a word; a word starts after a byte that is no
  letter, digit or underscore. Bytes above ASCII are kept, and count as letters.
\<close>

definition is_upper :: "char \<Rightarrow> bool" where "is_upper c \<longleftrightarrow> 65 \<le> byte c \<and> byte c \<le> 90"
definition is_lower :: "char \<Rightarrow> bool" where "is_lower c \<longleftrightarrow> 97 \<le> byte c \<and> byte c \<le> 122"
definition is_digit :: "char \<Rightarrow> bool" where "is_digit c \<longleftrightarrow> 48 \<le> byte c \<and> byte c \<le> 57"

definition is_separator :: "char \<Rightarrow> bool" where
  "is_separator c \<longleftrightarrow>
     byte c < 128 \<and> \<not> is_upper c \<and> \<not> is_lower c \<and> \<not> is_digit c \<and> c \<noteq> CHR ''_''"

definition to_upper :: "char \<Rightarrow> char" where
  "to_upper c = (if is_lower c then chr (byte c - 32) else c)"

fun title_from :: "bool \<Rightarrow> string \<Rightarrow> string" where
  "title_from start [] = []"
| "title_from start (c # s) = (if start then to_upper c else c) # title_from (is_separator c) s"

definition strings_title :: "string \<Rightarrow> string" where
  "strings_title s = title_from True s"

section \<open>Numbers in decimal\<close>

text \<open>\<^verbatim>\<open>%d\<close> of an unsigned integer.\<close>

fun show_nat :: "nat \<Rightarrow> string" where
  "show_nat n = (if n < 10 then [chr (48 + n)] else show_nat (n div 10) @ [chr (48 + n mod 10)])"

declare show_nat.simps [simp del]

definition show_u64 :: "u64 \<Rightarrow> string" where
  "show_u64 x = show_nat (unat x)"

text \<open>
  \<^verbatim>\<open>strconv.ParseUint(s, 10, 64)\<close>: the digits are read from the left, and the first byte that is no
  digit or makes the value exceed 64 bits decides the error.
\<close>

datatype num_error = ErrSyntax | ErrRange

fun parse_uint_from :: "nat \<Rightarrow> string \<Rightarrow> num_error + u64" where
  "parse_uint_from n [] = Inr (of_nat n)"
| "parse_uint_from n (c # s) =
     (if \<not> is_digit c then Inl ErrSyntax
      else if 2 ^ 64 \<le> 10 * n + (byte c - 48) then Inl ErrRange
      else parse_uint_from (10 * n + (byte c - 48)) s)"

definition parse_uint :: "string \<Rightarrow> num_error + u64" where
  "parse_uint s = (if s = [] then Inl ErrSyntax else parse_uint_from 0 s)"

lemma byte_chr: "n < 256 \<Longrightarrow> byte (chr n) = n"
  by (simp only: of_char_of) simp

lemma is_digit_chr: "d < 10 \<Longrightarrow> is_digit (chr (48 + d)) \<and> byte (chr (48 + d)) - 48 = d"
  by (simp add: is_digit_def byte_chr)

lemma show_nat_digits: "c \<in> set (show_nat n) \<Longrightarrow> is_digit c"
proof (induction n rule: show_nat.induct)
  case (1 n)
  show ?case
  proof (cases "n < 10")
    case True
    with "1.prems" show ?thesis by (simp add: show_nat.simps [of n] is_digit_chr)
  next
    case False
    with "1.prems" have "c \<in> set (show_nat (n div 10)) \<or> c = chr (48 + n mod 10)"
      by (auto simp: show_nat.simps [of n])
    then show ?thesis
      using "1.IH" [OF False] is_digit_chr [of "n mod 10"] by auto
  qed
qed

lemma show_nat_nonempty [simp]: "show_nat n \<noteq> []"
  by (simp add: show_nat.simps [of n])

lemma parse_uint_from_snoc:
  "parse_uint_from m s = Inr (of_nat n) \<Longrightarrow> n < 2 ^ 64 \<Longrightarrow> d < 10 \<Longrightarrow> 10 * n + d < 2 ^ 64 \<Longrightarrow>
   m < 2 ^ 64 \<Longrightarrow>
   parse_uint_from m (s @ [chr (48 + d)]) = Inr (of_nat (10 * n + d))"
proof (induction s arbitrary: m)
  case Nil
  from Nil.prems(1,2,5) have "m = n" by (simp add: of_nat_inverse word_of_nat_eq_iff take_bit_nat_eq_self)
  with Nil.prems is_digit_chr [of d] show ?case by simp
next
  case (Cons c s)
  then show ?case by (auto split: if_splits)
qed

lemma parse_uint_show_nat: "n < 2 ^ 64 \<Longrightarrow> parse_uint_from 0 (show_nat n) = Inr (of_nat n)"
proof (induction n rule: show_nat.induct)
  case (1 n)
  show ?case
  proof (cases "n < 10")
    case True
    then show ?thesis using is_digit_chr [of n] by (simp add: show_nat.simps [of n])
  next
    case False
    with 1 have "parse_uint_from 0 (show_nat (n div 10)) = Inr (of_nat (n div 10))" by simp
    then have "parse_uint_from 0 (show_nat (n div 10) @ [chr (48 + n mod 10)]) =
        Inr (of_nat (10 * (n div 10) + n mod 10))"
      by (rule parse_uint_from_snoc) (use "1.prems" in auto)
    with False show ?thesis by (simp add: show_nat.simps [of n])
  qed
qed

lemma unat_u64_less: "unat (x :: u64) < 2 ^ 64"
  using unsigned_less [where 'a = nat, of x] by simp

lemma parse_uint_show_u64: "parse_uint (show_u64 x) = Inr x"
  using parse_uint_show_nat [of "unat x"] unat_u64_less [of x]
  by (simp add: parse_uint_def show_u64_def)

section \<open>Big-endian bytes\<close>

text \<open>\<^verbatim>\<open>binary.BigEndian\<close>: \<open>be_bytes k n\<close> writes \<open>n\<close> in \<open>k\<close> bytes, most significant first.\<close>

fun be_bytes :: "nat \<Rightarrow> nat \<Rightarrow> string" where
  "be_bytes 0 n = []"
| "be_bytes (Suc k) n = chr (n div 256 ^ k) # be_bytes k (n mod 256 ^ k)"

fun be_value :: "string \<Rightarrow> nat" where
  "be_value [] = 0"
| "be_value (c # s) = byte c * 256 ^ length s + be_value s"

lemma length_be_bytes [simp]: "length (be_bytes k n) = k"
  by (induction k arbitrary: n) auto

lemma be_value_be_bytes: "n < 256 ^ k \<Longrightarrow> be_value (be_bytes k n) = n"
proof (induction k arbitrary: n)
  case (Suc k)
  then have "n div 256 ^ k < 256" by (simp add: div_less_iff_less_mult mult.commute)
  with Suc.IH [of "n mod 256 ^ k"] show ?case by (simp add: byte_chr div_mult_mod_eq)
qed simp

lemma be_value_less: "be_value s < 256 ^ length s"
proof (induction s)
  case (Cons c s)
  have "be_value (c # s) < (byte c + 1) * 256 ^ length s" using Cons by simp
  also have "\<dots> \<le> 256 * 256 ^ length s"
    using byte_less_256 [of c] by (intro mult_right_mono) (auto simp del: byte_less_256)
  finally show ?case by simp
qed simp

lemma be_bytes_be_value: "be_bytes (length s) (be_value s) = s"
proof (induction s)
  case (Cons c s)
  then show ?case using be_value_less [of s] by simp
qed simp

lemma be_bytes_less:
  "m < n \<Longrightarrow> n < 256 ^ k \<Longrightarrow> be_bytes k m < be_bytes k n"
proof (induction k arbitrary: m n)
  case (Suc k)
  have b: "m div 256 ^ k < 256" "n div 256 ^ k < 256"
    using Suc.prems by (simp_all add: div_less_iff_less_mult mult.commute)
  show ?case
  proof (cases "m div 256 ^ k = n div 256 ^ k")
    case True
    with Suc.prems(1) have "m mod 256 ^ k < n mod 256 ^ k"
      by (metis div_mult_mod_eq nat_add_left_cancel_less)
    then have "be_bytes k (m mod 256 ^ k) < be_bytes k (n mod 256 ^ k)"
      by (rule Suc.IH) simp
    with True show ?thesis by simp
  next
    case False
    with Suc.prems(1) have "m div 256 ^ k < n div 256 ^ k"
      by (meson div_le_mono le_neq_implies_less less_imp_le)
    then have "byte (chr (m div 256 ^ k)) < byte (chr (n div 256 ^ k))"
      using b by (simp add: byte_chr)
    then show ?thesis by (simp add: less_char_def)
  qed
qed simp

end
