(* ===== verification/Meeseeks.thy ===== *)
theory Meeseeks
  imports GoStrings
begin

text \<open>
  The vocabulary of package \<^verbatim>\<open>meeseeks\<close> (\<^verbatim>\<open>meeseeks/meeseeks.go\<close>): requests, jobs, job logs, tokens,
  aliases, command options with their defaulting getters, help texts and job filters; and the
  error values of the whole program. A slice that may be nil is an \<open>option\<close> where the code tests
  for nil, and a plain list elsewhere.
\<close>

section \<open>Errors\<close>

text \<open>
  The sentinel errors the code compares by identity, errors built from a text
  (\<^verbatim>\<open>fmt.Errorf\<close>, \<^verbatim>\<open>errors.New\<close>), errors that come out of a library with their text, and
  \<open>Panicking\<close>, which is no error value but a panic inside a transaction, say of a method called
  on a nil bucket (the transaction rolls back and the panic goes on).
\<close>

datatype err =
    ErrUserNotAllowed | ErrChannelNotAllowed | ErrOnlyIMAllowed | ErrGroupNotFound | ErrUserNotInGroup
  | ErrNoLogsForJob | ErrNoJobWithID | ErrAliasNotFound | ErrTokenNotFound
  | ErrUnclosedQuoteInCommand | ErrNoJobIDAsArgument | ErrIgnoredMessage | ErrNoCommandToRun
  | Errorf string
  | Foreign string
  | Panicking string

text \<open>\<^verbatim>\<open>err.Error()\<close>.\<close>

fun err_text :: "err \<Rightarrow> string" where
  "err_text ErrUserNotAllowed = ''user no allowed''"
| "err_text ErrChannelNotAllowed = ''command not allowed in channel''"
| "err_text ErrOnlyIMAllowed = ''command only allowed in IM''"
| "err_text ErrGroupNotFound = ''groups does not exists''"
| "err_text ErrUserNotInGroup = ''user does not belong to group''"
| "err_text ErrNoLogsForJob = ''No logs for job''"
| "err_text ErrNoJobWithID = ''no job could be found''"
| "err_text ErrAliasNotFound = ''alias not found''"
| "err_text ErrTokenNotFound = ''no token found''"
| "err_text ErrUnclosedQuoteInCommand = ''unclosed quote on command''"
| "err_text ErrNoJobIDAsArgument = ''no job id passed''"
| "err_text ErrIgnoredMessage = ''ignore this message''"
| "err_text ErrNoCommandToRun = ''no command to run''"
| "err_text (Errorf s) = s"
| "err_text (Foreign s) = s"
| "err_text (Panicking s) = s"

definition nil_dereference :: err where
  "nil_dereference = Panicking ''invalid memory address or nil pointer dereference''"

text \<open>\<^verbatim>\<open>fmt.Errorf("... %s", err)\<close> with the error at the end of the format.\<close>

definition wrap_err :: "string \<Rightarrow> err \<Rightarrow> err" where
  "wrap_err msg e = Errorf (msg @ err_text e)"

text \<open>What a Go function of type \<^verbatim>\<open>(T, error)\<close> gives when the value is only used without error.\<close>

type_synonym 'a result = "err + 'a"

abbreviation Fails :: "err \<Rightarrow> 'a result" where "Fails \<equiv> Inl"
abbreviation Returns :: "'a \<Rightarrow> 'a result" where "Returns \<equiv> Inr"

section \<open>Requests and jobs\<close>

record request =
  req_Command :: string
  req_Args :: "string list"
  req_Username :: string
  req_UserID :: string
  req_UserLink :: string
  req_Channel :: string
  req_ChannelID :: string
  req_ChannelLink :: string
  req_IsIM :: bool

record job =
  job_ID :: u64
  job_Request :: request
  job_StartTime :: time
  job_EndTime :: time
  job_Status :: string

definition JobRunningStatus :: string where "JobRunningStatus = ''Running''"
definition JobFailedStatus :: string where "JobFailedStatus = ''Failed''"
definition JobKilledStatus :: string where "JobKilledStatus = ''Killed''"
definition JobSuccessStatus :: string where "JobSuccessStatus = ''Successful''"

lemmas job_status_defs =
  JobRunningStatus_def JobFailedStatus_def JobKilledStatus_def JobSuccessStatus_def

lemma job_status_distinct:
  "distinct [JobRunningStatus, JobFailedStatus, JobKilledStatus, JobSuccessStatus]"
  by (simp add: job_status_defs)

lemma running_not_ended [simp]:
  "JobRunningStatus \<noteq> JobFailedStatus" "JobFailedStatus \<noteq> JobRunningStatus"
  "JobRunningStatus \<noteq> JobSuccessStatus" "JobSuccessStatus \<noteq> JobRunningStatus"
  "JobRunningStatus \<noteq> JobKilledStatus" "JobKilledStatus \<noteq> JobRunningStatus"
  using job_status_distinct by auto

text \<open>The zero value of \<^verbatim>\<open>time.Time\<close>: the start of the year 1.\<close>

definition zero_time :: time where
  "zero_time = -62135596800 * 10 ^ 9"

text \<open>The zero values \<^verbatim>\<open>Request{}\<close> and \<^verbatim>\<open>Job{}\<close>.\<close>

definition zero_request :: request where
  "zero_request = \<lparr>req_Command = [], req_Args = [], req_Username = [], req_UserID = [],
     req_UserLink = [], req_Channel = [], req_ChannelID = [], req_ChannelLink = [], req_IsIM = False\<rparr>"

definition zero_job :: job where
  "zero_job = \<lparr>job_ID = 0, job_Request = zero_request, job_StartTime = zero_time,
     job_EndTime = zero_time, job_Status = []\<rparr>"

record job_filter =
  jf_Limit :: int
  jf_Match :: "(job \<Rightarrow> bool) option"

section \<open>Logs, tokens, aliases\<close>

record job_log =
  jl_Error :: string
  jl_Output :: string

definition zero_job_log :: job_log where
  "zero_job_log = \<lparr>jl_Error = [], jl_Output = []\<rparr>"

definition GetError :: "job_log \<Rightarrow> err option" where
  "GetError j = (if jl_Error j = [] then None else Some (Errorf (jl_Error j)))"

record api_token =
  tok_TokenID :: string
  tok_UserLink :: string
  tok_ChannelLink :: string
  tok_Text :: string
  tok_CreatedOn :: time

record api_token_filter =
  tf_Limit :: int
  tf_Match :: "(api_token \<Rightarrow> bool) option"

record command_alias =
  al_Alias :: string
  al_Command :: string
  al_Args :: "string list"

section \<open>Command options and help\<close>

record command_help =
  help_summary :: string
  help_args :: "string list"

definition NewHelp :: "string \<Rightarrow> string list \<Rightarrow> command_help" where
  "NewHelp summary args = \<lparr>help_summary = summary, help_args = [] @ args\<rparr>"

record command_opts =
  opt_Cmd :: string
  opt_Args :: "string list option"
  opt_AllowedGroups :: "string list option"
  opt_AuthStrategy :: string
  opt_AllowedChannels :: "string list option"
  opt_ChannelStrategy :: string
  opt_Handshake :: bool
  opt_Timeout :: i64
  opt_Help :: command_help

definition second :: i64 where
  "second = 1000000000"

definition DefaultCommandTimeout :: i64 where
  "DefaultCommandTimeout = 60 * second"

definition opts_HasHandshake :: "command_opts \<Rightarrow> bool" where
  "opts_HasHandshake o1 = opt_Handshake o1"

definition opts_GetAuthStrategy :: "command_opts \<Rightarrow> string" where
  "opts_GetAuthStrategy o1 = (if opt_AuthStrategy o1 = [] then ''none'' else opt_AuthStrategy o1)"

definition opts_GetAllowedGroups :: "command_opts \<Rightarrow> string list" where
  "opts_GetAllowedGroups o1 = (case opt_AllowedGroups o1 of None \<Rightarrow> [] | Some g \<Rightarrow> g)"

definition opts_GetChannelStrategy :: "command_opts \<Rightarrow> string" where
  "opts_GetChannelStrategy o1 = (if opt_ChannelStrategy o1 = [] then ''any'' else opt_ChannelStrategy o1)"

definition opts_GetAllowedChannels :: "command_opts \<Rightarrow> string list" where
  "opts_GetAllowedChannels o1 = (case opt_AllowedChannels o1 of None \<Rightarrow> [] | Some c \<Rightarrow> c)"

definition opts_GetArgs :: "command_opts \<Rightarrow> string list" where
  "opts_GetArgs o1 = (case opt_Args o1 of None \<Rightarrow> [] | Some a \<Rightarrow> a)"

definition opts_GetTimeout :: "command_opts \<Rightarrow> i64" where
  "opts_GetTimeout o1 = (if opt_Timeout o1 = 0 then DefaultCommandTimeout else opt_Timeout o1)"

definition opts_GetCmd :: "command_opts \<Rightarrow> string" where
  "opts_GetCmd o1 = opt_Cmd o1"

definition opts_GetHelp :: "command_opts \<Rightarrow> command_help" where
  "opts_GetHelp o1 = opt_Help o1"

definition opts_MustRecord :: "command_opts \<Rightarrow> bool" where
  "opts_MustRecord o1 = True"

lemmas opts_getters [cmd_simps] =
  opts_HasHandshake_def opts_GetAuthStrategy_def opts_GetAllowedGroups_def
  opts_GetChannelStrategy_def opts_GetAllowedChannels_def opts_GetArgs_def opts_GetTimeout_def
  opts_GetCmd_def opts_GetHelp_def opts_MustRecord_def

end
