(* ===== verification/Bolt.thy ===== *)
theory Bolt
  imports Meeseeks
begin

text \<open>
  The embedded key-value store (\<^verbatim>\<open>github.com/coreos/bbolt\<close>) is not part of the repository: it is a
  parameter of the model, the record of operations \<open>'db bolt\<close> over an unknown type of database
  contents. A bucket handle is the path of bucket names that leads to it. The locale \<open>bolt_api\<close>
  states the documented behaviour the code relies on, through a view of the contents as finite
  maps; \<open>bolt_commits\<close> adds that the disk takes every commit. \<open>ref_bolt\<close> is a small store that
  meets the interface, so that the hypotheses of the theorems can be seen to hold.
\<close>

section \<open>The interface\<close>

text \<open>
  \<open>bucket_cursor\<close> is the sequence of pairs that \<^verbatim>\<open>First\<close> and repeated \<^verbatim>\<open>Next\<close> give (\<^verbatim>\<open>Last\<close> and \<^verbatim>\<open>Prev\<close>
  give its reverse); the value is \<open>None\<close> where the key names a nested bucket. \<open>commit\<close> is the
  error of writing the transaction to disk. The contents a failed operation leaves behind do
  not matter: its error rolls the transaction back, or the code has written nothing.
\<close>

record 'db bolt =
  bucket_exists :: "'db \<Rightarrow> string list \<Rightarrow> bool"
  create_bucket :: "'db \<Rightarrow> string list \<Rightarrow> string \<Rightarrow> 'db result"
  delete_bucket :: "'db \<Rightarrow> string list \<Rightarrow> string \<Rightarrow> 'db result"
  bucket_get :: "'db \<Rightarrow> string list \<Rightarrow> string \<Rightarrow> string option"
  bucket_put :: "'db \<Rightarrow> string list \<Rightarrow> string \<Rightarrow> string \<Rightarrow> 'db result"
  bucket_delete :: "'db \<Rightarrow> string list \<Rightarrow> string \<Rightarrow> 'db result"
  next_sequence :: "'db \<Rightarrow> string list \<Rightarrow> (u64 \<times> 'db) result"
  bucket_cursor :: "'db \<Rightarrow> string list \<Rightarrow> (string \<times> string option) list"
  commit :: "'db \<Rightarrow> err option"
  not_open :: err

datatype entry = Val string | Sub

record bucket =
  items :: "(string, entry) fmap"
  seqno :: u64

type_synonym 'db view = "'db \<Rightarrow> string list \<Rightarrow> bucket option"

definition empty_bucket :: bucket where
  "empty_bucket = \<lparr>items = fmempty, seqno = 0\<rparr>"

fun entry_value :: "entry option \<Rightarrow> string option" where
  "entry_value (Some (Val v)) = Some v"
| "entry_value _ = None"

definition sorted_keys :: "bucket \<Rightarrow> string list" where
  "sorted_keys b = sorted_list_of_fset (fmdom (items b))"

definition sorted_entries :: "bucket \<Rightarrow> (string \<times> string option) list" where
  "sorted_entries b = map (\<lambda>k. (k, entry_value (fmlookup (items b) k))) (sorted_keys b)"

text \<open>The sizes bolt accepts: keys of 1 to 32768 bytes, values below 2 GiB.\<close>

definition key_ok :: "string \<Rightarrow> bool" where
  "key_ok k \<longleftrightarrow> k \<noteq> [] \<and> length k \<le> 32768"

definition value_ok :: "string \<Rightarrow> bool" where
  "value_ok v \<longleftrightarrow> length v \<le> 2147483646"

locale bolt_api =
  fixes B :: "'db bolt" and view :: "'db view"
  assumes root_exists: "view d [] \<noteq> None"
    and root_buckets: "view d [] = Some r \<Longrightarrow> fmlookup (items r) k \<noteq> Some (Val v)"
    and exists_view: "bucket_exists B d p \<longleftrightarrow> view d p \<noteq> None"
    and get_view: "view d p = Some b \<Longrightarrow> bucket_get B d p k = entry_value (fmlookup (items b) k)"
    and cursor_view: "view d p = Some b \<Longrightarrow> bucket_cursor B d p = sorted_entries b"
    and create_view: "view d p = Some b \<Longrightarrow> create_bucket B d p k = Returns d' \<Longrightarrow>
      view d' = (if view d (p @ [k]) \<noteq> None then view d
        else (view d)(p \<mapsto> b\<lparr>items := fmupd k Sub (items b)\<rparr>, p @ [k] \<mapsto> empty_bucket))"
    and create_ok: "view d p = Some b \<Longrightarrow> key_ok k \<Longrightarrow> (\<nexists>v. fmlookup (items b) k = Some (Val v)) \<Longrightarrow>
      \<exists>d'. create_bucket B d p k = Returns d'"
    and create_no_name: "\<exists>e. create_bucket B d p [] = Fails e"
    and drop_view: "view d p = Some b \<Longrightarrow> delete_bucket B d p k = Returns d' \<Longrightarrow>
      view d' = (\<lambda>q. if q = p then Some (b\<lparr>items := fmdrop k (items b)\<rparr>)
        else if take (length p + 1) q = p @ [k] then None else view d q)"
    and drop_ok: "view d p = Some b \<Longrightarrow> fmlookup (items b) k = Some Sub \<Longrightarrow>
      \<exists>d'. delete_bucket B d p k = Returns d'"
    and put_view: "view d p = Some b \<Longrightarrow> bucket_put B d p k v = Returns d' \<Longrightarrow>
      view d' = (view d)(p \<mapsto> b\<lparr>items := fmupd k (Val v) (items b)\<rparr>)"
    and put_ok: "view d p = Some b \<Longrightarrow> p \<noteq> [] \<Longrightarrow> key_ok k \<Longrightarrow> value_ok v \<Longrightarrow> fmlookup (items b) k \<noteq> Some Sub \<Longrightarrow>
      \<exists>d'. bucket_put B d p k v = Returns d'"
    and delete_view: "view d p = Some b \<Longrightarrow> bucket_delete B d p k = Returns d' \<Longrightarrow>
      view d' = (view d)(p \<mapsto> b\<lparr>items := fmdrop k (items b)\<rparr>)"
    and delete_ok: "view d p = Some b \<Longrightarrow> fmlookup (items b) k \<noteq> Some Sub \<Longrightarrow>
      \<exists>d'. bucket_delete B d p k = Returns d'"
    and sequence_view: "view d p = Some b \<Longrightarrow> next_sequence B d p = Returns (n, d') \<Longrightarrow>
      n = seqno b + 1 \<and> view d' = (view d)(p \<mapsto> b\<lparr>seqno := seqno b + 1\<rparr>)"
    and sequence_ok: "view d p = Some b \<Longrightarrow> \<exists>n d'. next_sequence B d p = Returns (n, d')"

locale bolt_commits = bolt_api +
  assumes commit_ok: "commit B d = None"

section \<open>Sorted entries\<close>

lemma set_sorted_keys [simp]: "set (sorted_keys b) = fmdom' (items b)"
  by (simp add: sorted_keys_def fmdom'_alt_def)

lemma distinct_sorted_keys [simp]: "distinct (sorted_keys b)"
  by (simp add: sorted_keys_def sorted_list_of_fset.rep_eq)

lemma sorted_sorted_keys: "sorted_wrt (<) (sorted_keys b)"
  by (simp add: sorted_keys_def sorted_list_of_fset.rep_eq)

lemma sorted_keys_eqI:
  "sorted_wrt (<) ks \<Longrightarrow> set ks = fmdom' (items b) \<Longrightarrow> sorted_keys b = ks"
  using sorted_list_of_set_eqI [of ks "fmdom' (items b)"]
  by (simp add: sorted_keys_def sorted_list_of_fset.rep_eq fmdom'_alt_def)

lemma sorted_keys_image:
  fixes f :: "'a::linorder \<Rightarrow> string"
  assumes "finite A" and "fmdom' (items b) = f ` A" and "strict_mono_on A f"
  shows "sorted_keys b = map f (sorted_list_of_set A)"
proof -
  have "sorted_keys b = sorted_list_of_set (f ` A)"
    using sorted_sorted_keys [of b] assms(2) by (intro sorted_list_of_set_eqI [symmetric]) simp_all
  also have "\<dots> = map f (sorted_list_of_set A)"
    using assms(1,3) by (intro sorted_list_of_set_image) (auto dest: strict_mono_onD)
  finally show ?thesis .
qed

lemma entry_value_Some [simp]: "entry_value e = Some v \<longleftrightarrow> e = Some (Val v)"
  by (cases e rule: entry_value.cases) auto

section \<open>A store that meets the interface\<close>

type_synonym ref_db = "string list \<Rightarrow> bucket option"

definition ref_view :: "ref_db view" where
  "ref_view d p =
     (if p = [] then
        (case d [] of None \<Rightarrow> Some empty_bucket | Some b \<Rightarrow> Some (b\<lparr>items := fmmap (\<lambda>_. Sub) (items b)\<rparr>))
      else d p)"

definition ref_empty :: ref_db where
  "ref_empty = Map.empty"

definition ref_bolt :: "ref_db bolt" where
  "ref_bolt = \<lparr>
     bucket_exists = (\<lambda>d p. ref_view d p \<noteq> None),
     create_bucket = (\<lambda>d p k.
       if \<not> key_ok k then Fails (Foreign ''bucket name required'')
       else case ref_view d p of
         None \<Rightarrow> Fails nil_dereference
       | Some b \<Rightarrow>
          (if ref_view d (p @ [k]) \<noteq> None then Returns d
           else if entry_value (fmlookup (items b) k) \<noteq> None then Fails (Foreign ''incompatible value'')
           else Returns (d(p \<mapsto> b\<lparr>items := fmupd k Sub (items b)\<rparr>, p @ [k] \<mapsto> empty_bucket)))),
     delete_bucket = (\<lambda>d p k.
       case ref_view d p of
         None \<Rightarrow> Fails nil_dereference
       | Some b \<Rightarrow>
          (if fmlookup (items b) k \<noteq> Some Sub then Fails (Foreign ''bucket not found'')
           else Returns (\<lambda>q. if q = p then Some (b\<lparr>items := fmdrop k (items b)\<rparr>)
                  else if take (length p + 1) q = p @ [k] then None else d q))),
     bucket_get = (\<lambda>d p k.
       case ref_view d p of None \<Rightarrow> None | Some b \<Rightarrow> entry_value (fmlookup (items b) k)),
     bucket_put = (\<lambda>d p k v.
       if \<not> key_ok k then Fails (Foreign ''key required'')
       else if \<not> value_ok v then Fails (Foreign ''value too large'')
       else if p = [] then Fails (Foreign ''not a bucket'')
       else case ref_view d p of
         None \<Rightarrow> Fails nil_dereference
       | Some b \<Rightarrow>
          (if fmlookup (items b) k = Some Sub then Fails (Foreign ''incompatible value'')
           else Returns (d(p \<mapsto> b\<lparr>items := fmupd k (Val v) (items b)\<rparr>)))),
     bucket_delete = (\<lambda>d p k.
       case ref_view d p of
         None \<Rightarrow> Fails nil_dereference
       | Some b \<Rightarrow>
          (if fmlookup (items b) k = Some Sub then Fails (Foreign ''incompatible value'')
           else Returns (d(p \<mapsto> b\<lparr>items := fmdrop k (items b)\<rparr>)))),
     next_sequence = (\<lambda>d p.
       case ref_view d p of
         None \<Rightarrow> Fails nil_dereference
       | Some b \<Rightarrow> Returns (seqno b + 1, d(p \<mapsto> b\<lparr>seqno := seqno b + 1\<rparr>))),
     bucket_cursor = (\<lambda>d p. case ref_view d p of None \<Rightarrow> [] | Some b \<Rightarrow> sorted_entries b),
     commit = (\<lambda>d. None),
     not_open = Foreign ''database not open''\<rparr>"

lemma ref_view_upd: "p \<noteq> [] \<Longrightarrow> ref_view (d(p \<mapsto> b)) = (ref_view d)(p \<mapsto> b)"
  by (rule ext) (simp add: ref_view_def)

lemma fmmap_const_idem: "fmmap (\<lambda>_. c) (fmmap (\<lambda>_. c') m) = fmmap (\<lambda>_. c) m"
  by (rule fmap_ext) (auto simp: map_option.compositionality comp_def)

lemma fmmap_Sub_upd: "fmmap (\<lambda>_. c) (fmupd k c m) = fmupd k c (fmmap (\<lambda>_. c) m)"
  by (rule fmap_ext) simp

lemma ref_view_root: "ref_view d [] = Some b \<Longrightarrow> fmmap (\<lambda>_. Sub) (items b) = items b"
  by (auto simp: ref_view_def empty_bucket_def fmmap_const_idem split: option.splits)

lemma ref_view_upd_root:
  "fmmap (\<lambda>_. Sub) (items b) = items b \<Longrightarrow> ref_view (d([] \<mapsto> b)) = (ref_view d)([] \<mapsto> b)"
  by (rule ext) (simp add: ref_view_def)

lemma fmmap_drop: "fmmap f (fmdrop k m) = fmdrop k (fmmap f m)"
  by (rule fmap_ext) simp

lemma take_snoc_Nil: "take (Suc (length p)) q = p @ [k] \<Longrightarrow> q \<noteq> []"
  by auto

lemma ref_view_keeps:
  "ref_view d p = Some b \<Longrightarrow> ref_view (d(p \<mapsto> b\<lparr>items := fmupd k Sub (items b)\<rparr>)) =
     (ref_view d)(p \<mapsto> b\<lparr>items := fmupd k Sub (items b)\<rparr>)"
  "ref_view d p = Some b \<Longrightarrow> ref_view (d(p \<mapsto> b\<lparr>items := fmdrop k (items b)\<rparr>)) =
     (ref_view d)(p \<mapsto> b\<lparr>items := fmdrop k (items b)\<rparr>)"
  "ref_view d p = Some b \<Longrightarrow> ref_view (d(p \<mapsto> b\<lparr>seqno := n\<rparr>)) = (ref_view d)(p \<mapsto> b\<lparr>seqno := n\<rparr>)"
  by (cases "p = []"; simp add: ref_view_upd ref_view_upd_root fmmap_Sub_upd fmmap_drop ref_view_root)+

interpretation ref: bolt_commits ref_bolt ref_view
proof (unfold_locales, goal_cases)
  case 1
  show ?case by (simp add: ref_view_def split: option.splits)
next
  case (2 d r k v)
  have "fmlookup (fmmap (\<lambda>_. Sub) (items r)) k = fmlookup (items r) k"
    unfolding ref_view_root [OF 2] ..
  then show ?case by (cases "fmlookup (items r) k") auto
next
  case (8 d p)
  show ?case by (simp add: ref_bolt_def key_ok_def)
next
  case (9 d p b k d')
  then have k: "fmlookup (items b) k = Some Sub"
    and d': "d' = (\<lambda>q. if q = p then Some (b\<lparr>items := fmdrop k (items b)\<rparr>)
      else if take (length p + 1) q = p @ [k] then None else d q)"
    by (auto simp: ref_bolt_def split: if_splits)
  show ?case
  proof
    fix q
    show "ref_view d' q = (if q = p then Some (b\<lparr>items := fmdrop k (items b)\<rparr>)
        else if take (length p + 1) q = p @ [k] then None else ref_view d q)"
    proof (cases "q = p")
      case True
      then show ?thesis
        using ref_view_root [of d b] 9(1) by (cases "p = []") (simp_all add: d' ref_view_def fmmap_drop)
    next
      case False
      then show ?thesis by (cases "q = []") (simp_all add: d' ref_view_def)
    qed
  qed
qed (auto simp: ref_bolt_def ref_view_keeps ref_view_upd value_ok_def key_ok_def
    split: if_splits option.splits)

end
