(* ===== verification/Db.thy ===== *)
theory Db
  imports Bolt
begin

text \<open>
  Package \<^verbatim>\<open>db\<close> (\<^verbatim>\<open>persistence/db/db.go\<close>): the process-wide database handle, the transaction
  wrappers every store goes through, the sequence helper and the big-endian keys. Below: keys
  are injective and ordered like the identifiers, and a transaction that fails leaves the
  database as it was.
\<close>

section \<open>Keys\<close>

definition IDToBytes :: "u64 \<Rightarrow> string" where
  "IDToBytes ID = be_bytes 8 (unat ID)"

text \<open>\<^verbatim>\<open>BigEndian.Uint64\<close> reads the first eight bytes and panics when there are fewer.\<close>

definition IDFromBytes :: "string \<Rightarrow> u64 run" where
  "IDFromBytes ID =
     (if length ID < 8 then Panic ''index out of range'' else Ret (of_nat (be_value (take 8 ID))))"

lemma length_IDToBytes [simp]: "length (IDToBytes i) = 8"
  by (simp add: IDToBytes_def)

lemma IDToBytes_nonempty [simp]: "IDToBytes i \<noteq> []"
  using length_IDToBytes [of i] by (metis list.size(3) zero_neq_numeral)

lemma key_ok_IDToBytes [simp]: "key_ok (IDToBytes i)"
  by (simp add: key_ok_def)

lemma unat_less_256_8: "unat (i :: u64) < 256 ^ 8"
  using unat_u64_less [of i] by simp

lemma IDFromBytes_IDToBytes [simp]: "IDFromBytes (IDToBytes i) = Ret i"
  using be_value_be_bytes [OF unat_less_256_8 [of i]] by (simp add: IDFromBytes_def IDToBytes_def)

lemma IDToBytes_inj [simp]: "IDToBytes i = IDToBytes j \<longleftrightarrow> i = j"
  by (metis IDFromBytes_IDToBytes run.inject(1))

lemma IDToBytes_mono: "i < j \<Longrightarrow> IDToBytes i < IDToBytes j"
  unfolding IDToBytes_def by (rule be_bytes_less [OF _ unat_less_256_8]) (simp add: word_less_nat_alt)

lemma IDToBytes_less_iff: "IDToBytes i < IDToBytes j \<longleftrightarrow> i < j"
  by (metis IDToBytes_mono less_asym linorder_neqE order.strict_trans)

lemma strict_mono_IDToBytes: "strict_mono_on A IDToBytes"
  by (auto intro: strict_mono_onI IDToBytes_mono)

section \<open>The handle and the transactions\<close>

record database_config =
  dc_Path :: string
  dc_Timeout :: i64
  dc_Mode :: "32 word"

text \<open>
  \<open>database\<close> is the global handle: nil before the first \<open>Configure\<close>, open with its contents, or
  closed (what is left when reopening failed, or after \<open>Close\<close>).
\<close>

datatype 'db handle = NilHandle | Open 'db | Closed

record 'db db_state =
  databaseConfig :: database_config
  database :: "'db handle"

text \<open>\<open>bolt_open\<close> is what \<^verbatim>\<open>bolt.Open\<close> returns for a configuration at that moment.\<close>

definition Configure_db :: "(database_config \<Rightarrow> 'db result) \<Rightarrow> database_config \<Rightarrow> 'db db_state \<Rightarrow>
    err option \<times> 'db db_state" where
  "Configure_db bolt_open cnf s =
     (let s1 = (if database s = NilHandle then s else s\<lparr>database := Closed\<rparr>);
          s2 = s1\<lparr>databaseConfig := cnf\<rparr>
      in case bolt_open (databaseConfig s2) of
           Inl e \<Rightarrow> (Some e, s2)
         | Inr d \<Rightarrow> (None, s2\<lparr>database := Open d\<rparr>))"

text \<open>
  \<open>WithDB\<close> hands the handle to its argument; \<open>Update\<close> and \<open>View\<close> pass it on to bolt's managed
  transactions: an error of the function or of the commit leaves the contents as they were.
\<close>

definition not_initialized :: err where
  "not_initialized = Errorf ''database is not initialized''"

definition Update :: "'db bolt \<Rightarrow> ('db \<Rightarrow> ('a \<times> 'db) result) \<Rightarrow> 'db db_state \<Rightarrow> 'a result \<times> 'db db_state" where
  "Update B f s =
     (case database s of
        NilHandle \<Rightarrow> (Fails not_initialized, s)
      | Closed \<Rightarrow> (Fails (not_open B), s)
      | Open d \<Rightarrow>
          (case f d of
             Inl e \<Rightarrow> (Fails e, s)
           | Inr (x, d') \<Rightarrow>
               (case commit B d' of
                  Some e \<Rightarrow> (Fails e, s)
                | None \<Rightarrow> (Returns x, s\<lparr>database := Open d'\<rparr>))))"

definition View :: "'db bolt \<Rightarrow> ('db \<Rightarrow> 'a result) \<Rightarrow> 'db db_state \<Rightarrow> 'a result" where
  "View B f s =
     (case database s of
        NilHandle \<Rightarrow> Fails not_initialized
      | Closed \<Rightarrow> Fails (not_open B)
      | Open d \<Rightarrow> f d)"

definition NextSequenceFor :: "'db bolt \<Rightarrow> string \<Rightarrow> 'db \<Rightarrow> (u64 \<times> 'db) result" where
  "NextSequenceFor B bucketID d =
     (case create_bucket B d [] bucketID of
        Inl e \<Rightarrow> Fails e
      | Inr d1 \<Rightarrow> next_sequence B d1 [bucketID])"

definition Create_db :: "'db bolt \<Rightarrow> string \<Rightarrow> (u64 \<Rightarrow> 'db \<Rightarrow> ('a \<times> 'db) result) \<Rightarrow> 'db db_state \<Rightarrow>
    'a result \<times> 'db db_state" where
  "Create_db B bucketID f =
     Update B (\<lambda>d. case NextSequenceFor B bucketID d of
         Inl e \<Rightarrow> Fails (wrap_err (''could not get next sequence for '' @ bucketID @ '': '') e)
       | Inr (sequence, d1) \<Rightarrow> f sequence d1)"

definition Close_db :: "'db db_state \<Rightarrow> 'db db_state" where
  "Close_db s = (if database s = NilHandle then s else s\<lparr>database := Closed\<rparr>)"

section \<open>Transactions on an open database\<close>

lemma Update_open [tx_simps]:
  "database s = Open d \<Longrightarrow> Update B f s =
     (case f d of
        Inl e \<Rightarrow> (Fails e, s)
      | Inr (x, d') \<Rightarrow>
          (case commit B d' of
             Some e \<Rightarrow> (Fails e, s)
           | None \<Rightarrow> (Returns x, s\<lparr>database := Open d'\<rparr>)))"
  by (simp add: Update_def)

lemma View_open [tx_simps]: "database s = Open d \<Longrightarrow> View B f s = f d"
  by (simp add: View_def)

lemma Update_fails: "Update B f s = (Fails e, s') \<Longrightarrow> s' = s"
  by (auto simp: Update_def split: handle.splits sum.splits option.splits prod.splits)

lemma Update_returns:
  assumes "Update B f s = (Returns x, s')"
  obtains d d' where "database s = Open d" "f d = Returns (x, d')" "commit B d' = None"
    "s' = s\<lparr>database := Open d'\<rparr>"
  using assms by (auto simp: Update_def split: handle.splits sum.splits option.splits prod.splits)

lemma View_returns:
  assumes "View B f s = Returns x"
  obtains d where "database s = Open d" "f d = Returns x"
  using assms by (auto simp: View_def split: handle.splits)

lemma Update_closed:
  "database s = Closed \<Longrightarrow> Update B f s = (Fails (not_open B), s)"
  "database s = Closed \<Longrightarrow> View B g s = Fails (not_open B)"
  by (simp_all add: Update_def View_def)

definition only_buckets :: "(string list \<Rightarrow> bucket option) \<Rightarrow> string \<Rightarrow> bool" where
  "only_buckets V k \<longleftrightarrow> (\<forall>b x v. V [k] = Some b \<longrightarrow> fmlookup (items b) x \<noteq> Some (Val v))"

context bolt_api
begin

text \<open>A bucket directly below the root is created on first use.\<close>

lemma create_root:
  assumes "create_bucket B d [] k = Returns d'"
  shows "view d' [k] = Some (case view d [k] of Some b \<Rightarrow> b | None \<Rightarrow> empty_bucket)"
    and "\<And>p. p \<noteq> [] \<Longrightarrow> p \<noteq> [k] \<Longrightarrow> view d' p = view d p"
proof -
  obtain r where r: "view d [] = Some r" using root_exists by blast
  from create_view [OF r assms]
  have v: "view d' = (if view d ([] @ [k]) \<noteq> None then view d
    else (view d)([] \<mapsto> r\<lparr>items := fmupd k Sub (items r)\<rparr>, [] @ [k] \<mapsto> empty_bucket))" .
  show "view d' [k] = Some (case view d [k] of Some b \<Rightarrow> b | None \<Rightarrow> empty_bucket)"
    unfolding v by (auto split: option.splits)
  show "\<And>p. p \<noteq> [] \<Longrightarrow> p \<noteq> [k] \<Longrightarrow> view d' p = view d p"
    unfolding v by auto
qed

lemma NextSequenceFor_view:
  assumes "NextSequenceFor B k d = Returns (n, d')"
  shows "\<exists>b. b = (case view d [k] of Some b \<Rightarrow> b | None \<Rightarrow> empty_bucket) \<and> n = seqno b + 1 \<and>
    view d' [k] = Some (b\<lparr>seqno := n\<rparr>) \<and> (\<forall>p. p \<noteq> [] \<longrightarrow> p \<noteq> [k] \<longrightarrow> view d' p = view d p)"
proof -
  from assms obtain d1 where d1: "create_bucket B d [] k = Returns d1"
    and n: "next_sequence B d1 [k] = Returns (n, d')"
    by (auto simp: NextSequenceFor_def split: sum.splits)
  note c = create_root [OF d1]
  from sequence_view [OF c(1) n] c(2) show ?thesis by auto
qed

lemma create_root_ok: "key_ok k \<Longrightarrow> \<exists>d'. create_bucket B d [] k = Returns d'"
proof -
  assume k: "key_ok k"
  obtain r where r: "view d [] = Some r" using root_exists by blast
  with root_buckets k show ?thesis by (intro create_ok [OF r]) auto
qed

lemma NextSequenceFor_ok: "key_ok k \<Longrightarrow> \<exists>n d'. NextSequenceFor B k d = Returns (n, d')"
proof -
  assume "key_ok k"
  then obtain d1 where d1: "create_bucket B d [] k = Returns d1" using create_root_ok by blast
  from sequence_ok [OF create_root(1) [OF d1]] d1 show ?thesis
    by (auto simp: NextSequenceFor_def)
qed

text \<open>A bucket of buckets: \<open>k\<close> below the root, \<open>u\<close> below \<open>k\<close>, both created on first use.\<close>

lemma nested_bucket_view:
  assumes d1: "create_bucket B d [] k = Returns d1" and d2: "create_bucket B d1 [k] u = Returns d2"
  shows "view d2 [k, u] = Some (case view d [k, u] of Some b \<Rightarrow> b | None \<Rightarrow> empty_bucket)"
    and "\<And>q. q \<noteq> [] \<Longrightarrow> q \<noteq> [k] \<Longrightarrow> q \<noteq> [k, u] \<Longrightarrow> view d2 q = view d q"
    and "only_buckets (view d) k \<Longrightarrow>
      \<exists>b. view d2 [k] = Some b \<and> (\<forall>x v. fmlookup (items b) x \<noteq> Some (Val v))"
proof -
  note c1 = create_root [OF d1]
  define b where "b = (case view d [k] of Some b \<Rightarrow> b | None \<Rightarrow> empty_bucket)"
  have b: "view d1 [k] = Some b" by (simp add: c1 b_def)
  have c2: "view d2 = (if view d1 [k, u] \<noteq> None then view d1
      else (view d1)([k] \<mapsto> b\<lparr>items := fmupd u Sub (items b)\<rparr>, [k, u] \<mapsto> empty_bucket))"
    using create_view [OF b d2] by simp
  show "view d2 [k, u] = Some (case view d [k, u] of Some b \<Rightarrow> b | None \<Rightarrow> empty_bucket)"
    using c1(2) [of "[k, u]"] by (auto simp: c2 split: option.splits)
  show "\<And>q. q \<noteq> [] \<Longrightarrow> q \<noteq> [k] \<Longrightarrow> q \<noteq> [k, u] \<Longrightarrow> view d2 q = view d q"
    using c1(2) by (simp add: c2)
  assume "only_buckets (view d) k"
  then have "\<forall>x v. fmlookup (items b) x \<noteq> Some (Val v)"
    by (auto simp: b_def only_buckets_def empty_bucket_def split: option.splits)
  then show "\<exists>b. view d2 [k] = Some b \<and> (\<forall>x v. fmlookup (items b) x \<noteq> Some (Val v))"
    using b by (cases "view d1 [k, u] = None") (auto simp: c2)
qed

lemma nested_bucket_ok:
  assumes "only_buckets (view d) k" and "key_ok u" and "key_ok k"
  shows "\<exists>d1 d2. create_bucket B d [] k = Returns d1 \<and> create_bucket B d1 [k] u = Returns d2"
proof -
  obtain d1 where d1: "create_bucket B d [] k = Returns d1" using create_root_ok [OF assms(3)] by blast
  define b where "b = (case view d [k] of Some b \<Rightarrow> b | None \<Rightarrow> empty_bucket)"
  have b: "view d1 [k] = Some b" using create_root(1) [OF d1] by (simp add: b_def)
  have "\<nexists>v. fmlookup (items b) u = Some (Val v)"
    using assms(1) by (auto simp: b_def only_buckets_def empty_bucket_def split: option.splits)
  from create_ok [OF b assms(2) this] d1 show ?thesis by blast
qed

end

text \<open>A configuration whose file cannot be opened leaves a handle that refuses every transaction.\<close>

lemma Configure_db_fails:
  assumes "bolt_open cnf = Fails e" and "database s \<noteq> NilHandle"
  shows "Configure_db bolt_open cnf s = (Some e, s\<lparr>database := Closed, databaseConfig := cnf\<rparr>)"
  using assms by (simp add: Configure_db_def Let_def)

lemma Configure_db_opens:
  assumes "bolt_open cnf = Returns d"
  shows "\<exists>s'. Configure_db bolt_open cnf s = (None, s') \<and> database s' = Open d \<and> databaseConfig s' = cnf"
  using assms by (simp add: Configure_db_def Let_def)

section \<open>Properties\<close>

text \<open>
  The keys under which records are stored decode to their identifiers, and the byte order in which
  the database sorts keys is the order of the identifiers, over all 64 bits.
\<close>

theorem keys_ordered_like_identifiers:
  "IDFromBytes (IDToBytes i) = Ret i \<and> (IDToBytes i < IDToBytes j \<longleftrightarrow> i < j) \<and> (IDToBytes i = IDToBytes j \<longleftrightarrow> i = j)"
  by (simp add: IDToBytes_less_iff)

text \<open>
  A transaction is all or nothing: an update that returns an error, of the function or of the commit,
  leaves the whole state as it was, and one that returns a value has run the function on the contents
  of an open database and stored exactly what it left.
\<close>

theorem update_all_or_nothing:
  "case Update B f s of
     (Inl e, s') \<Rightarrow> s' = s
   | (Inr x, s') \<Rightarrow> \<exists>d d'. database s = Open d \<and> f d = Returns (x, d') \<and> commit B d' = None \<and>
       s' = s\<lparr>database := Open d'\<rparr>"
  by (simp add: Update_def split: handle.splits sum.splits option.splits prod.splits)

text \<open>
  C23: reconfiguring the database with a file that cannot be opened leaves a process without a database:
  the old handle has been closed and every later transaction fails, whatever it does.
\<close>

theorem failed_reconfiguration_closes:
  assumes "database s = Open d" and "bolt_open cnf = Fails e"
  shows "\<exists>s'. Configure_db bolt_open cnf s = (Some e, s') \<and>
    Update B f s' = (Fails (not_open B), s') \<and> View B g s' = Fails (not_open B)"
  using assms by (simp add: Configure_db_def Let_def Update_def View_def)

theorem failed_reconfiguration_closes_witness:
  "\<exists>s'. Configure_db (\<lambda>c. Fails (Foreign ''timeout'')) \<lparr>dc_Path = ''b'', dc_Timeout = 0, dc_Mode = 0\<rparr>
      \<lparr>databaseConfig = \<lparr>dc_Path = ''a'', dc_Timeout = 0, dc_Mode = 0\<rparr>, database = Open ref_empty\<rparr> =
        (Some (Foreign ''timeout''), s') \<and>
    NextSequenceFor ref_bolt ''jobs'' ref_empty \<noteq> Fails (not_open ref_bolt) \<and>
    fst (Update ref_bolt (NextSequenceFor ref_bolt ''jobs'') s') = Fails (not_open ref_bolt)"
proof -
  let ?s = "\<lparr>databaseConfig = \<lparr>dc_Path = ''a'', dc_Timeout = 0, dc_Mode = 0\<rparr>, database = Open ref_empty\<rparr>"
  have "\<exists>n d'. NextSequenceFor ref_bolt ''jobs'' ref_empty = Returns (n, d')"
    by (rule ref.NextSequenceFor_ok) (simp add: key_ok_def)
  with failed_reconfiguration_closes [of ?s ref_empty "\<lambda>c. Fails (Foreign ''timeout'')" _ _ ref_bolt
      "NextSequenceFor ref_bolt ''jobs''" "\<lambda>d. Returns ()"]
  show ?thesis by (auto simp: Configure_db_def Let_def)
qed

end
