(* ===== verification/Codec.thy ===== *)
theory Codec
  imports Bolt
begin

text \<open>
  The stores keep jobs, aliases and tokens as JSON (\<^verbatim>\<open>encoding/json\<close>). The codec is a parameter, the
  record of the marshalling functions of the three structs; \<open>json_codec\<close> states what the
  stores rely on: decoding an encoding gives the value back, for values that JSON carries
  (valid UTF-8 strings, times within the years that RFC 3339 writes). \<open>ref_codec\<close> is a codec that
  meets it.
\<close>

section \<open>The codec\<close>

text \<open>\<^verbatim>\<open>Unmarshal\<close> into a zero struct leaves a value, possibly filled in part, and an error.\<close>

record codec =
  job_Marshal :: "job \<Rightarrow> string result"
  job_Unmarshal :: "string \<Rightarrow> job \<times> err option"
  alias_Marshal :: "command_alias \<Rightarrow> string result"
  alias_Unmarshal :: "string \<Rightarrow> command_alias \<times> err option"
  token_Marshal :: "api_token \<Rightarrow> string result"
  token_Unmarshal :: "string \<Rightarrow> api_token \<times> err option"

definition json_time :: "time \<Rightarrow> bool" where
  "json_time t \<longleftrightarrow> zero_time \<le> t \<and> t < 253402300800 * 10 ^ 9"

definition json_request :: "request \<Rightarrow> bool" where
  "json_request r \<longleftrightarrow>
     list_all valid_utf8
       ([req_Command r, req_Username r, req_UserID r, req_UserLink r, req_Channel r, req_ChannelID r,
         req_ChannelLink r] @ req_Args r)"

definition json_job :: "job \<Rightarrow> bool" where
  "json_job j \<longleftrightarrow>
     json_request (job_Request j) \<and> json_time (job_StartTime j) \<and> json_time (job_EndTime j) \<and>
     valid_utf8 (job_Status j)"

definition json_alias :: "command_alias \<Rightarrow> bool" where
  "json_alias a \<longleftrightarrow> list_all valid_utf8 ([al_Alias a, al_Command a] @ al_Args a)"

definition json_token :: "api_token \<Rightarrow> bool" where
  "json_token t \<longleftrightarrow>
     list_all valid_utf8 [tok_TokenID t, tok_UserLink t, tok_ChannelLink t, tok_Text t] \<and>
     json_time (tok_CreatedOn t)"

locale json_codec =
  fixes C :: codec
  assumes job_roundtrip:
      "json_job j \<Longrightarrow> \<exists>p. job_Marshal C j = Returns p \<and> job_Unmarshal C p = (j, None)"
    and alias_roundtrip:
      "json_alias a \<Longrightarrow> \<exists>p. alias_Marshal C a = Returns p \<and> alias_Unmarshal C p = (a, None)"
    and token_roundtrip:
      "json_token t \<Longrightarrow> \<exists>p. token_Marshal C t = Returns p \<and> token_Unmarshal C p = (t, None)"
begin

lemma job_marshalled: "json_job j \<Longrightarrow> job_Marshal C j = Returns p \<Longrightarrow> job_Unmarshal C p = (j, None)"
  using job_roundtrip [of j] by auto

lemma alias_marshalled: "json_alias a \<Longrightarrow> alias_Marshal C a = Returns p \<Longrightarrow> alias_Unmarshal C p = (a, None)"
  using alias_roundtrip [of a] by auto

lemma token_marshalled: "json_token t \<Longrightarrow> token_Marshal C t = Returns p \<Longrightarrow> token_Unmarshal C p = (t, None)"
  using token_roundtrip [of t] by auto

end

section \<open>A codec that meets the law\<close>

text \<open>Fields are written with their length in unary before a colon.\<close>

fun put_fields :: "string list \<Rightarrow> string" where
  "put_fields [] = []"
| "put_fields (x # xs) = replicate (length x) (CHR ''|'') @ '':'' @ x @ put_fields xs"

function get_fields :: "string \<Rightarrow> string list option" where
  "get_fields s =
     (if s = [] then Some []
      else let n = length (takeWhile (\<lambda>c. c = CHR ''|'') s); rest = drop (Suc n) s
           in if length s \<le> n \<or> length rest < n then None
              else map_option (\<lambda>xs. take n rest # xs) (get_fields (drop n rest)))"
  by pat_completeness auto
termination
  by (relation "measure length") auto

declare get_fields.simps [simp del]

lemma get_put_fields: "get_fields (put_fields xs) = Some xs"
proof (induction xs)
  case Nil
  then show ?case by (simp add: get_fields.simps)
next
  case (Cons x xs)
  have "takeWhile (\<lambda>c. c = CHR ''|'') (put_fields (x # xs)) = replicate (length x) (CHR ''|'')"
    by (simp add: takeWhile_append)
  with Cons show ?case by (subst get_fields.simps) (simp add: Let_def)
qed

fun nat_value :: "nat \<Rightarrow> string \<Rightarrow> nat" where
  "nat_value n [] = n"
| "nat_value n (c # s) = nat_value (10 * n + (byte c - 48)) s"

lemma nat_value_append: "nat_value n (s @ t) = nat_value (nat_value n s) t"
  by (induction s arbitrary: n) auto

lemma nat_value_show_nat: "nat_value 0 (show_nat n) = n"
proof (induction n rule: show_nat.induct)
  case (1 n)
  then show ?case
    using is_digit_chr [of n] is_digit_chr [of "n mod 10"]
    by (cases "n < 10") (simp_all add: show_nat.simps [of n] nat_value_append)
qed

definition put_time :: "time \<Rightarrow> string" where
  "put_time t = (if t < 0 then CHR ''-'' else CHR ''+'') # show_nat (nat \<bar>t\<bar>)"

definition get_time :: "string \<Rightarrow> time" where
  "get_time s =
     (case s of [] \<Rightarrow> 0
      | c # r \<Rightarrow> if c = CHR ''-'' then - int (nat_value 0 r) else int (nat_value 0 r))"

lemma get_put_time [simp]: "get_time (put_time t) = t"
  by (simp add: get_time_def put_time_def nat_value_show_nat)

definition put_request :: "request \<Rightarrow> string" where
  "put_request r =
     put_fields ([req_Command r, req_Username r, req_UserID r, req_UserLink r, req_Channel r,
       req_ChannelID r, req_ChannelLink r, if req_IsIM r then ''t'' else ''f''] @ req_Args r)"

fun request_of_fields :: "string list \<Rightarrow> request" where
  "request_of_fields (c # u # ui # ul # ch # ci # cl # im # args) =
     \<lparr>req_Command = c, req_Args = args, req_Username = u, req_UserID = ui, req_UserLink = ul,
      req_Channel = ch, req_ChannelID = ci, req_ChannelLink = cl, req_IsIM = (im = ''t'')\<rparr>"
| "request_of_fields _ = zero_request"

definition bad_payload :: err where
  "bad_payload = Foreign ''unexpected end of JSON input''"

definition get_with :: "(string list \<Rightarrow> 'a) \<Rightarrow> string \<Rightarrow> 'a \<times> err option" where
  "get_with f p = (case get_fields p of None \<Rightarrow> (f [], Some bad_payload)
     | Some xs \<Rightarrow> (f xs, if xs = [] then Some bad_payload else None))"

fun job_of_fields :: "string list \<Rightarrow> job" where
  "job_of_fields [i, r, st, en, status] =
     \<lparr>job_ID = of_nat (be_value i),
      job_Request = request_of_fields (case get_fields r of None \<Rightarrow> [] | Some xs \<Rightarrow> xs),
      job_StartTime = get_time st, job_EndTime = get_time en, job_Status = status\<rparr>"
| "job_of_fields _ = zero_job"

fun alias_of_fields :: "string list \<Rightarrow> command_alias" where
  "alias_of_fields (a # c # args) = \<lparr>al_Alias = a, al_Command = c, al_Args = args\<rparr>"
| "alias_of_fields _ = \<lparr>al_Alias = [], al_Command = [], al_Args = []\<rparr>"

fun token_of_fields :: "string list \<Rightarrow> api_token" where
  "token_of_fields [i, u, c, t, cr] =
     \<lparr>tok_TokenID = i, tok_UserLink = u, tok_ChannelLink = c, tok_Text = t, tok_CreatedOn = get_time cr\<rparr>"
| "token_of_fields _ =
     \<lparr>tok_TokenID = [], tok_UserLink = [], tok_ChannelLink = [], tok_Text = [], tok_CreatedOn = zero_time\<rparr>"

definition ref_codec :: codec where
  "ref_codec = \<lparr>
     job_Marshal = (\<lambda>j. Returns (put_fields [be_bytes 8 (unat (job_ID j)), put_request (job_Request j),
       put_time (job_StartTime j), put_time (job_EndTime j), job_Status j])),
     job_Unmarshal = get_with job_of_fields,
     alias_Marshal = (\<lambda>a. Returns (put_fields (al_Alias a # al_Command a # al_Args a))),
     alias_Unmarshal = get_with alias_of_fields,
     token_Marshal = (\<lambda>t. Returns (put_fields [tok_TokenID t, tok_UserLink t, tok_ChannelLink t,
       tok_Text t, put_time (tok_CreatedOn t)])),
     token_Unmarshal = get_with token_of_fields\<rparr>"

lemma ref_codec_job:
  "\<exists>p. job_Marshal ref_codec j = Returns p \<and> job_Unmarshal ref_codec p = (j, None)"
proof -
  have "be_value (be_bytes 8 (unat (job_ID j))) = unat (job_ID j)"
    using unat_u64_less [of "job_ID j"] by (intro be_value_be_bytes) simp
  then show ?thesis
    by (simp add: ref_codec_def get_with_def get_put_fields put_request_def del: put_fields.simps)
qed

interpretation ref_json: json_codec ref_codec
  by unfold_locales
    (simp_all add: ref_codec_job, simp_all add: ref_codec_def get_with_def get_put_fields del: put_fields.simps)

section \<open>Store and codec together\<close>

locale stores = bolt_api B view + json_codec C
  for B :: "'db bolt" and view :: "'db view" and C :: codec

locale reliable_stores = bolt_commits B view + json_codec C
  for B :: "'db bolt" and view :: "'db view" and C :: codec

sublocale reliable_stores \<subseteq> stores B view C
  by unfold_locales

interpretation ref_stores: reliable_stores ref_bolt ref_view ref_codec
  by unfold_locales

end
