(* ===== verification/Jobs.thy ===== *)
theory Jobs
  imports Db Codec
begin

text \<open>
  The job store (\<^verbatim>\<open>persistence/jobs/jobs.go\<close>): one bucket of jobs keyed by their identifier and
  one bucket of the identifiers still running. The definitions follow the transactions of the
  source; the lemmas show that they implement a finite map from identifiers to jobs
  (\<open>jobs_rel\<close>), which also fixes that the second bucket lists exactly the jobs in running state.
  \<open>now\<close> is what \<^verbatim>\<open>time.Now().UTC()\<close> returns.
\<close>

section \<open>The operations\<close>

definition jobsBucketKey :: string where "jobsBucketKey = ''jobs''"
definition runningJobsBucketKey :: string where "runningJobsBucketKey = ''running-jobs''"

definition jobs_null :: "time \<Rightarrow> request \<Rightarrow> job" where
  "jobs_null now req =
     zero_job\<lparr>job_ID := 0, job_Request := req, job_StartTime := now, job_Status := JobRunningStatus\<rparr>"

definition jobs_save :: "'db bolt \<Rightarrow> codec \<Rightarrow> job \<Rightarrow> string list \<Rightarrow> 'db \<Rightarrow> 'db result" where
  "jobs_save B C job bucket d =
     (case job_Marshal C job of
        Inl e \<Rightarrow> Fails e
      | Inr buffer \<Rightarrow> bucket_put B d bucket (IDToBytes (job_ID job)) buffer)"

definition jobs_create_tx :: "'db bolt \<Rightarrow> codec \<Rightarrow> time \<Rightarrow> request \<Rightarrow> 'db \<Rightarrow> (job \<times> 'db) result" where
  "jobs_create_tx B C now req d =
     (case NextSequenceFor B jobsBucketKey d of
        Inl e \<Rightarrow> Fails (wrap_err (''could not get next sequence for '' @ jobsBucketKey @ '': '') e)
      | Inr (jobID, d1) \<Rightarrow>
          (let job = zero_job\<lparr>job_ID := jobID, job_Request := req, job_StartTime := now,
                 job_Status := JobRunningStatus\<rparr>
           in case create_bucket B d1 [] runningJobsBucketKey of
                Inl e \<Rightarrow> Fails (wrap_err ''could not create running jobs bucket: '' e)
              | Inr d2 \<Rightarrow>
                  (case bucket_put B d2 [runningJobsBucketKey] (IDToBytes (job_ID job)) JobRunningStatus of
                     Inl e \<Rightarrow> Fails (wrap_err (''could not save running job ID '' @ show_u64 jobID @ '': '') e)
                   | Inr d3 \<Rightarrow>
                       (case jobs_save B C job [jobsBucketKey] d3 of
                          Inl e \<Rightarrow> Fails e
                        | Inr d4 \<Rightarrow> Returns (job, d4)))))"

definition jobs_create :: "'db bolt \<Rightarrow> codec \<Rightarrow> time \<Rightarrow> request \<Rightarrow> 'db db_state \<Rightarrow> job result \<times> 'db db_state" where
  "jobs_create B C now req s =
     (case Update B (jobs_create_tx B C now req) s of
        (Inl e, s') \<Rightarrow> (Fails (wrap_err ''failed to create a job '' e), s')
      | (Inr job, s') \<Rightarrow> (Returns job, s'))"

definition jobs_get :: "'db bolt \<Rightarrow> codec \<Rightarrow> u64 \<Rightarrow> 'db db_state \<Rightarrow> job result" where
  "jobs_get B C ID s =
     View B (\<lambda>d.
       if \<not> bucket_exists B d [jobsBucketKey] then Fails ErrNoJobWithID
       else case bucket_get B d [jobsBucketKey] (IDToBytes ID) of
         None \<Rightarrow> Fails ErrNoJobWithID
       | Some payload \<Rightarrow>
           (case job_Unmarshal C payload of
              (job, None) \<Rightarrow> Returns job
            | (job, Some e) \<Rightarrow> Fails e)) s"

text \<open>
  \<open>finish\<close> reads the job in a transaction of its own, which sees the committed contents, here those
  before this update. A missing bucket of running jobs would be a nil handle.
\<close>

definition jobs_finish :: "'db bolt \<Rightarrow> codec \<Rightarrow> time \<Rightarrow> u64 \<Rightarrow> string \<Rightarrow> 'db db_state \<Rightarrow>
    unit result \<times> 'db db_state" where
  "jobs_finish B C now jobID status s =
     (if \<not> (status = JobSuccessStatus \<or> status = JobFailedStatus)
      then (Fails (Errorf (''invalid status '' @ status)), s)
      else Update B (\<lambda>d.
        case jobs_get B C jobID s of
          Inl e \<Rightarrow> Fails (wrap_err (''could not get job with id '' @ show_u64 jobID @ '': '') e)
        | Inr job \<Rightarrow>
            if job_Status job \<noteq> JobRunningStatus
            then Fails (Errorf (''job is not in running status but '' @ job_Status job))
            else if \<not> bucket_exists B d [runningJobsBucketKey] then Fails nil_dereference
            else case bucket_delete B d [runningJobsBucketKey] (IDToBytes jobID) of
              Inl e \<Rightarrow> Fails (wrap_err (''could not remove job '' @ show_u64 jobID @ '' from running list: '') e)
            | Inr d1 \<Rightarrow>
                (case jobs_save B C (job\<lparr>job_EndTime := now, job_Status := status\<rparr>) [jobsBucketKey] d1 of
                   Inl e \<Rightarrow> Fails e
                 | Inr d2 \<Rightarrow> Returns ((), d2))) s)"

definition jobs_Fail :: "'db bolt \<Rightarrow> codec \<Rightarrow> time \<Rightarrow> u64 \<Rightarrow> 'db db_state \<Rightarrow> unit result \<times> 'db db_state" where
  "jobs_Fail B C now jobID = jobs_finish B C now jobID JobFailedStatus"

definition jobs_Succeed :: "'db bolt \<Rightarrow> codec \<Rightarrow> time \<Rightarrow> u64 \<Rightarrow> 'db db_state \<Rightarrow> unit result \<times> 'db db_state" where
  "jobs_Succeed B C now jobID = jobs_finish B C now jobID JobSuccessStatus"

text \<open>The loop of \<open>find\<close> over the pairs the cursor gives from the last one backwards.\<close>

fun jobs_find_loop :: "codec \<Rightarrow> (job \<Rightarrow> bool) \<Rightarrow> int \<Rightarrow> job list \<Rightarrow> (string \<times> string option) list \<Rightarrow>
    job list result" where
  "jobs_find_loop C matcher limit latest [] = Returns latest"
| "jobs_find_loop C matcher limit latest ((k, payload) # rest) =
     (if int (length latest) < limit then
        (case payload of
           None \<Rightarrow> Returns latest
         | Some p \<Rightarrow>
             (case job_Unmarshal C p of
                (job, Some e) \<Rightarrow> Fails (wrap_err ''failed to load Job payload '' e)
              | (job, None) \<Rightarrow>
                  jobs_find_loop C matcher limit (if matcher job then latest @ [job] else latest) rest))
      else Returns latest)"

definition jobs_find :: "'db bolt \<Rightarrow> codec \<Rightarrow> job_filter \<Rightarrow> 'db db_state \<Rightarrow> job list result" where
  "jobs_find B C filt s =
     (let matcher = (case jf_Match filt of None \<Rightarrow> (\<lambda>job. True) | Some m \<Rightarrow> m)
      in View B (\<lambda>d.
           if \<not> bucket_exists B d [jobsBucketKey] then Returns []
           else jobs_find_loop C matcher (jf_Limit filt) [] (rev (bucket_cursor B d [jobsBucketKey]))) s)"

text \<open>
  \<open>failRunningJobs\<close> walks the running bucket with a cursor while it deletes from it; the model walks
  the pairs the cursor had at the start. \<open>now\<close> gives the time of each iteration by the job's
  identifier. \<^verbatim>\<open>json.Unmarshal\<close> of a missing payload (nil) is that of the empty string.
\<close>

fun fail_running_loop :: "'db bolt \<Rightarrow> codec \<Rightarrow> (u64 \<Rightarrow> time) \<Rightarrow> (string \<times> string option) list \<Rightarrow> 'db \<Rightarrow>
    (unit \<times> 'db) result" where
  "fail_running_loop B C now [] d = Returns ((), d)"
| "fail_running_loop B C now ((jobIDKey, v) # rest) d =
     (case IDFromBytes jobIDKey of
        Panic m \<Rightarrow> Fails (Panicking m)
      | Ret jobID \<Rightarrow>
          (case job_Unmarshal C (case bucket_get B d [jobsBucketKey] jobIDKey of None \<Rightarrow> [] | Some p \<Rightarrow> p) of
             (j, Some e) \<Rightarrow> Fails (wrap_err (''could not read job '' @ show_u64 jobID @ '' from bucket: '') e)
           | (j, None) \<Rightarrow>
               (case jobs_save B C (j\<lparr>job_Status := JobKilledStatus, job_EndTime := now jobID\<rparr>)
                       [jobsBucketKey] d of
                  Inl e \<Rightarrow> Fails (wrap_err (''could not save killed job '' @ show_u64 jobID @ '': '') e)
                | Inr d1 \<Rightarrow>
                    (case bucket_delete B d1 [runningJobsBucketKey] jobIDKey of
                       Inl e \<Rightarrow> Fails (wrap_err (''could not delete running job '' @ show_u64 jobID @ '': '') e)
                     | Inr d2 \<Rightarrow> fail_running_loop B C now rest d2))))"

definition jobs_failRunning :: "'db bolt \<Rightarrow> codec \<Rightarrow> (u64 \<Rightarrow> time) \<Rightarrow> 'db db_state \<Rightarrow>
    unit result \<times> 'db db_state" where
  "jobs_failRunning B C now s =
     Update B (\<lambda>d.
       if \<not> bucket_exists B d [runningJobsBucketKey] then Returns ((), d)
       else if \<not> bucket_exists B d [jobsBucketKey] then Returns ((), d)
       else fail_running_loop B C now (bucket_cursor B d [runningJobsBucketKey]) d) s"

lemmas jobs_keys = jobsBucketKey_def runningJobsBucketKey_def

section \<open>The stores as maps\<close>

type_synonym buckets = "string list \<Rightarrow> bucket option"
type_synonym job_map = "u64 \<Rightarrow> job option"

definition bucket_at :: "buckets \<Rightarrow> string \<Rightarrow> bucket" where
  "bucket_at V k = (case V [k] of Some b \<Rightarrow> b | None \<Rightarrow> empty_bucket)"

definition job_entry :: "codec \<Rightarrow> entry option \<Rightarrow> job option \<Rightarrow> bool" where
  "job_entry C e j \<longleftrightarrow>
     (e = None \<and> j = None) \<or> (\<exists>p x. e = Some (Val p) \<and> j = Some x \<and> job_Unmarshal C p = (x, None))"

definition job_part :: "codec \<Rightarrow> buckets \<Rightarrow> job_map \<Rightarrow> bool" where
  "job_part C V J \<longleftrightarrow>
     fmdom' (items (bucket_at V jobsBucketKey)) = IDToBytes ` dom J \<and>
     (\<forall>i. job_entry C (fmlookup (items (bucket_at V jobsBucketKey)) (IDToBytes i)) (J i)) \<and>
     (\<forall>i j. J i = Some j \<longrightarrow> job_ID j = i \<and> json_job j \<and> 0 < i \<and> i \<le> seqno (bucket_at V jobsBucketKey))"

definition run_part :: "buckets \<Rightarrow> u64 set \<Rightarrow> bool" where
  "run_part V R \<longleftrightarrow>
     fmdom' (items (bucket_at V runningJobsBucketKey)) = IDToBytes ` R \<and>
     (\<forall>k. fmlookup (items (bucket_at V runningJobsBucketKey)) k \<noteq> Some Sub)"

definition running :: "job_map \<Rightarrow> u64 set" where
  "running J = {i. \<exists>j. J i = Some j \<and> job_Status j = JobRunningStatus}"

definition jobs_rel :: "codec \<Rightarrow> buckets \<Rightarrow> job_map \<Rightarrow> bool" where
  "jobs_rel C V J \<longleftrightarrow> job_part C V J \<and> run_part V (running J) \<and>
     (V [jobsBucketKey] \<noteq> None \<longrightarrow> V [runningJobsBucketKey] \<noteq> None)"

text \<open>The identifier the next job gets.\<close>

definition next_job_id :: "buckets \<Rightarrow> u64" where
  "next_job_id V = seqno (bucket_at V jobsBucketKey) + 1"

text \<open>What the jobs do not touch: every bucket but the root and their two.\<close>

definition jobs_frame :: "buckets \<Rightarrow> buckets \<Rightarrow> bool" where
  "jobs_frame V V' \<longleftrightarrow>
     (\<forall>p. p \<noteq> [] \<longrightarrow> p \<noteq> [jobsBucketKey] \<longrightarrow> p \<noteq> [runningJobsBucketKey] \<longrightarrow> V' p = V p)"

lemma job_entry_simps [simp]:
  "job_entry C None j \<longleftrightarrow> j = None"
  "job_entry C (Some (Val p)) j \<longleftrightarrow> (\<exists>x. j = Some x \<and> job_Unmarshal C p = (x, None))"
  "\<not> job_entry C (Some Sub) j"
  by (auto simp: job_entry_def)

lemma bucket_at_Some [simp]: "V [k] = Some b \<Longrightarrow> bucket_at V k = b"
  by (simp add: bucket_at_def)

lemma jobs_keys_distinct [simp]: "jobsBucketKey \<noteq> runningJobsBucketKey" "runningJobsBucketKey \<noteq> jobsBucketKey"
  by (simp_all add: jobs_keys)

lemma finite_dom_jobs: "job_part C V J \<Longrightarrow> finite (dom J)"
proof -
  assume "job_part C V J"
  then have "IDToBytes ` dom J = fmdom' (items (bucket_at V jobsBucketKey))" by (simp add: job_part_def)
  then have "finite (IDToBytes ` dom J)" by simp
  then show ?thesis by (rule finite_imageD) (simp add: inj_on_def)
qed

lemma job_part_put:
  assumes "job_part C V J" and "V [jobsBucketKey] = Some b"
    and "job_Unmarshal C p = (j, None)" and "job_ID j = i" and "json_job j" and "0 < i" and "i \<le> seqno b"
    and "V' [jobsBucketKey] = Some (b\<lparr>items := fmupd (IDToBytes i) (Val p) (items b)\<rparr>)"
  shows "job_part C V' (J(i \<mapsto> j))"
  using assms by (auto simp: job_part_def)

lemma run_part_cong: "V' [runningJobsBucketKey] = V [runningJobsBucketKey] \<Longrightarrow> run_part V' R = run_part V R"
  by (simp add: run_part_def bucket_at_def)

lemma job_part_cong: "V' [jobsBucketKey] = V [jobsBucketKey] \<Longrightarrow> job_part C V' J = job_part C V J"
  by (simp add: job_part_def bucket_at_def)

lemma run_part_put:
  assumes "run_part V R" and "V' [runningJobsBucketKey] =
      Some ((bucket_at V runningJobsBucketKey)\<lparr>items := fmupd (IDToBytes i) (Val v) (items (bucket_at V runningJobsBucketKey))\<rparr>)"
  shows "run_part V' (insert i R)"
  using assms by (auto simp: run_part_def)

lemma run_part_drop:
  assumes "run_part V R" and "V' [runningJobsBucketKey] =
      Some ((bucket_at V runningJobsBucketKey)\<lparr>items := fmdrop (IDToBytes i) (items (bucket_at V runningJobsBucketKey))\<rparr>)"
  shows "run_part V' (R - {i})"
  using assms by (auto simp: run_part_def)

lemma running_upd:
  "running (J(i \<mapsto> j)) = (if job_Status j = JobRunningStatus then insert i (running J) else running J - {i})"
  by (auto simp: running_def)

section \<open>The operations on the maps\<close>

context stores
begin

lemma jobs_save_view:
  assumes "jobs_save B C j [k] d = Returns d'" and "view d [k] = Some b" and "json_job j"
  shows "\<exists>p. job_Unmarshal C p = (j, None) \<and>
    view d' = (view d)([k] \<mapsto> b\<lparr>items := fmupd (IDToBytes (job_ID j)) (Val p) (items b)\<rparr>)"
proof -
  from assms(3) obtain p where p: "job_Marshal C j = Returns p" "job_Unmarshal C p = (j, None)"
    using job_roundtrip by blast
  with assms(1) have "bucket_put B d [k] (IDToBytes (job_ID j)) p = Returns d'"
    by (simp add: jobs_save_def)
  from put_view [OF assms(2) this] p(2) show ?thesis by blast
qed

lemma jobs_create_tx_rel:
  assumes rel: "jobs_rel C (view d) J" and tx: "jobs_create_tx B C now req d = Returns (j, d')"
    and req: "json_request req" and now: "json_time now"
    and room: "next_job_id (view d) \<noteq> 0"
  shows "j = (jobs_null now req)\<lparr>job_ID := next_job_id (view d)\<rparr>"
    and "J (job_ID j) = None" and "\<forall>i \<in> dom J. i < job_ID j"
    and "jobs_rel C (view d') (J(job_ID j \<mapsto> j))" and "jobs_frame (view d) (view d')"
    and "next_job_id (view d') = job_ID j + 1"
proof -
  define b where "b = bucket_at (view d) jobsBucketKey"
  from tx obtain n d1 d2 d3 where n: "NextSequenceFor B jobsBucketKey d = Returns (n, d1)"
    and d2: "create_bucket B d1 [] runningJobsBucketKey = Returns d2"
    and d3: "bucket_put B d2 [runningJobsBucketKey] (IDToBytes n) JobRunningStatus = Returns d3"
    and j: "j = zero_job\<lparr>job_ID := n, job_Request := req, job_StartTime := now, job_Status := JobRunningStatus\<rparr>"
    and d4: "jobs_save B C j [jobsBucketKey] d3 = Returns d'"
    by (auto simp: jobs_create_tx_def Let_def split: sum.splits prod.splits)
  from NextSequenceFor_view [OF n] have nb: "n = seqno b + 1"
    and v1: "view d1 [jobsBucketKey] = Some (b\<lparr>seqno := n\<rparr>)"
    and o1: "\<And>p. p \<noteq> [] \<Longrightarrow> p \<noteq> [jobsBucketKey] \<Longrightarrow> view d1 p = view d p"
    by (auto simp: b_def bucket_at_def)
  define r where "r = bucket_at (view d) runningJobsBucketKey"
  from create_root [OF d2] o1
  have v2: "view d2 [runningJobsBucketKey] = Some r" "view d2 [jobsBucketKey] = Some (b\<lparr>seqno := n\<rparr>)"
    and o2: "\<And>p. p \<noteq> [] \<Longrightarrow> p \<noteq> [jobsBucketKey] \<Longrightarrow> p \<noteq> [runningJobsBucketKey] \<Longrightarrow> view d2 p = view d p"
    by (auto simp: r_def bucket_at_def v1)
  from put_view [OF v2(1) d3]
  have v3: "view d3 = (view d2)([runningJobsBucketKey] \<mapsto>
      r\<lparr>items := fmupd (IDToBytes n) (Val JobRunningStatus) (items r)\<rparr>)" .
  have json: "json_job j"
    using req now by (simp add: j json_job_def zero_job_def json_time_def zero_time_def job_status_defs
        valid_utf8_ascii)
  have "view d3 [jobsBucketKey] = Some (b\<lparr>seqno := n\<rparr>)" by (simp add: v3 v2)
  from jobs_save_view [OF d4 this json] obtain p where p: "job_Unmarshal C p = (j, None)"
    and v4: "view d' = (view d3)([jobsBucketKey] \<mapsto>
        b\<lparr>seqno := n, items := fmupd (IDToBytes n) (Val p) (items b)\<rparr>)"
    by (auto simp: j)
  have ID: "job_ID j = n" and status: "job_Status j = JobRunningStatus" by (simp_all add: j)
  have next_id: "next_job_id (view d) = n" by (simp add: next_job_id_def nb b_def)
  show "j = (jobs_null now req)\<lparr>job_ID := next_job_id (view d)\<rparr>"
    by (simp add: j jobs_null_def next_id)
  have lt: "seqno b < n"
    using room by (simp add: nb next_job_id_def b_def u64_less_plus_1)
  have jp: "job_part C (view d) J" and rp: "run_part (view d) (running J)"
    using rel by (simp_all add: jobs_rel_def)
  have below: "\<forall>i \<in> dom J. i < n"
    using jp lt by (force simp: job_part_def b_def [symmetric])
  then show fresh: "J (job_ID j) = None" and "\<forall>i \<in> dom J. i < job_ID j"
    by (auto simp: ID)
  show "jobs_frame (view d) (view d')"
    by (auto simp: jobs_frame_def v4 v3 o2)
  show "next_job_id (view d') = job_ID j + 1"
    by (simp add: next_job_id_def v4 ID)
  have "job_part C (view d1) J"
    using jp lt v1 by (force simp: job_part_def b_def [symmetric])
  then have "job_part C (view d3) J"
    using job_part_cong [of "view d3" "view d1"] by (simp add: v3 v2 v1)
  then have "job_part C (view d') (J(n \<mapsto> j))"
    by (rule job_part_put [OF _ _ p ID json]) (use lt in \<open>auto simp: v4 v3 v2 intro: le_less_trans [OF word_zero_le]\<close>)
  moreover have "run_part (view d') (insert n (running J))"
    using rp by (rule run_part_put) (simp add: v4 v3 r_def [symmetric])
  ultimately show "jobs_rel C (view d') (J(job_ID j \<mapsto> j))"
    by (simp add: jobs_rel_def ID running_upd status v4 v3)
qed

lemma jobs_get_rel:
  assumes "jobs_rel C (view d) J" and "database s = Open d"
  shows "jobs_get B C i s = (case J i of None \<Rightarrow> Fails ErrNoJobWithID | Some j \<Rightarrow> Returns j)"
proof (cases "view d [jobsBucketKey]")
  case None
  with assms(1) have "J i = None"
    by (auto simp: jobs_rel_def job_part_def bucket_at_def empty_bucket_def)
  with None assms(2) show ?thesis by (simp add: jobs_get_def View_open exists_view)
next
  case (Some b)
  with assms(1) have "job_entry C (fmlookup (items b) (IDToBytes i)) (J i)"
    by (simp add: jobs_rel_def job_part_def)
  then show ?thesis
    using Some assms(2)
    by (auto simp: jobs_get_def View_open exists_view get_view job_entry_def)
qed

lemma jobs_get_notfound: "database s = Open d \<Longrightarrow> jobs_rel C (view d) J \<Longrightarrow> J i = None \<Longrightarrow>
    jobs_get B C i s = Fails ErrNoJobWithID"
  by (simp add: jobs_get_rel)

text \<open>Replacing a stored job by one with the same identifier that no longer runs.\<close>

lemma jobs_end_rel:
  assumes rel: "jobs_rel C V J" and J: "J i = Some j"
    and j': "job_ID j' = i" "json_job j'" "job_Status j' \<noteq> JobRunningStatus"
    and b: "V [jobsBucketKey] = Some b" and r: "V [runningJobsBucketKey] = Some r"
    and p: "job_Unmarshal C p = (j', None)"
    and V': "V' = V([jobsBucketKey] \<mapsto> b\<lparr>items := fmupd (IDToBytes i) (Val p) (items b)\<rparr>,
      [runningJobsBucketKey] \<mapsto> r\<lparr>items := fmdrop (IDToBytes i) (items r)\<rparr>)"
  shows "jobs_rel C V' (J(i \<mapsto> j')) \<and> jobs_frame V V' \<and> next_job_id V' = next_job_id V"
proof -
  have jp: "job_part C V J" and rp: "run_part V (running J)"
    using rel by (simp_all add: jobs_rel_def)
  have i: "0 < i" "i \<le> seqno b" using jp J b by (auto simp: job_part_def)
  have "job_part C V' (J(i \<mapsto> j'))"
    by (rule job_part_put [OF jp b p j'(1,2) i]) (simp add: V')
  moreover have "run_part V' (running J - {i})"
    using rp by (rule run_part_drop) (simp add: V' r)
  moreover have "jobs_frame V V'" by (simp add: jobs_frame_def V')
  moreover have "next_job_id V' = next_job_id V" by (simp add: next_job_id_def V' b)
  ultimately show ?thesis
    using j'(3) by (simp add: jobs_rel_def running_upd V')
qed

lemma jobs_rel_buckets:
  assumes "jobs_rel C V J" and "J i = Some j"
  obtains b r p where "V [jobsBucketKey] = Some b" "V [runningJobsBucketKey] = Some r"
    "fmlookup (items b) (IDToBytes i) = Some (Val p)" "job_Unmarshal C p = (j, None)"
proof -
  have e: "job_entry C (fmlookup (items (bucket_at V jobsBucketKey)) (IDToBytes i)) (Some j)"
    using assms by (metis job_part_def jobs_rel_def)
  then obtain b where b: "V [jobsBucketKey] = Some b"
    by (cases "V [jobsBucketKey]") (auto simp: bucket_at_def empty_bucket_def)
  with assms(1) obtain r where "V [runningJobsBucketKey] = Some r" by (auto simp: jobs_rel_def)
  with e b that show thesis by (auto simp: job_entry_def)
qed

lemma jobs_finish_rel:
  assumes rel: "jobs_rel C (view d) J" and s: "database s = Open d" and now: "json_time now"
    and fin: "jobs_finish B C now i status s = (Returns u, s')"
  shows "\<exists>j d'. J i = Some j \<and> job_Status j = JobRunningStatus \<and> status \<in> {JobSuccessStatus, JobFailedStatus} \<and>
    s' = s\<lparr>database := Open d'\<rparr> \<and>
    jobs_rel C (view d') (J(i \<mapsto> j\<lparr>job_EndTime := now, job_Status := status\<rparr>)) \<and>
    jobs_frame (view d) (view d') \<and> next_job_id (view d') = next_job_id (view d)"
proof -
  have st: "status \<in> {JobSuccessStatus, JobFailedStatus}"
    using fin by (auto simp: jobs_finish_def split: if_splits)
  with fin s obtain j d1 d' where get: "jobs_get B C i s = Returns j" and run: "job_Status j = JobRunningStatus"
    and d1: "bucket_delete B d [runningJobsBucketKey] (IDToBytes i) = Returns d1"
    and d2: "jobs_save B C (j\<lparr>job_EndTime := now, job_Status := status\<rparr>) [jobsBucketKey] d1 = Returns d'"
    and s': "s' = s\<lparr>database := Open d'\<rparr>"
    by (auto simp: jobs_finish_def Update_open split: if_splits sum.splits option.splits)
  from get have Ji: "J i = Some j" by (simp add: jobs_get_rel [OF rel s] split: option.splits)
  with rel have j: "job_ID j = i" "json_job j" by (auto simp: jobs_rel_def job_part_def)
  let ?j = "j\<lparr>job_EndTime := now, job_Status := status\<rparr>"
  have j': "job_ID ?j = i" "json_job ?j" "job_Status ?j \<noteq> JobRunningStatus"
    using j now st by (auto simp: json_job_def job_status_defs valid_utf8_ascii)
  obtain b r where b: "view d [jobsBucketKey] = Some b" and r: "view d [runningJobsBucketKey] = Some r"
    using jobs_rel_buckets [OF rel Ji] by blast
  note v1 = delete_view [OF r d1]
  obtain p where p: "job_Unmarshal C p = (?j, None)"
    and v2: "view d' = (view d1)([jobsBucketKey] \<mapsto> b\<lparr>items := fmupd (IDToBytes i) (Val p) (items b)\<rparr>)"
    using jobs_save_view [OF d2 _ j'(2), of b] b j(1) by (auto simp: v1)
  have "view d' = (view d)([jobsBucketKey] \<mapsto> b\<lparr>items := fmupd (IDToBytes i) (Val p) (items b)\<rparr>,
      [runningJobsBucketKey] \<mapsto> r\<lparr>items := fmdrop (IDToBytes i) (items r)\<rparr>)"
    by (auto simp: v2 v1)
  from jobs_end_rel [OF rel Ji j' b r p this] Ji run st s' show ?thesis by blast
qed

text \<open>What makes \<open>finish\<close> fail, and what it leaves behind.\<close>

lemma jobs_finish_fails:
  assumes "jobs_finish B C now i status s = (Fails e, s')"
  shows "s' = s"
  using assms by (auto simp: jobs_finish_def split: if_splits dest: Update_fails)

lemma jobs_finish_rejected:
  assumes rel: "jobs_rel C (view d) J" and s: "database s = Open d"
    and "i \<notin> running J"
  shows "\<exists>e. jobs_finish B C now i status s = (Fails e, s)"
  using assms(3)
  by (cases "J i") (auto simp: jobs_finish_def Update_open [OF s] jobs_get_rel [OF rel s] running_def)

text \<open>The entries of the job bucket, in the order of the identifiers.\<close>

lemma jobs_cursor_rel:
  assumes "jobs_rel C (view d) J" and "view d [jobsBucketKey] = Some b"
  shows "bucket_cursor B d [jobsBucketKey] =
    map (\<lambda>i. (IDToBytes i, entry_value (fmlookup (items b) (IDToBytes i)))) (sorted_list_of_set (dom J))"
proof -
  have jp: "job_part C (view d) J" using assms(1) by (simp add: jobs_rel_def)
  then have "sorted_keys b = map IDToBytes (sorted_list_of_set (dom J))"
    using assms(2) finite_dom_jobs [OF jp] strict_mono_IDToBytes
    by (intro sorted_keys_image) (simp_all add: job_part_def)
  with cursor_view [OF assms(2)] show ?thesis by (simp add: sorted_entries_def)
qed

end

text \<open>The jobs from the newest to the oldest.\<close>

definition jobs_newest_first :: "job_map \<Rightarrow> job list" where
  "jobs_newest_first J = map (\<lambda>i. the (J i)) (rev (sorted_list_of_set (dom J)))"

text \<open>Killing the jobs of a list of running identifiers, one after the other.\<close>

definition kill_all :: "(u64 \<Rightarrow> time) \<Rightarrow> u64 set \<Rightarrow> job_map \<Rightarrow> job_map" where
  "kill_all now R J = (\<lambda>i. if i \<in> R
     then map_option (\<lambda>j. j\<lparr>job_Status := JobKilledStatus, job_EndTime := now i\<rparr>) (J i) else J i)"

lemma kill_all_insert:
  "i \<notin> R \<Longrightarrow> J i = Some j \<Longrightarrow>
   kill_all now R (J(i \<mapsto> j\<lparr>job_Status := JobKilledStatus, job_EndTime := now i\<rparr>)) = kill_all now (insert i R) J"
  by (auto simp: kill_all_def)

lemma running_kill_all: "running (kill_all now R J) = running J - R"
  by (auto simp: running_def kill_all_def)

lemma jobs_find_loop_eq:
  assumes "\<forall>i \<in> set ids. \<exists>j. J i = Some j \<and> job_entry C (f i) (Some j)"
  shows "jobs_find_loop C m limit latest (map (\<lambda>i. (IDToBytes i, entry_value (f i))) ids) =
    Returns (latest @ take_int (limit - int (length latest)) (filter m (map (\<lambda>i. the (J i)) ids)))"
  using assms
proof (induction ids arbitrary: latest)
  case (Cons i ids)
  then obtain j p where j: "J i = Some j" "f i = Some (Val p)" "job_Unmarshal C p = (j, None)"
    by (auto simp: job_entry_def)
  have IH: "jobs_find_loop C m limit l (map (\<lambda>i. (IDToBytes i, entry_value (f i))) ids) =
    Returns (l @ take_int (limit - int (length l)) (filter m (map (\<lambda>i. the (J i)) ids)))" for l
    using Cons by simp
  show ?case
  proof (cases "int (length latest) < limit")
    case True
    then have "take_int (limit - int (length latest)) (j # xs) =
        j # take_int (limit - int (length (latest @ [j]))) xs" for xs
      by (simp add: take_int_Cons algebra_simps)
    with True j IH show ?thesis by simp
  next
    case False
    then show ?thesis by simp
  qed
qed simp

context stores
begin

lemma jobs_find_rel:
  assumes rel: "jobs_rel C (view d) J" and s: "database s = Open d"
  shows "jobs_find B C filt s =
    Returns (take_int (jf_Limit filt)
      (filter (case jf_Match filt of None \<Rightarrow> (\<lambda>_. True) | Some m \<Rightarrow> m) (jobs_newest_first J)))"
proof -
  let ?m = "case jf_Match filt of None \<Rightarrow> (\<lambda>_. True) | Some m \<Rightarrow> m"
  have jp: "job_part C (view d) J" using rel by (simp add: jobs_rel_def)
  show ?thesis
  proof (cases "view d [jobsBucketKey]")
    case None
    with jp have "dom J = {}"
      by (auto simp: job_part_def bucket_at_def empty_bucket_def)
    with None s show ?thesis
      by (simp add: jobs_find_def View_open exists_view jobs_newest_first_def)
  next
    case (Some b)
    let ?ids = "rev (sorted_list_of_set (dom J))"
    have "\<forall>i \<in> set ?ids. \<exists>j. J i = Some j \<and> job_entry C (fmlookup (items b) (IDToBytes i)) (Some j)"
    proof
      fix i assume "i \<in> set ?ids"
      then obtain j where j: "J i = Some j" using finite_dom_jobs [OF jp] by auto
      moreover have "job_entry C (fmlookup (items b) (IDToBytes i)) (J i)"
        using jp Some by (simp add: job_part_def)
      ultimately show "\<exists>j. J i = Some j \<and> job_entry C (fmlookup (items b) (IDToBytes i)) (Some j)"
        by auto
    qed
    from jobs_find_loop_eq [OF this, of ?m "jf_Limit filt" "[]"]
    show ?thesis
      using s Some
      by (simp add: jobs_find_def View_open exists_view jobs_cursor_rel [OF rel Some] rev_map
          jobs_newest_first_def)
  qed
qed

lemma fail_running_loop_rel:
  assumes "jobs_rel C (view d) J" and "\<forall>i. json_time (now i)" and "set ids \<subseteq> running J" and "distinct ids"
    and "fail_running_loop B C now (map (\<lambda>i. (IDToBytes i, v i)) ids) d = Returns (u, d')"
  shows "jobs_rel C (view d') (kill_all now (set ids) J) \<and> jobs_frame (view d) (view d') \<and>
    next_job_id (view d') = next_job_id (view d)"
  using assms
proof (induction ids arbitrary: d J)
  case Nil
  then show ?case by (simp add: kill_all_def jobs_frame_def)
next
  case (Cons i ids)
  from Cons.prems(3) obtain j where j: "J i = Some j" "job_Status j = JobRunningStatus"
    by (auto simp: running_def)
  obtain b r p where b: "view d [jobsBucketKey] = Some b" and r: "view d [runningJobsBucketKey] = Some r"
    and p: "fmlookup (items b) (IDToBytes i) = Some (Val p)" "job_Unmarshal C p = (j, None)"
    using jobs_rel_buckets [OF Cons.prems(1) j(1)] by blast
  let ?j = "j\<lparr>job_Status := JobKilledStatus, job_EndTime := now i\<rparr>"
  have j': "job_ID ?j = i" "json_job ?j" "job_Status ?j \<noteq> JobRunningStatus"
    using Cons.prems(1,2) j(1)
    by (auto simp: jobs_rel_def job_part_def json_job_def job_status_defs valid_utf8_ascii)
  from Cons.prems(5) p b obtain d1 d2 where
    d1: "jobs_save B C ?j [jobsBucketKey] d = Returns d1"
    and d2: "bucket_delete B d1 [runningJobsBucketKey] (IDToBytes i) = Returns d2"
    and rest: "fail_running_loop B C now (map (\<lambda>i. (IDToBytes i, v i)) ids) d2 = Returns (u, d')"
    by (auto simp: get_view [OF b] split: sum.splits)
  obtain q where q: "job_Unmarshal C q = (?j, None)"
    and v1: "view d1 = (view d)([jobsBucketKey] \<mapsto> b\<lparr>items := fmupd (IDToBytes i) (Val q) (items b)\<rparr>)"
    using jobs_save_view [OF d1 b j'(2)] j'(1) by auto
  have "view d1 [runningJobsBucketKey] = Some r" by (simp add: v1 r)
  note v2 = delete_view [OF this d2]
  have step: "jobs_rel C (view d2) (J(i \<mapsto> ?j)) \<and> jobs_frame (view d) (view d2) \<and>
      next_job_id (view d2) = next_job_id (view d)"
    by (rule jobs_end_rel [OF Cons.prems(1) j(1) j' b r q]) (simp add: v2 v1)
  have "set ids \<subseteq> running (J(i \<mapsto> ?j))" and "distinct ids"
    using Cons.prems(3,4) by (auto simp: running_upd)
  from Cons.IH [OF conjunct1 [OF step] Cons.prems(2) this rest]
  have "jobs_rel C (view d') (kill_all now (set ids) (J(i \<mapsto> ?j))) \<and> jobs_frame (view d2) (view d') \<and>
      next_job_id (view d') = next_job_id (view d2)" .
  moreover have "kill_all now (set ids) (J(i \<mapsto> ?j)) = kill_all now (set (i # ids)) J"
    using kill_all_insert [of i "set ids" J j now] j(1) Cons.prems(4) by simp
  ultimately show ?case
    using step by (simp add: jobs_frame_def)
qed

lemma jobs_failRunning_rel:
  assumes rel: "jobs_rel C (view d) J" and s: "database s = Open d" and now: "\<forall>i. json_time (now i)"
    and res: "jobs_failRunning B C now s = (Returns u, s')"
  shows "\<exists>d'. s' = s\<lparr>database := Open d'\<rparr> \<and> jobs_rel C (view d') (kill_all now (running J) J) \<and>
    jobs_frame (view d) (view d') \<and> next_job_id (view d') = next_job_id (view d)"
proof (cases "view d [jobsBucketKey]")
  case None
  then have "J = Map.empty"
    using rel by (auto simp: jobs_rel_def job_part_def bucket_at_def empty_bucket_def)
  then have "kill_all now (running J) J = J" by (auto simp: kill_all_def)
  with None rel s res show ?thesis
    by (auto simp: jobs_failRunning_def Update_open exists_view jobs_frame_def split: if_splits option.splits)
next
  case (Some b)
  with rel obtain r where r: "view d [runningJobsBucketKey] = Some r" by (auto simp: jobs_rel_def)
  let ?ids = "sorted_list_of_set (running J)"
  have "running J \<subseteq> dom J" by (auto simp: running_def)
  with rel have fin: "finite (running J)"
    using finite_dom_jobs finite_subset by (auto simp: jobs_rel_def)
  with rel r have "sorted_keys r = map IDToBytes ?ids"
    by (intro sorted_keys_image) (auto simp: jobs_rel_def run_part_def strict_mono_IDToBytes)
  then have cur: "bucket_cursor B d [runningJobsBucketKey] =
      map (\<lambda>i. (IDToBytes i, entry_value (fmlookup (items r) (IDToBytes i)))) ?ids"
    using cursor_view [OF r] by (simp add: sorted_entries_def)
  from res s Some r obtain d' where loop:
    "fail_running_loop B C now (bucket_cursor B d [runningJobsBucketKey]) d = Returns (u, d')"
    and s': "s' = s\<lparr>database := Open d'\<rparr>"
    by (auto simp: jobs_failRunning_def Update_open exists_view split: sum.splits option.splits)
  have "view d [jobsBucketKey] \<noteq> None" "set ?ids \<subseteq> running J" "distinct ?ids" using Some fin by simp_all
  from fail_running_loop_rel [OF rel now this(2,3) loop [unfolded cur]] fin s'
  show ?thesis by auto
qed

end

section \<open>Success\<close>

lemma jobs_rel_empty:
  "V [jobsBucketKey] = None \<Longrightarrow> V [runningJobsBucketKey] = None \<Longrightarrow> jobs_rel C V Map.empty"
  by (auto simp: jobs_rel_def job_part_def run_part_def bucket_at_def empty_bucket_def running_def)

lemma jobs_keys_ok [simp]: "key_ok jobsBucketKey" "key_ok runningJobsBucketKey"
  by (simp_all add: key_ok_def jobs_keys)

context reliable_stores
begin

lemma jobs_save_ok:
  assumes "view d [k] = Some b" and "json_job j"
    and "fmlookup (items b) (IDToBytes (job_ID j)) \<noteq> Some Sub"
    and "\<And>p. job_Marshal C j = Returns p \<Longrightarrow> value_ok p"
  shows "\<exists>d'. jobs_save B C j [k] d = Returns d'"
proof -
  from assms(2) obtain p where p: "job_Marshal C j = Returns p" using job_roundtrip by blast
  with put_ok [OF assms(1), of "IDToBytes (job_ID j)" p] assms(3,4)
  show ?thesis by (simp add: jobs_save_def)
qed

lemma jobs_create_ok:
  assumes rel: "jobs_rel C (view d) J" and s: "database s = Open d"
    and req: "json_request req" and now: "json_time now"
    and room: "next_job_id (view d) \<noteq> 0"
    and size: "\<And>i p. job_Marshal C ((jobs_null now req)\<lparr>job_ID := i\<rparr>) = Returns p \<Longrightarrow> value_ok p"
  shows "\<exists>j d'. jobs_create B C now req s = (Returns j, s\<lparr>database := Open d'\<rparr>) \<and>
    jobs_create_tx B C now req d = Returns (j, d')"
proof -
  obtain n d1 where n: "NextSequenceFor B jobsBucketKey d = Returns (n, d1)"
    using NextSequenceFor_ok by fastforce
  let ?b = "bucket_at (view d) jobsBucketKey" and ?r = "bucket_at (view d) runningJobsBucketKey"
  from NextSequenceFor_view [OF n] have nb: "n = next_job_id (view d)"
    and v1: "view d1 [jobsBucketKey] = Some (?b\<lparr>seqno := n\<rparr>)"
    and o1: "view d1 [runningJobsBucketKey] = view d [runningJobsBucketKey]"
    by (auto simp: next_job_id_def bucket_at_def)
  obtain d2 where d2: "create_bucket B d1 [] runningJobsBucketKey = Returns d2"
    using create_root_ok by fastforce
  from create_root [OF d2] have v2: "view d2 [runningJobsBucketKey] = Some ?r"
    "view d2 [jobsBucketKey] = Some (?b\<lparr>seqno := n\<rparr>)"
    by (simp_all add: o1 v1 bucket_at_def)
  have jp: "job_part C (view d) J" and rp: "run_part (view d) (running J)"
    using rel by (simp_all add: jobs_rel_def)
  from put_ok [OF v2(1), of "IDToBytes n" JobRunningStatus] rp
  obtain d3 where d3: "bucket_put B d2 [runningJobsBucketKey] (IDToBytes n) JobRunningStatus = Returns d3"
    by (auto simp: value_ok_def JobRunningStatus_def run_part_def)
  let ?j = "(jobs_null now req)\<lparr>job_ID := n\<rparr>"
  have "view d3 [jobsBucketKey] = Some (?b\<lparr>seqno := n\<rparr>)"
    by (simp add: put_view [OF v2(1) d3] v2)
  moreover have "json_job ?j"
    using req now by (simp add: jobs_null_def json_job_def zero_job_def json_time_def zero_time_def
        job_status_defs valid_utf8_ascii)
  moreover have "fmlookup (items ?b) (IDToBytes n) \<noteq> Some Sub"
    using jp by (auto simp: job_part_def job_entry_def dest!: spec [of _ n])
  ultimately obtain d4 where d4: "jobs_save B C ?j [jobsBucketKey] d3 = Returns d4"
    using jobs_save_ok [of d3 jobsBucketKey "?b\<lparr>seqno := n\<rparr>" ?j] size by auto
  have j: "zero_job\<lparr>job_ID := n, job_Request := req, job_StartTime := now, job_Status := JobRunningStatus\<rparr> = ?j"
    by (simp add: jobs_null_def)
  have "jobs_create_tx B C now req d = Returns (?j, d4)"
    using n d2 d3 d4 unfolding jobs_create_tx_def Let_def by (simp add: j)
  then show ?thesis
    by (simp add: jobs_create_def Update_open [OF s] commit_ok)
qed

lemma jobs_finish_ok:
  assumes rel: "jobs_rel C (view d) J" and s: "database s = Open d" and now: "json_time now"
    and j: "J i = Some j" "job_Status j = JobRunningStatus"
    and st: "status \<in> {JobSuccessStatus, JobFailedStatus}"
    and size: "\<And>p. job_Marshal C (j\<lparr>job_EndTime := now, job_Status := status\<rparr>) = Returns p \<Longrightarrow> value_ok p"
  shows "\<exists>s'. jobs_finish B C now i status s = (Returns (), s')"
proof -
  obtain b r p where b: "view d [jobsBucketKey] = Some b" and r: "view d [runningJobsBucketKey] = Some r"
    and p: "fmlookup (items b) (IDToBytes i) = Some (Val p)"
    using jobs_rel_buckets [OF rel j(1)] by blast
  let ?j = "j\<lparr>job_EndTime := now, job_Status := status\<rparr>"
  have jj: "job_ID j = i" "json_job j" using rel j(1) by (auto simp: jobs_rel_def job_part_def)
  have "fmlookup (items r) (IDToBytes i) \<noteq> Some Sub"
    using rel r by (simp add: jobs_rel_def run_part_def)
  from delete_ok [OF r this] obtain d1 where
    d1: "bucket_delete B d [runningJobsBucketKey] (IDToBytes i) = Returns d1" by blast
  have "view d1 [jobsBucketKey] = Some b" by (simp add: delete_view [OF r d1] b)
  moreover have "json_job ?j"
    using jj now st by (auto simp: json_job_def job_status_defs valid_utf8_ascii)
  ultimately obtain d2 where "jobs_save B C ?j [jobsBucketKey] d1 = Returns d2"
    using jobs_save_ok [of d1 jobsBucketKey b ?j] size p jj by auto
  then show ?thesis
    using st j d1 r by (auto simp: jobs_finish_def Update_open [OF s] jobs_get_rel [OF rel s] exists_view commit_ok)
qed

end

end
