(* ===== verification/Logs.thy ===== *)
theory Logs
  imports Db
begin

text \<open>
  The job logs (\<^verbatim>\<open>persistence/logs/local/logs.go\<close>): one bucket per job below the bucket of logs,
  whose lines are keyed by a sequence number, and a nested bucket for the error. The lemmas
  show that a job's log is a list of lines with an optional error (\<open>logs_rel\<close>), what \<open>Get\<close>,
  \<open>Head\<close> and \<open>Tail\<close> return of it, and what \<open>Append\<close> and \<open>SetError\<close> change.
\<close>

section \<open>The operations\<close>

definition logsBucketKey :: string where "logsBucketKey = ''logs''"
definition errorKey :: string where "errorKey = ''error''"

definition getJobBucket :: "'db bolt \<Rightarrow> u64 \<Rightarrow> 'db \<Rightarrow> (string list \<times> 'db) result" where
  "getJobBucket B jobID d =
     (case create_bucket B d [] logsBucketKey of
        Inl e \<Rightarrow> Fails (wrap_err ''could not get logs bucket: '' e)
      | Inr d1 \<Rightarrow>
          (case create_bucket B d1 [logsBucketKey] (IDToBytes jobID) of
             Inl e \<Rightarrow> Fails e
           | Inr d2 \<Rightarrow> Returns ([logsBucketKey, IDToBytes jobID], d2)))"

definition logs_Append_tx :: "'db bolt \<Rightarrow> u64 \<Rightarrow> string \<Rightarrow> 'db \<Rightarrow> (unit \<times> 'db) result" where
  "logs_Append_tx B jobID content d =
     (case getJobBucket B jobID d of
        Inl e \<Rightarrow> Fails (wrap_err (''could not get job '' @ show_u64 jobID @ '' bucket: '') e)
      | Inr (jobBucket, d1) \<Rightarrow>
          (case next_sequence B d1 jobBucket of
             Inl e \<Rightarrow> Fails (wrap_err (''could not get next sequence for job '' @ show_u64 jobID @ '': '') e)
           | Inr (n, d2) \<Rightarrow>
               (case bucket_put B d2 jobBucket (IDToBytes n) content of
                  Inl e \<Rightarrow> Fails e
                | Inr d3 \<Rightarrow> Returns ((), d3))))"

definition logs_Append :: "'db bolt \<Rightarrow> u64 \<Rightarrow> string \<Rightarrow> 'db db_state \<Rightarrow> unit result \<times> 'db db_state" where
  "logs_Append B jobID content s =
     (if content = [] then (Returns (), s) else Update B (logs_Append_tx B jobID content) s)"

definition logs_SetError_tx :: "'db bolt \<Rightarrow> u64 \<Rightarrow> err \<Rightarrow> 'db \<Rightarrow> (unit \<times> 'db) result" where
  "logs_SetError_tx B jobID jobErr d =
     (case getJobBucket B jobID d of
        Inl e \<Rightarrow> Fails (wrap_err (''could not get job '' @ show_u64 jobID @ '' bucket: '') e)
      | Inr (jobBucket, d1) \<Rightarrow>
          (case create_bucket B d1 jobBucket errorKey of
             Inl e \<Rightarrow> Fails (wrap_err (''could not get error bucket for job '' @ show_u64 jobID @ '': '') e)
           | Inr d2 \<Rightarrow>
               (case bucket_put B d2 (jobBucket @ [errorKey]) errorKey (err_text jobErr) of
                  Inl e \<Rightarrow> Fails e
                | Inr d3 \<Rightarrow> Returns ((), d3))))"

definition logs_SetError :: "'db bolt \<Rightarrow> u64 \<Rightarrow> err option \<Rightarrow> 'db db_state \<Rightarrow> unit result \<times> 'db db_state" where
  "logs_SetError B jobID jobErr s =
     (case jobErr of None \<Rightarrow> (Returns (), s) | Some e \<Rightarrow> Update B (logs_SetError_tx B jobID e) s)"

definition readLogBucket :: "'db bolt \<Rightarrow> u64 \<Rightarrow> ('db \<Rightarrow> string list \<Rightarrow> 'a result) \<Rightarrow> 'db db_state \<Rightarrow> 'a result" where
  "readLogBucket B jobID f s =
     View B (\<lambda>d.
       if \<not> bucket_exists B d [logsBucketKey] then Fails ErrNoLogsForJob
       else if \<not> bucket_exists B d [logsBucketKey, IDToBytes jobID] then Fails ErrNoLogsForJob
       else f d [logsBucketKey, IDToBytes jobID]) s"

text \<open>The loops of the three readers: each stops at the first pair whose value is nil.\<close>

fun get_loop :: "string list \<Rightarrow> (string \<times> string option) list \<Rightarrow> string list" where
  "get_loop lines [] = lines"
| "get_loop lines ((k, line) # rest) =
     (case line of None \<Rightarrow> lines | Some l \<Rightarrow> get_loop (lines @ [l]) rest)"

fun head_loop :: "int \<Rightarrow> int \<Rightarrow> string list \<Rightarrow> (string \<times> string option) list \<Rightarrow> string list" where
  "head_loop i limit lines [] = lines"
| "head_loop i limit lines ((k, line) # rest) =
     (if i < limit
      then (case line of None \<Rightarrow> lines | Some l \<Rightarrow> head_loop (i + 1) limit (lines @ [l]) rest)
      else lines)"

fun tail_loop :: "int \<Rightarrow> int \<Rightarrow> string list \<Rightarrow> (string \<times> string option) list \<Rightarrow> string list" where
  "tail_loop i limit lines [] = lines"
| "tail_loop i limit lines ((k, line) # rest) =
     (if i < limit
      then (case line of None \<Rightarrow> lines | Some l \<Rightarrow> tail_loop (i + 1) limit ([l] @ lines) rest)
      else lines)"

definition read_error :: "'db bolt \<Rightarrow> 'db \<Rightarrow> string list \<Rightarrow> string" where
  "read_error B d j =
     (if bucket_exists B d (j @ [errorKey])
      then (case bucket_get B d (j @ [errorKey]) errorKey of None \<Rightarrow> [] | Some e \<Rightarrow> e)
      else [])"

definition logs_Get :: "'db bolt \<Rightarrow> u64 \<Rightarrow> 'db db_state \<Rightarrow> job_log result" where
  "logs_Get B jobID =
     readLogBucket B jobID (\<lambda>d j. Returns
       \<lparr>jl_Error = read_error B d j,
        jl_Output = strings_join [CHR 0x0A] (get_loop [] (bucket_cursor B d j))\<rparr>)"

definition logs_Head :: "'db bolt \<Rightarrow> u64 \<Rightarrow> int \<Rightarrow> 'db db_state \<Rightarrow> job_log result" where
  "logs_Head B jobID limit =
     readLogBucket B jobID (\<lambda>d j. Returns
       \<lparr>jl_Error = read_error B d j,
        jl_Output = strings_join [CHR 0x0A] (head_loop 0 limit [] (bucket_cursor B d j))\<rparr>)"

definition logs_Tail :: "'db bolt \<Rightarrow> u64 \<Rightarrow> int \<Rightarrow> 'db db_state \<Rightarrow> job_log result" where
  "logs_Tail B jobID limit =
     readLogBucket B jobID (\<lambda>d j. Returns
       \<lparr>jl_Error = read_error B d j,
        jl_Output = strings_join [CHR 0x0A] (tail_loop 0 limit [] (rev (bucket_cursor B d j)))\<rparr>)"

lemmas logs_keys = logsBucketKey_def errorKey_def

section \<open>A log as a list of lines\<close>

text \<open>Keys of line numbers stay below the key of the error bucket for the first \<open>2 ^ 62\<close> lines.\<close>

definition max_lines :: nat where
  "max_lines = 2 ^ 62"

definition line_key :: "nat \<Rightarrow> string" where
  "line_key n = IDToBytes (of_nat n)"

definition log_items :: "string list \<Rightarrow> string option \<Rightarrow> (string \<times> entry) list" where
  "log_items lines e =
     map (\<lambda>n. (line_key (Suc n), Val (lines ! n))) [0..<length lines] @
     (case e of None \<Rightarrow> [] | Some _ \<Rightarrow> [(errorKey, Sub)])"

definition log_bucket :: "bucket \<Rightarrow> bucket option \<Rightarrow> string list \<Rightarrow> string option \<Rightarrow> bool" where
  "log_bucket b eb lines e \<longleftrightarrow>
     length lines < max_lines \<and> seqno b = of_nat (length lines) \<and>
     items b = fmap_of_list (log_items lines e) \<and>
     (case e of None \<Rightarrow> eb = None
      | Some t \<Rightarrow> (\<exists>x. eb = Some x \<and> fmlookup (items x) errorKey = Some (Val t)))"

type_synonym log_map = "u64 \<Rightarrow> (string list \<times> string option) option"

definition log_at :: "(string list \<Rightarrow> bucket option) \<Rightarrow> u64 \<Rightarrow> (string list \<times> string option) option \<Rightarrow> bool" where
  "log_at V i x \<longleftrightarrow>
     (case x of
        None \<Rightarrow> V [logsBucketKey, IDToBytes i] = None \<and> V [logsBucketKey, IDToBytes i, errorKey] = None
      | Some (lines, e) \<Rightarrow> (\<exists>b. V [logsBucketKey, IDToBytes i] = Some b \<and>
          log_bucket b (V [logsBucketKey, IDToBytes i, errorKey]) lines e))"

definition logs_rel :: "(string list \<Rightarrow> bucket option) \<Rightarrow> log_map \<Rightarrow> bool" where
  "logs_rel V L \<longleftrightarrow> (\<forall>i. log_at V i (L i)) \<and>
     (case V [logsBucketKey] of
        None \<Rightarrow> L = Map.empty
      | Some lb \<Rightarrow> (\<forall>k v. fmlookup (items lb) k \<noteq> Some (Val v)))"

definition logs_frame :: "(string list \<Rightarrow> bucket option) \<Rightarrow> (string list \<Rightarrow> bucket option) \<Rightarrow> bool" where
  "logs_frame V V' \<longleftrightarrow> (\<forall>p. p \<noteq> [] \<longrightarrow> hd p \<noteq> logsBucketKey \<longrightarrow> V' p = V p)"

lemma unat_line: "n < max_lines \<Longrightarrow> unat (of_nat n :: u64) = n"
  by (simp add: max_lines_def unat_of_nat take_bit_nat_eq_self)

lemma line_key_less: "m < n \<Longrightarrow> n < max_lines \<Longrightarrow> line_key m < line_key n"
  unfolding line_key_def
  by (rule IDToBytes_mono) (simp add: word_less_nat_alt unat_line)

lemma line_key_error: "n < max_lines \<Longrightarrow> line_key n < errorKey"
proof -
  assume n: "n < max_lines"
  then have "n div 256 ^ 7 < 64" by (simp add: max_lines_def div_less_iff_less_mult)
  then have "chr (n div 256 ^ 7) < CHR ''e''"
    by (simp add: less_char_def byte_chr)
  moreover have "be_bytes 8 n = chr (n div 256 ^ 7) # be_bytes 7 (n mod 256 ^ 7)"
    using be_bytes.simps(2) [of 7] by (simp del: be_bytes.simps)
  ultimately show ?thesis
    by (simp add: line_key_def IDToBytes_def unat_line [OF n] errorKey_def)
qed

lemma log_items_keys:
  "map fst (log_items lines e) =
     map (\<lambda>n. line_key (Suc n)) [0..<length lines] @ (case e of None \<Rightarrow> [] | Some _ \<Rightarrow> [errorKey])"
  by (simp add: log_items_def comp_def split: option.splits)

lemma sorted_log_items:
  assumes "length lines < max_lines"
  shows "sorted_wrt (<) (map fst (log_items lines e))"
proof -
  have "sorted_wrt (\<lambda>m n. line_key (Suc m) < line_key (Suc n)) [0..<length lines]"
    by (rule sorted_wrt_mono_rel [OF _ sorted_wrt_upt]) (use assms in \<open>auto intro: line_key_less\<close>)
  then show ?thesis
    using assms by (auto simp: log_items_keys sorted_wrt_append sorted_wrt_map intro: line_key_error
        split: option.splits)
qed

lemma log_sorted_entries:
  assumes "log_bucket b eb lines e"
  shows "sorted_entries b =
    map (\<lambda>n. (line_key (Suc n), Some (lines ! n))) [0..<length lines] @
    (case e of None \<Rightarrow> [] | Some _ \<Rightarrow> [(errorKey, None)])"
proof -
  let ?l = "log_items lines e"
  from assms have len: "length lines < max_lines" and it: "items b = fmap_of_list ?l"
    by (auto simp: log_bucket_def)
  note srt = sorted_log_items [OF len, of e]
  then have dis: "distinct (map fst ?l)" by (simp add: strict_sorted_iff)
  have keys: "sorted_keys b = map fst ?l"
    by (rule sorted_keys_eqI [OF srt]) (simp add: it fmdom'_alt_def fset_of_list.rep_eq)
  have "sorted_entries b = map (\<lambda>(k, v). (k, entry_value (Some v))) ?l"
    unfolding sorted_entries_def keys using dis
    by (auto simp: it fmlookup_of_list)
  then show ?thesis by (simp add: log_items_def split: option.splits)
qed

lemma get_loop_values: "get_loop ls (map (\<lambda>n. (f n, Some (g n))) xs @ rest) = get_loop (ls @ map g xs) rest"
  by (induction xs arbitrary: ls) auto

lemma head_loop_values:
  "head_loop i limit ls (map (\<lambda>n. (f n, Some (g n))) xs @ [(k, None)]) = ls @ take_int (limit - i) (map g xs)"
  "head_loop i limit ls (map (\<lambda>n. (f n, Some (g n))) xs) = ls @ take_int (limit - i) (map g xs)"
  by (induction xs arbitrary: i ls) (auto simp: take_int_Cons algebra_simps)

lemma tail_loop_values:
  "tail_loop i limit ls (map (\<lambda>n. (f n, Some (g n))) xs) = rev (take_int (limit - i) (map g xs)) @ ls"
  by (induction xs arbitrary: i ls) (auto simp: take_int_Cons algebra_simps)

lemma map_nth_lines [simp]: "map (\<lambda>n. lines ! n) [0..<length lines] = lines"
  by (rule map_nth)

lemma map_of_log_items:
  "length lines < max_lines \<Longrightarrow> n < length lines \<Longrightarrow> map_of (log_items lines e) (line_key (Suc n)) = Some (Val (lines ! n))"
  using sorted_log_items [of lines e]
  by (intro map_of_is_SomeI) (auto simp: strict_sorted_iff log_items_def)

lemma fmap_of_list_set_eqI:
  assumes "distinct (map fst xs)" and "distinct (map fst ys)" and "set xs = set ys"
  shows "fmap_of_list xs = fmap_of_list ys"
  by (rule fmap_ext) (use assms map_of_inject_set [of xs ys] in \<open>simp add: fmlookup_of_list\<close>)

lemma distinct_log_items: "length lines < max_lines \<Longrightarrow> distinct (map fst (log_items lines e))"
  using sorted_log_items [of lines e] by (simp add: strict_sorted_iff)

lemma log_items_snoc:
  assumes "Suc (length lines) < max_lines"
  shows "fmupd (line_key (Suc (length lines))) (Val c) (fmap_of_list (log_items lines e)) =
    fmap_of_list (log_items (lines @ [c]) e)"
proof -
  let ?k = "line_key (Suc (length lines))"
  have perm: "set ((?k, Val c) # log_items lines e) = set (log_items (lines @ [c]) e)"
    by (force simp: log_items_def nth_append less_Suc_eq split: option.splits)
  have d1: "distinct (map fst (log_items lines e))" and d2: "distinct (map fst (log_items (lines @ [c]) e))"
    using assms by (simp_all add: distinct_log_items)
  have "?k \<notin> fst ` set (log_items lines e)"
    using d2 by (auto simp: log_items_keys simp flip: set_map split: option.splits)
  with d1 d2 perm show ?thesis
    using fmap_of_list_set_eqI [of "(?k, Val c) # log_items lines e"] by simp
qed

lemma log_items_error:
  assumes "length lines < max_lines"
  shows "fmupd errorKey Sub (fmap_of_list (log_items lines e)) = fmap_of_list (log_items lines (Some t))"
proof -
  let ?l = "log_items lines None"
  have d: "distinct (map fst (log_items lines (Some t)))"
    using assms by (rule distinct_log_items)
  have s: "log_items lines (Some t) = ?l @ [(errorKey, Sub)]" by (simp add: log_items_def)
  then have "distinct (map fst ((errorKey, Sub) # ?l))" using d by simp
  from fmap_of_list_set_eqI [OF this d]
  have eq: "fmupd errorKey Sub (fmap_of_list ?l) = fmap_of_list (log_items lines (Some t))"
    by (simp add: s)
  show ?thesis
  proof (cases e)
    case None
    then show ?thesis using eq by simp
  next
    case (Some a)
    then have "log_items lines e = log_items lines (Some t)" by (simp add: log_items_def)
    then show ?thesis by (simp flip: eq)
  qed
qed

section \<open>The operations on the lists\<close>

definition log_of :: "log_map \<Rightarrow> u64 \<Rightarrow> string list \<times> string option" where
  "log_of L i = (case L i of None \<Rightarrow> ([], None) | Some x \<Rightarrow> x)"

lemma errorKey_not_id [simp]: "IDToBytes i \<noteq> errorKey" "errorKey \<noteq> IDToBytes i"
proof -
  have "length (IDToBytes i) \<noteq> length errorKey" by (simp add: errorKey_def)
  then show "IDToBytes i \<noteq> errorKey" "errorKey \<noteq> IDToBytes i" by metis+
qed

lemma log_at_cong:
  "V' [logsBucketKey, IDToBytes i] = V [logsBucketKey, IDToBytes i] \<Longrightarrow>
   V' [logsBucketKey, IDToBytes i, errorKey] = V [logsBucketKey, IDToBytes i, errorKey] \<Longrightarrow>
   log_at V' i = log_at V i"
  by (rule ext) (simp add: log_at_def split: option.splits)

lemma log_at_None:
  "V [logsBucketKey, IDToBytes i] = None \<Longrightarrow>
   log_at V i x \<longleftrightarrow> x = None \<and> V [logsBucketKey, IDToBytes i, errorKey] = None"
  by (cases x) (auto simp: log_at_def)

lemma log_at_Some:
  "V [logsBucketKey, IDToBytes i] = Some b \<Longrightarrow>
   log_at V i x \<longleftrightarrow> (\<exists>lines e. x = Some (lines, e) \<and>
     log_bucket b (V [logsBucketKey, IDToBytes i, errorKey]) lines e)"
  by (cases x) (auto simp: log_at_def)

lemma logs_rel_at: "logs_rel V L \<Longrightarrow> log_at V i (L i)"
  by (simp add: logs_rel_def)

lemma logs_rel_upd:
  assumes "logs_rel V L" and "V' [logsBucketKey] = Some lb" and "\<forall>k v. fmlookup (items lb) k \<noteq> Some (Val v)"
    and "\<And>q. q \<noteq> [] \<Longrightarrow> q \<noteq> [logsBucketKey] \<Longrightarrow> q \<noteq> [logsBucketKey, IDToBytes i] \<Longrightarrow>
      q \<noteq> [logsBucketKey, IDToBytes i, errorKey] \<Longrightarrow> V' q = V q"
    and "V' [logsBucketKey, IDToBytes i] = Some b"
    and "log_bucket b (V' [logsBucketKey, IDToBytes i, errorKey]) lines e"
  shows "logs_rel V' (L(i \<mapsto> (lines, e)))"
proof -
  have "log_at V' j (L j)" if "j \<noteq> i" for j
    using assms(1) that log_at_cong [of V' j V] assms(4) by (simp add: logs_rel_def)
  with assms show ?thesis by (auto simp: logs_rel_def log_at_def [of V' i])
qed

lemma logs_rel_root:
  assumes "logs_rel V L" and "V [logsBucketKey, IDToBytes i] \<noteq> None"
  obtains lb where "V [logsBucketKey] = Some lb" "\<forall>k v. fmlookup (items lb) k \<noteq> Some (Val v)"
proof -
  have "L i \<noteq> None" using logs_rel_at [OF assms(1), of i] assms(2) by (auto simp: log_at_Some)
  with assms(1) that show thesis by (cases "V [logsBucketKey]") (auto simp: logs_rel_def)
qed

lemma logs_rel_only_buckets: "logs_rel V L \<Longrightarrow> only_buckets V logsBucketKey"
  by (auto simp: logs_rel_def only_buckets_def)

lemma log_bucket_empty: "log_bucket empty_bucket None [] None"
  by (simp add: log_bucket_def max_lines_def empty_bucket_def log_items_def fmap_ext fmlookup_of_list)

lemma logs_rel_empty:
  "(\<And>p. p \<noteq> [] \<Longrightarrow> hd p = logsBucketKey \<Longrightarrow> V p = None) \<Longrightarrow> logs_rel V Map.empty"
  by (simp add: logs_rel_def log_at_def)

context bolt_api
begin

lemma getJobBucket_view:
  assumes "getJobBucket B i d = Returns (p, d')" and "logs_rel (view d) L"
  shows "p = [logsBucketKey, IDToBytes i]"
    and "logs_rel (view d') (L(i \<mapsto> log_of L i))" and "logs_frame (view d) (view d')"
    and "\<exists>b. view d' p = Some b \<and> log_bucket b (view d' (p @ [errorKey])) (fst (log_of L i)) (snd (log_of L i))"
proof -
  let ?p = "[logsBucketKey, IDToBytes i]"
  from assms(1) obtain d1 where d1: "create_bucket B d [] logsBucketKey = Returns d1"
    and d2: "create_bucket B d1 [logsBucketKey] (IDToBytes i) = Returns d'" and p: "p = ?p"
    by (auto simp: getJobBucket_def split: sum.splits)
  show "p = ?p" by (rule p)
  note v = nested_bucket_view [OF d1 d2]
  obtain lb' where lb': "view d' [logsBucketKey] = Some lb'" "\<forall>k v. fmlookup (items lb') k \<noteq> Some (Val v)"
    using v(3) logs_rel_only_buckets [OF assms(2)] by blast
  note oth = v(2)
  have b: "\<exists>b. view d' ?p = Some b \<and> log_bucket b (view d' (?p @ [errorKey])) (fst (log_of L i)) (snd (log_of L i))"
  proof (cases "view d ?p")
    case None
    then have "L i = None" "view d (?p @ [errorKey]) = None"
      using logs_rel_at [OF assms(2), of i] by (auto simp: log_at_None log_at_Some)
    with None show ?thesis
      using oth [of "?p @ [errorKey]"] by (simp add: v(1) log_of_def log_bucket_empty)
  next
    case (Some b)
    then obtain lines e where "L i = Some (lines, e)" "log_bucket b (view d (?p @ [errorKey])) lines e"
      using logs_rel_at [OF assms(2), of i] by (auto simp: log_at_None log_at_Some)
    with Some show ?thesis
      using oth [of "?p @ [errorKey]"] by (simp add: v(1) log_of_def)
  qed
  then show "\<exists>b. view d' p = Some b \<and> log_bucket b (view d' (p @ [errorKey])) (fst (log_of L i)) (snd (log_of L i))"
    by (simp add: p)
  from b obtain b where "view d' ?p = Some b"
    "log_bucket b (view d' (?p @ [errorKey])) (fst (log_of L i)) (snd (log_of L i))" by blast
  then show "logs_rel (view d') (L(i \<mapsto> log_of L i))"
    using logs_rel_upd [OF assms(2) lb' oth, of i b "fst (log_of L i)" "snd (log_of L i)"] by simp
  show "logs_frame (view d) (view d')"
    by (auto simp: logs_frame_def intro!: oth)
qed

lemma logs_Append_tx_rel:
  assumes rel: "logs_rel (view d) L" and tx: "logs_Append_tx B i c d = Returns (u, d')"
    and room: "Suc (length (fst (log_of L i))) < max_lines"
  shows "logs_rel (view d') (L(i \<mapsto> (fst (log_of L i) @ [c], snd (log_of L i)))) \<and> logs_frame (view d) (view d')"
proof -
  let ?p = "[logsBucketKey, IDToBytes i]"
  obtain lines e where le: "log_of L i = (lines, e)" by (cases "log_of L i")
  from tx obtain p d1 n d2 where d1: "getJobBucket B i d = Returns (p, d1)"
    and n: "next_sequence B d1 p = Returns (n, d2)"
    and d': "bucket_put B d2 p (IDToBytes n) c = Returns d'"
    by (auto simp: logs_Append_tx_def split: sum.splits prod.splits)
  note g = getJobBucket_view [OF d1 rel]
  from g(4) obtain b where b: "view d1 ?p = Some b" "log_bucket b (view d1 (?p @ [errorKey])) lines e"
    by (auto simp: g(1) le)
  from sequence_view [OF b(1) n [unfolded g(1)]]
  have nb: "n = seqno b + 1" and v2: "view d2 = (view d1)(?p \<mapsto> b\<lparr>seqno := n\<rparr>)" by auto
  have "view d2 ?p = Some (b\<lparr>seqno := n\<rparr>)" by (simp add: v2)
  from put_view [OF this d' [unfolded g(1)]]
  have v3: "view d' = (view d1)(?p \<mapsto> b\<lparr>seqno := n, items := fmupd (IDToBytes n) (Val c) (items b)\<rparr>)"
    by (simp add: v2)
  have "IDToBytes n = line_key (Suc (length lines))"
    using b(2) by (simp add: nb line_key_def log_bucket_def)
  with b(2) room log_items_snoc [of lines c e]
  have lb: "log_bucket (b\<lparr>seqno := n, items := fmupd (IDToBytes n) (Val c) (items b)\<rparr>)
      (view d1 (?p @ [errorKey])) (lines @ [c]) e"
    by (auto simp: log_bucket_def nb le split: option.splits)
  obtain lb where "view d1 [logsBucketKey] = Some lb" "\<forall>k v. fmlookup (items lb) k \<noteq> Some (Val v)"
    using logs_rel_root [OF g(2), of i] b(1) by auto
  with lb have "logs_rel (view d') ((L(i \<mapsto> log_of L i))(i \<mapsto> (lines @ [c], e)))"
    by (intro logs_rel_upd [OF g(2)]) (simp_all add: v3)
  moreover have "logs_frame (view d) (view d')"
    using g(3) by (auto simp: logs_frame_def v3)
  ultimately show ?thesis by (simp add: le)
qed

lemma logs_SetError_tx_rel:
  assumes rel: "logs_rel (view d) L" and tx: "logs_SetError_tx B i t d = Returns (u, d')"
  shows "logs_rel (view d') (L(i \<mapsto> (fst (log_of L i), Some (err_text t)))) \<and> logs_frame (view d) (view d')"
proof -
  let ?p = "[logsBucketKey, IDToBytes i]"
  obtain lines e where le: "log_of L i = (lines, e)" by (cases "log_of L i")
  from tx obtain p d1 d2 where d1: "getJobBucket B i d = Returns (p, d1)"
    and d2: "create_bucket B d1 p errorKey = Returns d2"
    and d': "bucket_put B d2 (p @ [errorKey]) errorKey (err_text t) = Returns d'"
    by (auto simp: logs_SetError_tx_def split: sum.splits prod.splits)
  note g = getJobBucket_view [OF d1 rel]
  from g(4) obtain b where b: "view d1 ?p = Some b" "log_bucket b (view d1 (?p @ [errorKey])) lines e"
    by (auto simp: g(1) le)
  have v2: "view d2 = (if view d1 (?p @ [errorKey]) \<noteq> None then view d1
      else (view d1)(?p \<mapsto> b\<lparr>items := fmupd errorKey Sub (items b)\<rparr>, ?p @ [errorKey] \<mapsto> empty_bucket))"
    using create_view [OF b(1) d2 [unfolded g(1)]] .
  have len: "length lines < max_lines" using b(2) by (simp add: log_bucket_def)
  have "\<exists>b' x. view d2 ?p = Some b' \<and> view d2 (?p @ [errorKey]) = Some x \<and> seqno b' = seqno b \<and>
      items b' = fmap_of_list (log_items lines (Some (err_text t))) \<and>
      (\<forall>q. q \<noteq> ?p \<longrightarrow> q \<noteq> ?p @ [errorKey] \<longrightarrow> view d2 q = view d1 q)"
  proof (cases e)
    case None
    with b log_items_error [OF len, of None "err_text t"] show ?thesis by (auto simp: v2 log_bucket_def)
  next
    case (Some a)
    with b show ?thesis by (auto simp: v2 log_bucket_def log_items_def)
  qed
  then obtain b' x where b': "view d2 ?p = Some b'" "seqno b' = seqno b"
    "items b' = fmap_of_list (log_items lines (Some (err_text t)))"
    and x: "view d2 (?p @ [errorKey]) = Some x"
    and o2: "\<And>q. q \<noteq> ?p \<Longrightarrow> q \<noteq> ?p @ [errorKey] \<Longrightarrow> view d2 q = view d1 q" by blast
  note v3 = put_view [OF x d' [unfolded g(1)]]
  have "log_bucket b' (view d' (?p @ [errorKey])) lines (Some (err_text t))"
    using b b' len by (auto simp: log_bucket_def v3)
  moreover obtain lb where "view d1 [logsBucketKey] = Some lb" "\<forall>k v. fmlookup (items lb) k \<noteq> Some (Val v)"
    using logs_rel_root [OF g(2), of i] b(1) by auto
  ultimately have "logs_rel (view d') ((L(i \<mapsto> log_of L i))(i \<mapsto> (lines, Some (err_text t))))"
    using b' by (intro logs_rel_upd [OF g(2)]) (simp_all add: v3 o2)
  moreover have "view d' q = view d q" if "q \<noteq> []" "hd q \<noteq> logsBucketKey" for q
  proof -
    from that have q: "q \<noteq> ?p" "q \<noteq> ?p @ [errorKey]" by auto
    with o2 g(3) that show ?thesis by (simp add: v3 logs_frame_def)
  qed
  then have "logs_frame (view d) (view d')"
    by (simp add: logs_frame_def)
  ultimately show ?thesis by (simp add: le)
qed

lemma readLogBucket_rel:
  assumes "logs_rel (view d) L" and "database s = Open d"
  shows "readLogBucket B i f s =
    (case L i of None \<Rightarrow> Fails ErrNoLogsForJob | Some _ \<Rightarrow> f d [logsBucketKey, IDToBytes i])"
proof (cases "view d [logsBucketKey, IDToBytes i]")
  case None
  with logs_rel_at [OF assms(1), of i] assms(2) show ?thesis
    by (simp add: readLogBucket_def View_open exists_view log_at_None)
next
  case (Some b)
  then have "view d [logsBucketKey] \<noteq> None" using logs_rel_root [OF assms(1), of i] by (metis option.simps(3))
  with Some logs_rel_at [OF assms(1), of i] assms(2) show ?thesis
    by (auto simp: readLogBucket_def View_open exists_view log_at_Some)
qed

lemma read_log:
  assumes "logs_rel (view d) L" and "L i = Some (lines, e)"
  shows "read_error B d [logsBucketKey, IDToBytes i] = (case e of None \<Rightarrow> [] | Some t \<Rightarrow> t)"
    and "bucket_cursor B d [logsBucketKey, IDToBytes i] =
      map (\<lambda>n. (line_key (Suc n), Some (lines ! n))) [0..<length lines] @
      (case e of None \<Rightarrow> [] | Some _ \<Rightarrow> [(errorKey, None)])"
proof -
  from logs_rel_at [OF assms(1), of i] assms(2) obtain b where
    b: "view d [logsBucketKey, IDToBytes i] = Some b"
    "log_bucket b (view d [logsBucketKey, IDToBytes i, errorKey]) lines e"
    by (auto simp: log_at_def)
  then show "read_error B d [logsBucketKey, IDToBytes i] = (case e of None \<Rightarrow> [] | Some t \<Rightarrow> t)"
    by (auto simp: read_error_def exists_view get_view log_bucket_def split: option.splits)
  show "bucket_cursor B d [logsBucketKey, IDToBytes i] =
      map (\<lambda>n. (line_key (Suc n), Some (lines ! n))) [0..<length lines] @
      (case e of None \<Rightarrow> [] | Some _ \<Rightarrow> [(errorKey, None)])"
    using cursor_view [OF b(1)] log_sorted_entries [OF b(2)] by simp
qed

lemma logs_Get_rel:
  assumes "logs_rel (view d) L" and "database s = Open d"
  shows "logs_Get B i s = (case L i of None \<Rightarrow> Fails ErrNoLogsForJob
    | Some (lines, e) \<Rightarrow> Returns \<lparr>jl_Error = (case e of None \<Rightarrow> [] | Some t \<Rightarrow> t),
        jl_Output = strings_join [CHR 0x0A] lines\<rparr>)"
  using read_log [OF assms(1), of i] get_loop_values [of "[]" _ _ _ "[]"]
  by (auto simp: logs_Get_def readLogBucket_rel [OF assms] get_loop_values split: option.splits)

lemma logs_Head_rel:
  assumes "logs_rel (view d) L" and "database s = Open d"
  shows "logs_Head B i limit s = (case L i of None \<Rightarrow> Fails ErrNoLogsForJob
    | Some (lines, e) \<Rightarrow> Returns \<lparr>jl_Error = (case e of None \<Rightarrow> [] | Some t \<Rightarrow> t),
        jl_Output = strings_join [CHR 0x0A] (take_int limit lines)\<rparr>)"
  using read_log [OF assms(1), of i]
  by (auto simp: logs_Head_def readLogBucket_rel [OF assms] head_loop_values split: option.splits)

text \<open>
  \<open>Tail\<close> starts at the last pair of the bucket. With an error set that pair is the bucket of the
  error, whose value is nil: the loop then stops before the first line.
\<close>

lemma logs_Tail_rel:
  assumes "logs_rel (view d) L" and "database s = Open d"
  shows "logs_Tail B i limit s = (case L i of None \<Rightarrow> Fails ErrNoLogsForJob
    | Some (lines, None) \<Rightarrow> Returns \<lparr>jl_Error = [],
        jl_Output = strings_join [CHR 0x0A] (rev (take_int limit (rev lines)))\<rparr>
    | Some (lines, Some t) \<Rightarrow> Returns \<lparr>jl_Error = t, jl_Output = []\<rparr>)"
  using read_log [OF assms(1), of i]
  by (auto simp: logs_Tail_def readLogBucket_rel [OF assms] rev_map tail_loop_values split: option.splits)
     (simp_all add: rev_map [symmetric])

text \<open>The two writers as the callers see them.\<close>

lemma logs_Append_rel:
  assumes "logs_rel (view d) L" and "database s = Open d" and "c \<noteq> []"
    and "Suc (length (fst (log_of L i))) < max_lines" and "logs_Append B i c s = (Returns u, s')"
  shows "\<exists>d'. s' = s\<lparr>database := Open d'\<rparr> \<and>
    logs_rel (view d') (L(i \<mapsto> (fst (log_of L i) @ [c], snd (log_of L i)))) \<and> logs_frame (view d) (view d')"
proof -
  from assms(2,3,5) obtain d' where "logs_Append_tx B i c d = Returns (u, d')" "s' = s\<lparr>database := Open d'\<rparr>"
    by (auto simp: logs_Append_def Update_open split: sum.splits option.splits)
  with logs_Append_tx_rel [OF assms(1) _ assms(4)] show ?thesis by blast
qed

lemma logs_SetError_rel:
  assumes "logs_rel (view d) L" and "database s = Open d" and "logs_SetError B i (Some t) s = (Returns u, s')"
  shows "\<exists>d'. s' = s\<lparr>database := Open d'\<rparr> \<and>
    logs_rel (view d') (L(i \<mapsto> (fst (log_of L i), Some (err_text t)))) \<and> logs_frame (view d) (view d')"
proof -
  from assms(2,3) obtain d' where "logs_SetError_tx B i t d = Returns (u, d')" "s' = s\<lparr>database := Open d'\<rparr>"
    by (auto simp: logs_SetError_def Update_open split: sum.splits option.splits)
  with logs_SetError_tx_rel [OF assms(1)] show ?thesis by blast
qed

end

section \<open>Success\<close>

lemma log_items_no_sub:
  assumes "log_bucket b eb lines e" and "k \<noteq> errorKey"
  shows "fmlookup (items b) k \<noteq> Some Sub"
  using assms by (auto simp: log_bucket_def fmlookup_of_list log_items_def split: option.splits
      dest!: map_of_SomeD)

context bolt_commits
begin

lemma getJobBucket_ok:
  assumes rel: "logs_rel (view d) L"
  shows "\<exists>d'. getJobBucket B i d = Returns ([logsBucketKey, IDToBytes i], d')"
  using nested_bucket_ok [OF logs_rel_only_buckets [OF rel], of "IDToBytes i"]
  by (auto simp: getJobBucket_def key_ok_def logsBucketKey_def)

lemma logs_Append_ok:
  assumes rel: "logs_rel (view d) L" and s: "database s = Open d" and size: "value_ok c"
    and room: "Suc (length (fst (log_of L i))) < max_lines"
  shows "\<exists>s'. logs_Append B i c s = (Returns (), s')"
proof -
  obtain d1 where d1: "getJobBucket B i d = Returns ([logsBucketKey, IDToBytes i], d1)"
    using getJobBucket_ok [OF rel] by blast
  from getJobBucket_view(4) [OF d1 rel] obtain b where
    b: "view d1 [logsBucketKey, IDToBytes i] = Some b"
    and lb: "log_bucket b (view d1 [logsBucketKey, IDToBytes i, errorKey]) (fst (log_of L i)) (snd (log_of L i))"
    by auto
  from sequence_ok [OF b] obtain n d2 where n: "next_sequence B d1 [logsBucketKey, IDToBytes i] = Returns (n, d2)"
    by blast
  from sequence_view [OF b n] have b2: "view d2 [logsBucketKey, IDToBytes i] = Some (b\<lparr>seqno := n\<rparr>)"
    by auto
  from put_ok [OF b2 _ key_ok_IDToBytes size, of n] log_items_no_sub [OF lb, of "IDToBytes n"]
  obtain d3 where "bucket_put B d2 [logsBucketKey, IDToBytes i] (IDToBytes n) c = Returns d3" by auto
  with d1 n show ?thesis
    by (simp add: logs_Append_def Update_open [OF s] logs_Append_tx_def commit_ok)
qed

lemma logs_SetError_ok:
  assumes rel: "logs_rel (view d) L" and s: "database s = Open d" and size: "value_ok (err_text t)"
  shows "\<exists>s'. logs_SetError B i (Some t) s = (Returns (), s')"
proof -
  let ?p = "[logsBucketKey, IDToBytes i]"
  have key: "key_ok errorKey" by (simp add: key_ok_def errorKey_def)
  obtain d1 where d1: "getJobBucket B i d = Returns (?p, d1)" using getJobBucket_ok [OF rel] by blast
  from getJobBucket_view(4) [OF d1 rel] obtain b where b: "view d1 ?p = Some b"
    and lb: "log_bucket b (view d1 (?p @ [errorKey])) (fst (log_of L i)) (snd (log_of L i))" by auto
  have "fmlookup (items b) errorKey \<noteq> Some (Val v)" for v
    using lb by (auto simp: log_bucket_def fmlookup_of_list log_items_def line_key_def split: option.splits
        dest!: map_of_SomeD)
  with create_ok [OF b key] obtain d2 where d2: "create_bucket B d1 ?p errorKey = Returns d2" by blast
  have "\<exists>x. view d2 (?p @ [errorKey]) = Some x \<and> fmlookup (items x) errorKey \<noteq> Some Sub"
    using create_view [OF b d2] lb
    by (cases "view d1 (?p @ [errorKey])")
       (auto simp: empty_bucket_def log_bucket_def split: option.splits)
  then obtain x where x: "view d2 (?p @ [errorKey]) = Some x" "fmlookup (items x) errorKey \<noteq> Some Sub"
    by blast
  from put_ok [OF x(1) _ key size x(2)] obtain d3 where
    "bucket_put B d2 (?p @ [errorKey]) errorKey (err_text t) = Returns d3" by auto
  with d1 d2 show ?thesis
    by (simp add: logs_SetError_def Update_open [OF s] logs_SetError_tx_def commit_ok)
qed

end

end
