(* ===== verification/Aliases.thy ===== *)
theory Aliases
  imports Db Codec
begin

text \<open>
  The alias store (\<^verbatim>\<open>persistence/aliases/aliases.go\<close>): one bucket per user below the bucket of
  aliases, from alias names to JSON. The lemmas show that it implements a map from users to maps
  from names to aliases (\<open>aliases_rel\<close>): a user whose bucket is empty and one without a
  bucket are the same, and users do not see each other's aliases.
\<close>

section \<open>The operations\<close>

definition aliasesBucketKey :: string where "aliasesBucketKey = ''aliases''"

definition getAliasesBucket :: "'db bolt \<Rightarrow> string \<Rightarrow> 'db \<Rightarrow> (string list \<times> 'db) result" where
  "getAliasesBucket B userID d =
     (case create_bucket B d [] aliasesBucketKey of
        Inl e \<Rightarrow> Fails (wrap_err ''could not get aliases bucket: '' e)
      | Inr d1 \<Rightarrow>
          (case create_bucket B d1 [aliasesBucketKey] userID of
             Inl e \<Rightarrow> Fails e
           | Inr d2 \<Rightarrow> Returns ([aliasesBucketKey, userID], d2)))"

definition deleteAliasesBucket :: "'db bolt \<Rightarrow> string \<Rightarrow> 'db \<Rightarrow> 'db result" where
  "deleteAliasesBucket B userID d =
     (case create_bucket B d [] aliasesBucketKey of
        Inl e \<Rightarrow> Fails (wrap_err ''could not get aliases bucket: '' e)
      | Inr d1 \<Rightarrow> delete_bucket B d1 [aliasesBucketKey] userID)"

definition aliases_create :: "'db bolt \<Rightarrow> codec \<Rightarrow> string \<Rightarrow> string \<Rightarrow> string \<Rightarrow> string list \<Rightarrow> 'db db_state \<Rightarrow>
    unit result \<times> 'db db_state" where
  "aliases_create B C userID al command args =
     Update B (\<lambda>d.
       case getAliasesBucket B userID d of
         Inl e \<Rightarrow> Fails e
       | Inr (bucket, d1) \<Rightarrow>
           (case alias_Marshal C \<lparr>al_Alias = al, al_Command = command, al_Args = args\<rparr> of
              Inl e \<Rightarrow> Fails (wrap_err ''could not marshal alias: '' e)
            | Inr aj \<Rightarrow>
                (case bucket_put B d1 bucket al aj of
                   Inl e \<Rightarrow> Fails e
                 | Inr d2 \<Rightarrow> Returns ((), d2))))"

text \<open>The error of \<open>deleteAliasesBucket\<close> is dropped.\<close>

definition aliases_remove :: "'db bolt \<Rightarrow> string \<Rightarrow> string \<Rightarrow> 'db db_state \<Rightarrow> unit result \<times> 'db db_state" where
  "aliases_remove B userID al =
     Update B (\<lambda>d.
       case getAliasesBucket B userID d of
         Inl e \<Rightarrow> Fails e
       | Inr (bucket, d1) \<Rightarrow>
           if bucket_get B d1 bucket al = None then Fails (Errorf ''alias not found'')
           else case bucket_delete B d1 bucket al of
             Inl e \<Rightarrow> Fails e
           | Inr d2 \<Rightarrow>
               if bucket_cursor B d2 bucket = []
               then (case deleteAliasesBucket B userID d2 of
                       Inl e \<Rightarrow> Returns ((), d2)
                     | Inr d3 \<Rightarrow> Returns ((), d3))
               else Returns ((), d2))"

fun aliases_list_loop :: "codec \<Rightarrow> command_alias list \<Rightarrow> (string \<times> string option) list \<Rightarrow> command_alias list" where
  "aliases_list_loop C acc [] = acc"
| "aliases_list_loop C acc ((k, payload) # rest) =
     (case payload of
        None \<Rightarrow> acc
      | Some p \<Rightarrow> aliases_list_loop C (acc @ [fst (alias_Unmarshal C p)]) rest)"

definition aliases_list :: "'db bolt \<Rightarrow> codec \<Rightarrow> string \<Rightarrow> 'db db_state \<Rightarrow>
    command_alias list result \<times> 'db db_state" where
  "aliases_list B C userID =
     Update B (\<lambda>d.
       case getAliasesBucket B userID d of
         Inl e \<Rightarrow> Fails e
       | Inr (bucket, d1) \<Rightarrow> Returns (aliases_list_loop C [] (bucket_cursor B d1 bucket), d1))"

definition aliases_get :: "'db bolt \<Rightarrow> codec \<Rightarrow> string \<Rightarrow> string \<Rightarrow> 'db db_state \<Rightarrow>
    (string \<times> string list) result \<times> 'db db_state" where
  "aliases_get B C userID al =
     Update B (\<lambda>d.
       case getAliasesBucket B userID d of
         Inl e \<Rightarrow> Fails e
       | Inr (bucket, d1) \<Rightarrow>
           (case bucket_get B d1 bucket al of
              None \<Rightarrow> Fails ErrAliasNotFound
            | Some payload \<Rightarrow>
                (case alias_Unmarshal C payload of
                   (a, Some e) \<Rightarrow> Fails e
                 | (a, None) \<Rightarrow> Returns ((al_Command a, al_Args a), d1))))"

section \<open>The store as a map of maps\<close>

type_synonym alias_map = "string \<Rightarrow> string \<Rightarrow> command_alias option"

definition alias_entry :: "codec \<Rightarrow> string \<Rightarrow> entry option \<Rightarrow> command_alias option \<Rightarrow> bool" where
  "alias_entry C k e a \<longleftrightarrow>
     (e = None \<and> a = None) \<or>
     (\<exists>p x. e = Some (Val p) \<and> a = Some x \<and> alias_Unmarshal C p = (x, None) \<and> al_Alias x = k)"

definition alias_bucket :: "codec \<Rightarrow> bucket option \<Rightarrow> (string \<Rightarrow> command_alias option) \<Rightarrow> bool" where
  "alias_bucket C b M \<longleftrightarrow>
     (\<forall>k. alias_entry C k (fmlookup (items (case b of Some x \<Rightarrow> x | None \<Rightarrow> empty_bucket)) k) (M k))"

definition aliases_rel :: "codec \<Rightarrow> (string list \<Rightarrow> bucket option) \<Rightarrow> alias_map \<Rightarrow> bool" where
  "aliases_rel C V A \<longleftrightarrow> only_buckets V aliasesBucketKey \<and> (\<forall>u. alias_bucket C (V [aliasesBucketKey, u]) (A u))"

definition aliases_frame :: "(string list \<Rightarrow> bucket option) \<Rightarrow> (string list \<Rightarrow> bucket option) \<Rightarrow> bool" where
  "aliases_frame V V' \<longleftrightarrow> (\<forall>p. p \<noteq> [] \<longrightarrow> hd p \<noteq> aliasesBucketKey \<longrightarrow> V' p = V p)"

text \<open>The aliases of a user, in the order of their names.\<close>

definition aliases_sorted :: "(string \<Rightarrow> command_alias option) \<Rightarrow> command_alias list" where
  "aliases_sorted M = map (\<lambda>k. the (M k)) (sorted_list_of_set (dom M))"

lemma alias_entry_simps [simp]:
  "alias_entry C k None a \<longleftrightarrow> a = None"
  "alias_entry C k (Some (Val p)) a \<longleftrightarrow> (\<exists>x. a = Some x \<and> alias_Unmarshal C p = (x, None) \<and> al_Alias x = k)"
  "\<not> alias_entry C k (Some Sub) a"
  by (auto simp: alias_entry_def)

lemma alias_bucket_Some [simp]:
  "alias_bucket C (Some b) M \<longleftrightarrow> (\<forall>k. alias_entry C k (fmlookup (items b) k) (M k))"
  by (simp add: alias_bucket_def)

lemma alias_bucket_None [simp]: "alias_bucket C None M \<longleftrightarrow> M = Map.empty"
  by (auto simp: alias_bucket_def empty_bucket_def)

lemma alias_bucket_empty [simp]: "alias_bucket C (Some empty_bucket) M \<longleftrightarrow> M = Map.empty"
  by (auto simp: empty_bucket_def)

lemma aliases_rel_empty:
  "(\<And>p. p \<noteq> [] \<Longrightarrow> hd p = aliasesBucketKey \<Longrightarrow> V p = None) \<Longrightarrow> aliases_rel C V (\<lambda>_. Map.empty)"
  by (simp add: aliases_rel_def only_buckets_def)

lemma alias_bucket_put:
  "alias_bucket C (Some b) M \<Longrightarrow> alias_Unmarshal C p = (a, None) \<Longrightarrow> al_Alias a = k \<Longrightarrow>
   alias_bucket C (Some (b\<lparr>items := fmupd k (Val p) (items b)\<rparr>)) (M(k \<mapsto> a))"
  by auto

lemma alias_bucket_drop:
  "alias_bucket C (Some b) M \<Longrightarrow> alias_bucket C (Some (b\<lparr>items := fmdrop k (items b)\<rparr>)) (M(k := None))"
  by auto

lemma alias_bucket_dom: "alias_bucket C (Some b) M \<Longrightarrow> fmdom' (items b) = dom M"
proof (rule set_eqI)
  fix k
  assume "alias_bucket C (Some b) M"
  then have "alias_entry C k (fmlookup (items b) k) (M k)" by simp
  then show "k \<in> fmdom' (items b) \<longleftrightarrow> k \<in> dom M"
    by (auto simp: fmlookup_dom'_iff alias_entry_def)
qed

text \<open>The loop of \<open>list\<close> reads every entry of the bucket.\<close>

lemma aliases_list_loop_eq:
  assumes "\<forall>k \<in> set ks. \<exists>a p. M k = Some a \<and> f k = Some (Val p) \<and> alias_Unmarshal C p = (a, None)"
  shows "aliases_list_loop C acc (map (\<lambda>k. (k, entry_value (f k))) ks) = acc @ map (\<lambda>k. the (M k)) ks"
  using assms by (induction ks arbitrary: acc) auto

context bolt_api
begin

lemma getAliasesBucket_view:
  assumes "getAliasesBucket B u d = Returns (p, d')" and "aliases_rel C (view d) A"
  shows "p = [aliasesBucketKey, u]" and "aliases_rel C (view d') A" and "aliases_frame (view d) (view d')"
    and "\<exists>b. view d' p = Some b \<and> alias_bucket C (Some b) (A u)" and "\<exists>b. view d' [aliasesBucketKey] = Some b"
proof -
  from assms(1) obtain d1 where d1: "create_bucket B d [] aliasesBucketKey = Returns d1"
    and d2: "create_bucket B d1 [aliasesBucketKey] u = Returns d'" and p: "p = [aliasesBucketKey, u]"
    by (auto simp: getAliasesBucket_def split: sum.splits)
  show "p = [aliasesBucketKey, u]" by (rule p)
  note v = nested_bucket_view [OF d1 d2]
  have ob: "only_buckets (view d) aliasesBucketKey" and ab: "\<And>w. alias_bucket C (view d [aliasesBucketKey, w]) (A w)"
    using assms(2) by (simp_all add: aliases_rel_def)
  show "\<exists>b. view d' [aliasesBucketKey] = Some b" using v(3) [OF ob] by blast
  have "alias_bucket C (view d' [aliasesBucketKey, w]) (A w)" for w
    using v(1,2) ab [of w] by (cases "w = u") (auto split: option.splits simp del: alias_bucket_Some)
  then show "aliases_rel C (view d') A"
    using v(3) [OF ob] by (auto simp: aliases_rel_def only_buckets_def)
  then show "\<exists>b. view d' p = Some b \<and> alias_bucket C (Some b) (A u)"
    using v(1) unfolding aliases_rel_def p by (metis)
  show "aliases_frame (view d) (view d')"
    by (auto simp: aliases_frame_def intro!: v(2))
qed

text \<open>Changing the bucket of one user.\<close>

lemma aliases_rel_upd:
  assumes "aliases_rel C V A" and "V' [aliasesBucketKey] = V [aliasesBucketKey]"
    and "\<And>w. w \<noteq> u \<Longrightarrow> V' [aliasesBucketKey, w] = V [aliasesBucketKey, w]"
    and "alias_bucket C (V' [aliasesBucketKey, u]) M"
  shows "aliases_rel C V' (A(u := M))"
  using assms by (auto simp: aliases_rel_def only_buckets_def)

end

context stores
begin

lemma aliases_create_rel:
  assumes rel: "aliases_rel C (view d) A" and s: "database s = Open d"
    and json: "json_alias \<lparr>al_Alias = al, al_Command = c, al_Args = args\<rparr>"
    and res: "aliases_create B C u al c args s = (Returns x, s')"
  shows "\<exists>d'. s' = s\<lparr>database := Open d'\<rparr> \<and>
    aliases_rel C (view d') (A(u := (A u)(al \<mapsto> \<lparr>al_Alias = al, al_Command = c, al_Args = args\<rparr>))) \<and>
    aliases_frame (view d) (view d')"
proof -
  let ?a = "\<lparr>al_Alias = al, al_Command = c, al_Args = args\<rparr>"
  from res s obtain p d1 aj d' where d1: "getAliasesBucket B u d = Returns (p, d1)"
    and aj: "alias_Marshal C ?a = Returns aj" and d': "bucket_put B d1 p al aj = Returns d'"
    and s': "s' = s\<lparr>database := Open d'\<rparr>"
    by (auto simp: aliases_create_def Update_open split: sum.splits option.splits prod.splits)
  note g = getAliasesBucket_view [OF d1 rel]
  from g(4) obtain b where b: "view d1 [aliasesBucketKey, u] = Some b" "alias_bucket C (Some b) (A u)"
    by (auto simp: g(1))
  note v = put_view [OF b(1) d' [unfolded g(1)]]
  have "alias_bucket C (view d' [aliasesBucketKey, u]) ((A u)(al \<mapsto> ?a))"
    using alias_bucket_put [OF b(2) alias_marshalled [OF json aj]] by (simp add: v)
  then have "aliases_rel C (view d') (A(u := (A u)(al \<mapsto> ?a)))"
    by (intro aliases_rel_upd [OF g(2)]) (simp_all add: v)
  moreover have "aliases_frame (view d) (view d')"
    using g(3) by (auto simp: aliases_frame_def v)
  ultimately show ?thesis using s' by blast
qed

lemma aliases_lookup:
  assumes "view d p = Some b" and "alias_bucket C (Some b) M"
  shows "M k = None \<Longrightarrow> bucket_get B d p k = None"
    and "M k = Some a \<Longrightarrow> \<exists>q. bucket_get B d p k = Some q \<and> alias_Unmarshal C q = (a, None) \<and> al_Alias a = k"
proof -
  have e: "alias_entry C k (fmlookup (items b) k) (M k)" using assms(2) by simp
  show "M k = None \<Longrightarrow> bucket_get B d p k = None"
    using e by (auto simp: get_view [OF assms(1)] alias_entry_def)
  show "M k = Some a \<Longrightarrow> \<exists>q. bucket_get B d p k = Some q \<and> alias_Unmarshal C q = (a, None) \<and> al_Alias a = k"
    using e by (auto simp: get_view [OF assms(1)] alias_entry_def)
qed

lemma aliases_cursor:
  assumes "view d p = Some b" and "alias_bucket C (Some b) M"
  shows "aliases_list_loop C [] (bucket_cursor B d p) = aliases_sorted M"
    and "bucket_cursor B d p = [] \<longleftrightarrow> M = Map.empty"
proof -
  have dom: "fmdom' (items b) = dom M" by (rule alias_bucket_dom [OF assms(2)])
  have fin: "finite (dom M)" unfolding dom [symmetric] by simp
  have keys: "sorted_keys b = sorted_list_of_set (dom M)"
    using sorted_sorted_keys [of b] dom by (intro sorted_list_of_set_eqI [symmetric]) simp_all
  have "\<forall>k \<in> set (sorted_keys b). \<exists>a q. M k = Some a \<and> fmlookup (items b) k = Some (Val q) \<and> alias_Unmarshal C q = (a, None)"
  proof
    fix k assume "k \<in> set (sorted_keys b)"
    then obtain a where "M k = Some a" using dom by auto
    moreover have "alias_entry C k (fmlookup (items b) k) (M k)" using assms(2) by simp
    ultimately show "\<exists>a q. M k = Some a \<and> fmlookup (items b) k = Some (Val q) \<and> alias_Unmarshal C q = (a, None)"
      by (auto simp: alias_entry_def)
  qed
  from aliases_list_loop_eq [OF this, of "[]"]
  show "aliases_list_loop C [] (bucket_cursor B d p) = aliases_sorted M"
    by (simp add: cursor_view [OF assms(1)] sorted_entries_def aliases_sorted_def keys)
  show "bucket_cursor B d p = [] \<longleftrightarrow> M = Map.empty"
    using fin by (auto simp: cursor_view [OF assms(1)] sorted_entries_def keys)
qed

text \<open>The steps of a removal: the entry goes, and with the last one the bucket of the user.\<close>

lemma deleteAliasesBucket_rel:
  assumes rel: "aliases_rel C (view d) A" and "A u = Map.empty"
    and res: "deleteAliasesBucket B u d = Returns d'"
  shows "aliases_rel C (view d') A \<and> aliases_frame (view d) (view d')"
proof -
  from res obtain d1 where d1: "create_bucket B d [] aliasesBucketKey = Returns d1"
    and d': "delete_bucket B d1 [aliasesBucketKey] u = Returns d'"
    by (auto simp: deleteAliasesBucket_def split: sum.splits)
  note c = create_root [OF d1]
  define b where "b = (case view d [aliasesBucketKey] of Some b \<Rightarrow> b | None \<Rightarrow> empty_bucket)"
  have b: "view d1 [aliasesBucketKey] = Some b" by (simp add: c(1) b_def)
  have v: "view d' = (\<lambda>q. if q = [aliasesBucketKey] then Some (b\<lparr>items := fmdrop u (items b)\<rparr>)
      else if take 2 q = [aliasesBucketKey, u] then None else view d1 q)"
    using drop_view [OF b d'] by (auto simp add: numeral_2_eq_2 cong: if_cong)
  have "\<forall>x v. fmlookup (items b) x \<noteq> Some (Val v)"
    using rel by (auto simp: b_def aliases_rel_def only_buckets_def empty_bucket_def split: option.splits)
  moreover have "alias_bucket C (view d' [aliasesBucketKey, w]) (A w)" for w
    using rel assms(2) by (cases "w = u") (simp_all add: v c(2) aliases_rel_def)
  ultimately have "aliases_rel C (view d') A"
    by (simp add: aliases_rel_def only_buckets_def v)
  moreover have "view d' q = view d q" if "q \<noteq> []" "hd q \<noteq> aliasesBucketKey" for q
  proof -
    from that have "q \<noteq> [aliasesBucketKey]" "take 2 q \<noteq> [aliasesBucketKey, u]" by (cases q; auto)+
    with that c(2) show ?thesis by (simp add: v)
  qed
  then have "aliases_frame (view d) (view d')" by (simp add: aliases_frame_def)
  ultimately show ?thesis by blast
qed

lemma aliases_frame_trans: "aliases_frame V V' \<Longrightarrow> aliases_frame V' V'' \<Longrightarrow> aliases_frame V V''"
  by (simp add: aliases_frame_def)

lemma aliases_remove_rel:
  assumes rel: "aliases_rel C (view d) A" and s: "database s = Open d"
    and res: "aliases_remove B u al s = (Returns x, s')"
  shows "\<exists>a d'. A u al = Some a \<and> s' = s\<lparr>database := Open d'\<rparr> \<and>
    aliases_rel C (view d') (A(u := (A u)(al := None))) \<and> aliases_frame (view d) (view d')"
proof -
  from res s obtain p d1 d2 d' where d1: "getAliasesBucket B u d = Returns (p, d1)"
    and k: "bucket_get B d1 p al \<noteq> None" and d2: "bucket_delete B d1 p al = Returns d2"
    and d': "d' = d2 \<or> (bucket_cursor B d2 p = [] \<and> deleteAliasesBucket B u d2 = Returns d')"
    and s': "s' = s\<lparr>database := Open d'\<rparr>"
    by (auto simp: aliases_remove_def Update_open split: sum.splits option.splits prod.splits if_splits)
  note g = getAliasesBucket_view [OF d1 rel]
  from g(4) obtain b where b: "view d1 [aliasesBucketKey, u] = Some b" "alias_bucket C (Some b) (A u)"
    by (auto simp: g(1))
  obtain a where a: "A u al = Some a"
    using k aliases_lookup(1) [OF b] by (cases "A u al") (auto simp: g(1))
  let ?M = "(A u)(al := None)"
  note v = delete_view [OF b(1) d2 [unfolded g(1)]]
  have v2: "view d2 [aliasesBucketKey, u] = Some (b\<lparr>items := fmdrop al (items b)\<rparr>)" by (simp add: v)
  note b2 = alias_bucket_drop [OF b(2), of al]
  have rel2: "aliases_rel C (view d2) (A(u := ?M))"
    using b2 by (intro aliases_rel_upd [OF g(2)]) (simp_all add: v)
  have fr2: "aliases_frame (view d) (view d2)"
    using g(3) by (auto simp: aliases_frame_def v)
  from d' show ?thesis
  proof
    assume "d' = d2"
    with a s' rel2 fr2 show ?thesis by blast
  next
    assume *: "bucket_cursor B d2 p = [] \<and> deleteAliasesBucket B u d2 = Returns d'"
    then have "?M = Map.empty" using aliases_cursor(2) [OF v2 b2] by (simp add: g(1))
    then have "aliases_rel C (view d') (A(u := ?M)) \<and> aliases_frame (view d2) (view d')"
      using * by (intro deleteAliasesBucket_rel [OF rel2, of u]) simp_all
    with a s' fr2 aliases_frame_trans show ?thesis by blast
  qed
qed

end

context stores
begin

lemma aliases_get_returns:
  assumes rel: "aliases_rel C (view d) A" and s: "database s = Open d"
    and res: "aliases_get B C u al s = (Returns (c, args), s')"
  shows "\<exists>a d'. A u al = Some a \<and> c = al_Command a \<and> args = al_Args a \<and> s' = s\<lparr>database := Open d'\<rparr> \<and>
    aliases_rel C (view d') A \<and> aliases_frame (view d) (view d')"
proof -
  from res s obtain p q a d' where d1: "getAliasesBucket B u d = Returns (p, d')"
    and q: "bucket_get B d' p al = Some q" and a: "alias_Unmarshal C q = (a, None)"
    and r: "c = al_Command a" "args = al_Args a" "s' = s\<lparr>database := Open d'\<rparr>"
    by (auto simp: aliases_get_def Update_open split: sum.splits option.splits prod.splits)
  note g = getAliasesBucket_view [OF d1 rel]
  from g(4) obtain b where b: "view d' [aliasesBucketKey, u] = Some b" "alias_bucket C (Some b) (A u)"
    by (auto simp: g(1))
  have "A u al = Some a"
    using aliases_lookup [OF b, of al] q a by (cases "A u al") (auto simp: g(1))
  with r g(2,3) show ?thesis by blast
qed

lemma aliases_list_returns:
  assumes rel: "aliases_rel C (view d) A" and s: "database s = Open d"
    and res: "aliases_list B C u s = (Returns as, s')"
  shows "\<exists>d'. as = aliases_sorted (A u) \<and> s' = s\<lparr>database := Open d'\<rparr> \<and>
    aliases_rel C (view d') A \<and> aliases_frame (view d) (view d')"
proof -
  from res s obtain p d' where d1: "getAliasesBucket B u d = Returns (p, d')"
    and as: "as = aliases_list_loop C [] (bucket_cursor B d' p)" "s' = s\<lparr>database := Open d'\<rparr>"
    by (auto simp: aliases_list_def Update_open split: sum.splits option.splits prod.splits)
  note g = getAliasesBucket_view [OF d1 rel]
  from g(4) obtain b where b: "view d' [aliasesBucketKey, u] = Some b" "alias_bucket C (Some b) (A u)"
    by (auto simp: g(1))
  with as aliases_cursor(1) [OF b] g(1-3) show ?thesis by auto
qed

end

context reliable_stores
begin

lemma getAliasesBucket_ok:
  assumes "aliases_rel C (view d) A" and "key_ok u"
  shows "\<exists>d'. getAliasesBucket B u d = Returns ([aliasesBucketKey, u], d')"
  using nested_bucket_ok [of d aliasesBucketKey u] assms
  by (auto simp: getAliasesBucket_def aliases_rel_def key_ok_def aliasesBucketKey_def)

lemma aliases_get_rel:
  assumes rel: "aliases_rel C (view d) A" and s: "database s = Open d" and u: "key_ok u"
  shows "\<exists>d'. aliases_rel C (view d') A \<and> aliases_frame (view d) (view d') \<and>
    aliases_get B C u al s =
      (case A u al of
         None \<Rightarrow> (Fails ErrAliasNotFound, s)
       | Some a \<Rightarrow> (Returns (al_Command a, al_Args a), s\<lparr>database := Open d'\<rparr>))"
proof -
  obtain d1 where d1: "getAliasesBucket B u d = Returns ([aliasesBucketKey, u], d1)"
    using getAliasesBucket_ok [OF rel u] by blast
  note g = getAliasesBucket_view [OF d1 rel]
  from g(4) obtain b where b: "view d1 [aliasesBucketKey, u] = Some b" "alias_bucket C (Some b) (A u)" by blast
  have "aliases_get B C u al s =
      (case A u al of None \<Rightarrow> (Fails ErrAliasNotFound, s)
       | Some a \<Rightarrow> (Returns (al_Command a, al_Args a), s\<lparr>database := Open d1\<rparr>))"
    using aliases_lookup [OF b, of al] d1
    by (cases "A u al") (auto simp: aliases_get_def Update_open [OF s] commit_ok)
  with g(2,3) show ?thesis by blast
qed

lemma aliases_list_rel:
  assumes rel: "aliases_rel C (view d) A" and s: "database s = Open d" and u: "key_ok u"
  shows "\<exists>d'. aliases_rel C (view d') A \<and> aliases_frame (view d) (view d') \<and>
    aliases_list B C u s = (Returns (aliases_sorted (A u)), s\<lparr>database := Open d'\<rparr>)"
proof -
  obtain d1 where d1: "getAliasesBucket B u d = Returns ([aliasesBucketKey, u], d1)"
    using getAliasesBucket_ok [OF rel u] by blast
  note g = getAliasesBucket_view [OF d1 rel]
  from g(4) obtain b where b: "view d1 [aliasesBucketKey, u] = Some b" "alias_bucket C (Some b) (A u)" by blast
  have "aliases_list B C u s = (Returns (aliases_sorted (A u)), s\<lparr>database := Open d1\<rparr>)"
    using aliases_cursor(1) [OF b] d1 by (simp add: aliases_list_def Update_open [OF s] commit_ok)
  with g(2,3) show ?thesis by blast
qed

lemma aliases_remove_ok:
  assumes rel: "aliases_rel C (view d) A" and s: "database s = Open d" and u: "key_ok u"
  shows "A u al = None \<Longrightarrow> aliases_remove B u al s = (Fails (Errorf ''alias not found''), s)"
    and "A u al = Some a \<Longrightarrow> \<exists>s'. aliases_remove B u al s = (Returns (), s')"
proof -
  obtain d1 where d1: "getAliasesBucket B u d = Returns ([aliasesBucketKey, u], d1)"
    using getAliasesBucket_ok [OF rel u] by blast
  from getAliasesBucket_view(4) [OF d1 rel] obtain b where
    b: "view d1 [aliasesBucketKey, u] = Some b" "alias_bucket C (Some b) (A u)" by blast
  show "A u al = None \<Longrightarrow> aliases_remove B u al s = (Fails (Errorf ''alias not found''), s)"
    using aliases_lookup(1) [OF b, of al] d1 by (simp add: aliases_remove_def Update_open [OF s])
  assume "A u al = Some a"
  then obtain q where q: "bucket_get B d1 [aliasesBucketKey, u] al = Some q"
    using aliases_lookup(2) [OF b] by blast
  then have "fmlookup (items b) al \<noteq> Some Sub" by (simp add: get_view [OF b(1)])
  from delete_ok [OF b(1) this] q d1
  show "\<exists>s'. aliases_remove B u al s = (Returns (), s')"
    by (auto simp: aliases_remove_def Update_open [OF s] commit_ok split: sum.splits)
qed

lemma aliases_create_ok:
  assumes rel: "aliases_rel C (view d) A" and s: "database s = Open d" and u: "key_ok u"
    and json: "json_alias \<lparr>al_Alias = al, al_Command = c, al_Args = args\<rparr>" and key: "key_ok al"
    and size: "\<And>p. alias_Marshal C \<lparr>al_Alias = al, al_Command = c, al_Args = args\<rparr> = Returns p \<Longrightarrow> value_ok p"
  shows "\<exists>s'. aliases_create B C u al c args s = (Returns (), s')"
proof -
  obtain d1 where d1: "getAliasesBucket B u d = Returns ([aliasesBucketKey, u], d1)"
    using getAliasesBucket_ok [OF rel u] by blast
  from getAliasesBucket_view(4) [OF d1 rel] obtain b where
    b: "view d1 [aliasesBucketKey, u] = Some b" "alias_bucket C (Some b) (A u)" by blast
  obtain p where p: "alias_Marshal C \<lparr>al_Alias = al, al_Command = c, al_Args = args\<rparr> = Returns p"
    using alias_roundtrip [OF json] by blast
  have "alias_entry C al (fmlookup (items b) al) (A u al)" using b(2) by simp
  then have "fmlookup (items b) al \<noteq> Some Sub" by auto
  from put_ok [OF b(1) _ key size [OF p] this] d1 p show ?thesis
    by (auto simp: aliases_create_def Update_open [OF s] commit_ok)
qed

end

end
