(* ===== verification/Tokens.thy ===== *)
theory Tokens
  imports Db Codec
begin

text \<open>
  The store of API tokens (\<^verbatim>\<open>persistence/tokens/tokens.go\<close>): one bucket from token identifiers to
  JSON. \<open>token\<close> is what \<^verbatim>\<open>uuid.New().String()\<close> gave and \<open>now\<close> what \<^verbatim>\<open>time.Now()\<close> gave. The lemmas show
  that it implements a finite map from identifiers to tokens (\<open>tokens_rel\<close>).
\<close>

section \<open>The operations\<close>

definition tokensBucketKey :: string where "tokensBucketKey = ''tokens''"

definition new_token :: "string \<Rightarrow> time \<Rightarrow> string \<Rightarrow> string \<Rightarrow> string \<Rightarrow> api_token" where
  "new_token token now userLink channelLink text =
     \<lparr>tok_TokenID = token, tok_UserLink = userLink, tok_ChannelLink = channelLink, tok_Text = text,
      tok_CreatedOn = now\<rparr>"

definition tokens_create_tx :: "'db bolt \<Rightarrow> codec \<Rightarrow> api_token \<Rightarrow> 'db \<Rightarrow> (unit \<times> 'db) result" where
  "tokens_create_tx B C t d =
     (case create_bucket B d [] tokensBucketKey of
        Inl e \<Rightarrow> Fails e
      | Inr d1 \<Rightarrow>
          (case token_Marshal C t of
             Inl e \<Rightarrow> Fails (wrap_err ''could not marshal token: '' e)
           | Inr tb \<Rightarrow>
               (case bucket_put B d1 [tokensBucketKey] (tok_TokenID t) tb of
                  Inl e \<Rightarrow> Fails e
                | Inr d2 \<Rightarrow> Returns ((), d2))))"

text \<open>The identifier is returned beside the error.\<close>

definition tokens_create :: "'db bolt \<Rightarrow> codec \<Rightarrow> string \<Rightarrow> time \<Rightarrow> string \<Rightarrow> string \<Rightarrow> string \<Rightarrow> 'db db_state \<Rightarrow>
    (string \<times> err option) \<times> 'db db_state" where
  "tokens_create B C token now userLink channelLink text s =
     (case Update B (tokens_create_tx B C (new_token token now userLink channelLink text)) s of
        (Inl e, s') \<Rightarrow> ((token, Some e), s')
      | (Inr _, s') \<Rightarrow> ((token, None), s'))"

definition tokens_get :: "'db bolt \<Rightarrow> codec \<Rightarrow> string \<Rightarrow> 'db db_state \<Rightarrow> api_token result" where
  "tokens_get B C tokenID s =
     View B (\<lambda>d.
       if \<not> bucket_exists B d [tokensBucketKey] then Fails ErrTokenNotFound
       else case bucket_get B d [tokensBucketKey] tokenID of
         None \<Rightarrow> Fails ErrTokenNotFound
       | Some payload \<Rightarrow>
           (case token_Unmarshal C payload of
              (t, Some e) \<Rightarrow> Fails e
            | (t, None) \<Rightarrow> Returns t)) s"

definition tokens_revoke :: "'db bolt \<Rightarrow> string \<Rightarrow> 'db db_state \<Rightarrow> unit result \<times> 'db db_state" where
  "tokens_revoke B tokenID =
     Update B (\<lambda>d.
       if \<not> bucket_exists B d [tokensBucketKey] then Fails ErrTokenNotFound
       else case bucket_delete B d [tokensBucketKey] tokenID of
         Inl e \<Rightarrow> Fails e
       | Inr d1 \<Rightarrow> Returns ((), d1))"

text \<open>The tokens found so far and the error, if any: \<open>find\<close> returns both.\<close>

fun tokens_find_loop :: "codec \<Rightarrow> (api_token \<Rightarrow> bool) \<Rightarrow> int \<Rightarrow> api_token list \<Rightarrow> (string \<times> string option) list \<Rightarrow>
    api_token list \<times> err option" where
  "tokens_find_loop C matcher limit tokens [] = (tokens, None)"
| "tokens_find_loop C matcher limit tokens ((k, payload) # rest) =
     (if int (length tokens) < limit then
        (case payload of
           None \<Rightarrow> (tokens, None)
         | Some p \<Rightarrow>
             (case token_Unmarshal C p of
                (t, Some e) \<Rightarrow> (tokens, Some e)
              | (t, None) \<Rightarrow>
                  tokens_find_loop C matcher limit (if matcher t then tokens @ [t] else tokens) rest))
      else (tokens, None))"

definition tokens_find :: "'db bolt \<Rightarrow> codec \<Rightarrow> api_token_filter \<Rightarrow> 'db db_state \<Rightarrow>
    api_token list \<times> err option" where
  "tokens_find B C filt s =
     (let matcher = (case tf_Match filt of None \<Rightarrow> (\<lambda>_. True) | Some m \<Rightarrow> m)
      in case View B (\<lambda>d.
           if \<not> bucket_exists B d [tokensBucketKey] then Returns ([], None)
           else Returns (tokens_find_loop C matcher (tf_Limit filt) [] (bucket_cursor B d [tokensBucketKey]))) s of
           Inl e \<Rightarrow> ([], Some e)
         | Inr r \<Rightarrow> r)"

section \<open>The store as a map\<close>

type_synonym token_map = "string \<Rightarrow> api_token option"

definition token_entry :: "codec \<Rightarrow> string \<Rightarrow> entry option \<Rightarrow> api_token option \<Rightarrow> bool" where
  "token_entry C k e t \<longleftrightarrow>
     (e = None \<and> t = None) \<or>
     (\<exists>p x. e = Some (Val p) \<and> t = Some x \<and> token_Unmarshal C p = (x, None) \<and> tok_TokenID x = k)"

definition tokens_rel :: "codec \<Rightarrow> (string list \<Rightarrow> bucket option) \<Rightarrow> token_map \<Rightarrow> bool" where
  "tokens_rel C V T \<longleftrightarrow>
     (case V [tokensBucketKey] of
        None \<Rightarrow> T = Map.empty
      | Some b \<Rightarrow> (\<forall>k. token_entry C k (fmlookup (items b) k) (T k)))"

definition tokens_frame :: "(string list \<Rightarrow> bucket option) \<Rightarrow> (string list \<Rightarrow> bucket option) \<Rightarrow> bool" where
  "tokens_frame V V' \<longleftrightarrow> (\<forall>p. p \<noteq> [] \<longrightarrow> p \<noteq> [tokensBucketKey] \<longrightarrow> V' p = V p)"

definition tokens_sorted :: "token_map \<Rightarrow> api_token list" where
  "tokens_sorted T = map (\<lambda>k. the (T k)) (sorted_list_of_set (dom T))"

lemma token_entry_simps [simp]:
  "token_entry C k None t \<longleftrightarrow> t = None"
  "token_entry C k (Some (Val p)) t \<longleftrightarrow> (\<exists>x. t = Some x \<and> token_Unmarshal C p = (x, None) \<and> tok_TokenID x = k)"
  "\<not> token_entry C k (Some Sub) t"
  by (auto simp: token_entry_def)

lemma tokens_rel_None: "V [tokensBucketKey] = None \<Longrightarrow> tokens_rel C V T \<longleftrightarrow> T = Map.empty"
  by (simp add: tokens_rel_def)

lemma tokens_rel_Some:
  "V [tokensBucketKey] = Some b \<Longrightarrow> tokens_rel C V T \<longleftrightarrow> (\<forall>k. token_entry C k (fmlookup (items b) k) (T k))"
  by (simp add: tokens_rel_def)

lemma tokens_find_loop_eq:
  assumes "\<forall>k \<in> set ks. \<exists>t p. T k = Some t \<and> f k = Some (Val p) \<and> token_Unmarshal C p = (t, None)"
  shows "tokens_find_loop C m limit acc (map (\<lambda>k. (k, entry_value (f k))) ks) =
    (acc @ take_int (limit - int (length acc)) (filter m (map (\<lambda>k. the (T k)) ks)), None)"
  using assms
proof (induction ks arbitrary: acc)
  case (Cons k ks)
  then obtain t p where t: "T k = Some t" "f k = Some (Val p)" "token_Unmarshal C p = (t, None)" by auto
  have IH: "tokens_find_loop C m limit l (map (\<lambda>k. (k, entry_value (f k))) ks) =
    (l @ take_int (limit - int (length l)) (filter m (map (\<lambda>k. the (T k)) ks)), None)" for l
    using Cons by simp
  show ?case
  proof (cases "int (length acc) < limit")
    case True
    then have "take_int (limit - int (length acc)) (t # xs) =
        t # take_int (limit - int (length (acc @ [t]))) xs" for xs
      by (simp add: take_int_Cons algebra_simps)
    with True t IH show ?thesis by simp
  qed simp
qed simp

context stores
begin

lemma tokens_create_rel:
  assumes rel: "tokens_rel C (view d) T" and s: "database s = Open d"
    and json: "json_token (new_token token now u c x)"
    and res: "tokens_create B C token now u c x s = ((i, None), s')"
  shows "i = token \<and> (\<exists>d'. s' = s\<lparr>database := Open d'\<rparr> \<and>
    tokens_rel C (view d') (T(token \<mapsto> new_token token now u c x)) \<and> tokens_frame (view d) (view d'))"
proof -
  define t where "t = new_token token now u c x"
  have ID: "tok_TokenID t = token" by (simp add: t_def new_token_def)
  from res have i: "i = token" and "Update B (tokens_create_tx B C t) s = (Returns (), s')"
    by (auto simp: tokens_create_def t_def split: prod.splits sum.splits)
  with s obtain d' where tx: "tokens_create_tx B C t d = Returns ((), d')" and s': "s' = s\<lparr>database := Open d'\<rparr>"
    by (auto elim!: Update_returns)
  from tx obtain d1 tb where d1: "create_bucket B d [] tokensBucketKey = Returns d1"
    and tb: "token_Marshal C t = Returns tb" and d': "bucket_put B d1 [tokensBucketKey] token tb = Returns d'"
    by (auto simp: tokens_create_tx_def ID split: sum.splits)
  define b where "b = (case view d [tokensBucketKey] of Some b \<Rightarrow> b | None \<Rightarrow> empty_bucket)"
  have b: "view d1 [tokensBucketKey] = Some b" using create_root(1) [OF d1] by (simp add: b_def)
  have rb: "\<forall>k. token_entry C k (fmlookup (items b) k) (T k)"
    using rel by (cases "view d [tokensBucketKey]") (simp_all add: b_def tokens_rel_def empty_bucket_def)
  note v = put_view [OF b d']
  have "tokens_rel C (view d') (T(token \<mapsto> t))"
    using rb token_marshalled [OF _ tb] json by (simp add: v tokens_rel_def t_def [symmetric] ID)
  moreover have "tokens_frame (view d) (view d')"
    using create_root(2) [OF d1] by (simp add: tokens_frame_def v)
  ultimately show ?thesis using s' i unfolding t_def by blast
qed

lemma tokens_get_rel:
  assumes rel: "tokens_rel C (view d) T" and s: "database s = Open d"
  shows "tokens_get B C i s = (case T i of None \<Rightarrow> Fails ErrTokenNotFound | Some t \<Rightarrow> Returns t)"
proof (cases "view d [tokensBucketKey]")
  case None
  with rel s show ?thesis by (simp add: tokens_get_def View_open exists_view tokens_rel_None)
next
  case (Some b)
  with rel have "token_entry C i (fmlookup (items b) i) (T i)" by (simp add: tokens_rel_Some)
  with Some s show ?thesis
    by (auto simp: tokens_get_def View_open exists_view get_view token_entry_def)
qed

lemma tokens_revoke_rel:
  assumes rel: "tokens_rel C (view d) T" and s: "database s = Open d"
    and res: "tokens_revoke B i s = (Returns u, s')"
  shows "\<exists>d'. s' = s\<lparr>database := Open d'\<rparr> \<and> tokens_rel C (view d') (T(i := None)) \<and>
    tokens_frame (view d) (view d')"
proof -
  from res s obtain b d' where b: "view d [tokensBucketKey] = Some b"
    and d': "bucket_delete B d [tokensBucketKey] i = Returns d'" and s': "s' = s\<lparr>database := Open d'\<rparr>"
    by (auto simp: tokens_revoke_def Update_open exists_view split: sum.splits option.splits if_splits)
  note v = delete_view [OF b d']
  have "tokens_rel C (view d') (T(i := None))"
    using rel b by (simp add: v tokens_rel_def)
  with s' show ?thesis by (auto simp: tokens_frame_def v)
qed

lemma tokens_find_rel:
  assumes rel: "tokens_rel C (view d) T" and s: "database s = Open d"
  shows "tokens_find B C filt s =
    (take_int (tf_Limit filt)
      (filter (case tf_Match filt of None \<Rightarrow> (\<lambda>_. True) | Some m \<Rightarrow> m) (tokens_sorted T)), None)"
proof (cases "view d [tokensBucketKey]")
  case None
  with rel s show ?thesis
    by (simp add: tokens_find_def View_open exists_view tokens_rel_None tokens_sorted_def)
next
  case (Some b)
  let ?m = "case tf_Match filt of None \<Rightarrow> (\<lambda>_. True) | Some m \<Rightarrow> m"
  have e: "\<And>k. token_entry C k (fmlookup (items b) k) (T k)" using rel Some by (simp add: tokens_rel_Some)
  have dom: "fmdom' (items b) = dom T"
  proof (rule set_eqI)
    fix k show "k \<in> fmdom' (items b) \<longleftrightarrow> k \<in> dom T"
      using e [of k] by (auto simp: fmlookup_dom'_iff token_entry_def)
  qed
  have keys: "sorted_keys b = sorted_list_of_set (dom T)"
    using sorted_sorted_keys [of b] dom by (intro sorted_list_of_set_eqI [symmetric]) simp_all
  have "\<forall>k \<in> set (sorted_keys b). \<exists>t p. T k = Some t \<and> fmlookup (items b) k = Some (Val p) \<and>
      token_Unmarshal C p = (t, None)"
  proof
    fix k assume "k \<in> set (sorted_keys b)"
    then obtain t where "T k = Some t" using dom by auto
    with e [of k] show "\<exists>t p. T k = Some t \<and> fmlookup (items b) k = Some (Val p) \<and>
      token_Unmarshal C p = (t, None)"
      by (auto simp: token_entry_def)
  qed
  from tokens_find_loop_eq [OF this, of ?m "tf_Limit filt" "[]"] show ?thesis
    using s Some by (simp add: tokens_find_def View_open exists_view cursor_view [OF Some]
      sorted_entries_def keys tokens_sorted_def)
qed

end

context reliable_stores
begin

lemma tokens_create_ok:
  assumes rel: "tokens_rel C (view d) T" and s: "database s = Open d" and key: "key_ok token"
    and json: "json_token (new_token token now u c x)"
    and size: "\<And>p. token_Marshal C (new_token token now u c x) = Returns p \<Longrightarrow> value_ok p"
  shows "\<exists>s'. tokens_create B C token now u c x s = ((token, None), s')"
proof -
  let ?t = "new_token token now u c x"
  have ID: "tok_TokenID ?t = token" by (simp add: new_token_def)
  obtain d1 where d1: "create_bucket B d [] tokensBucketKey = Returns d1"
    using create_root_ok [of tokensBucketKey] by (fastforce simp: key_ok_def tokensBucketKey_def)
  define b where "b = (case view d [tokensBucketKey] of Some b \<Rightarrow> b | None \<Rightarrow> empty_bucket)"
  have b: "view d1 [tokensBucketKey] = Some b" using create_root(1) [OF d1] by (simp add: b_def)
  have "token_entry C token (fmlookup (items b) token) (T token)"
    using rel by (cases "view d [tokensBucketKey]") (simp_all add: b_def tokens_rel_def empty_bucket_def)
  then have "fmlookup (items b) token \<noteq> Some Sub" by auto
  moreover obtain p where p: "token_Marshal C ?t = Returns p" using token_roundtrip [OF json] by blast
  ultimately obtain d2 where "bucket_put B d1 [tokensBucketKey] token p = Returns d2"
    using put_ok [OF b _ key size [OF p]] by auto
  with d1 p show ?thesis
    by (simp add: tokens_create_def tokens_create_tx_def ID Update_open [OF s] commit_ok)
qed

lemma tokens_revoke_ok:
  assumes rel: "tokens_rel C (view d) T" and s: "database s = Open d"
  shows "tokens_revoke B i s = (Fails ErrTokenNotFound, s) \<and> view d [tokensBucketKey] = None \<and> T = Map.empty \<or>
    (\<exists>s'. tokens_revoke B i s = (Returns (), s'))"
proof (cases "view d [tokensBucketKey]")
  case None
  with rel s show ?thesis by (simp add: tokens_revoke_def Update_open exists_view tokens_rel_None)
next
  case (Some b)
  with rel have "token_entry C i (fmlookup (items b) i) (T i)" by (simp add: tokens_rel_Some)
  then have "fmlookup (items b) i \<noteq> Some Sub" by auto
  from delete_ok [OF Some this] Some show ?thesis
    by (auto simp: tokens_revoke_def Update_open [OF s] exists_view commit_ok)
qed

end

end
