(* ===== verification/Persistence.thy ===== *)
theory Persistence
  imports Jobs Logs Aliases Tokens
begin

text \<open>
  The service registry of package \<^verbatim>\<open>persistence\<close> and the service interfaces of
  \<^verbatim>\<open>meeseeks/meeseeks.go\<close>. A service is a record of operations over the state of the world \<open>'w\<close>; the
  local services run the stores over a world that holds the database handle, the clock and the
  source of identifiers. Each interface is a locale that states what a client may rely on, over an
  abstract view of the world; the local services are shown to meet them.
\<close>

section \<open>The interfaces\<close>

record 'w jobs_service =
  js_Get :: "u64 \<Rightarrow> 'w \<Rightarrow> job result \<times> 'w"
  js_Null :: "request \<Rightarrow> 'w \<Rightarrow> job \<times> 'w"
  js_Create :: "request \<Rightarrow> 'w \<Rightarrow> job result \<times> 'w"
  js_Fail :: "u64 \<Rightarrow> 'w \<Rightarrow> unit result \<times> 'w"
  js_Succeed :: "u64 \<Rightarrow> 'w \<Rightarrow> unit result \<times> 'w"
  js_Find :: "job_filter \<Rightarrow> 'w \<Rightarrow> job list result \<times> 'w"
  js_FailRunningJobs :: "'w \<Rightarrow> unit result \<times> 'w"

record 'w log_reader =
  lr_Get :: "u64 \<Rightarrow> 'w \<Rightarrow> job_log result \<times> 'w"
  lr_Head :: "u64 \<Rightarrow> int \<Rightarrow> 'w \<Rightarrow> job_log result \<times> 'w"
  lr_Tail :: "u64 \<Rightarrow> int \<Rightarrow> 'w \<Rightarrow> job_log result \<times> 'w"

record 'w log_writer =
  lw_Append :: "u64 \<Rightarrow> string \<Rightarrow> 'w \<Rightarrow> unit result \<times> 'w"
  lw_SetError :: "u64 \<Rightarrow> err option \<Rightarrow> 'w \<Rightarrow> unit result \<times> 'w"

record 'w aliases_service =
  as_Get :: "string \<Rightarrow> string \<Rightarrow> 'w \<Rightarrow> (string \<times> string list) result \<times> 'w"
  as_List :: "string \<Rightarrow> 'w \<Rightarrow> command_alias list result \<times> 'w"
  as_Create :: "string \<Rightarrow> string \<Rightarrow> string \<Rightarrow> string list \<Rightarrow> 'w \<Rightarrow> unit result \<times> 'w"
  as_Remove :: "string \<Rightarrow> string \<Rightarrow> 'w \<Rightarrow> unit result \<times> 'w"

record 'w tokens_service =
  ts_Create :: "string \<Rightarrow> string \<Rightarrow> string \<Rightarrow> 'w \<Rightarrow> (string \<times> err option) \<times> 'w"
  ts_Get :: "string \<Rightarrow> 'w \<Rightarrow> api_token result \<times> 'w"
  ts_Revoke :: "string \<Rightarrow> 'w \<Rightarrow> unit result \<times> 'w"
  ts_Find :: "api_token_filter \<Rightarrow> 'w \<Rightarrow> (api_token list \<times> err option) \<times> 'w"

section \<open>The registry\<close>

text \<open>A nil field of the struct that \<open>Register\<close> gets is \<open>None\<close>; the registry itself is filled by \<open>init\<close>.\<close>

record 'w providers =
  pv_Aliases :: "'w aliases_service"
  pv_Jobs :: "'w jobs_service"
  pv_APITokens :: "'w tokens_service"
  pv_LogReader :: "'w log_reader"
  pv_LogWriter :: "'w log_writer"

record 'w proposed_providers =
  pp_Aliases :: "'w aliases_service option"
  pp_Jobs :: "'w jobs_service option"
  pp_APITokens :: "'w tokens_service option"
  pp_LogReader :: "'w log_reader option"
  pp_LogWriter :: "'w log_writer option"

definition Register_providers :: "'w proposed_providers \<Rightarrow> 'w providers \<Rightarrow> 'w providers" where
  "Register_providers proposed p =
     (let p1 = (case pp_Jobs proposed of None \<Rightarrow> p | Some j \<Rightarrow> p\<lparr>pv_Jobs := j\<rparr>);
          p2 = (case pp_LogReader proposed of None \<Rightarrow> p1 | Some r \<Rightarrow> p1\<lparr>pv_LogReader := r\<rparr>)
      in case pp_LogWriter proposed of None \<Rightarrow> p2 | Some w \<Rightarrow> p2\<lparr>pv_LogWriter := w\<rparr>)"

section \<open>The local services\<close>

text \<open>
  \<open>wd_clock\<close> and \<open>wd_uuid\<close> are the values the clock and the generator of identifiers will give,
  read from position \<open>wd_tick\<close> on.
\<close>

record 'db world =
  wd_db :: "'db db_state"
  wd_clock :: "nat \<Rightarrow> time"
  wd_uuid :: "nat \<Rightarrow> string"
  wd_tick :: nat

definition tick :: "'db world \<Rightarrow> 'db world" where
  "tick w = w\<lparr>wd_tick := Suc (wd_tick w)\<rparr>"

abbreviation now_of :: "'db world \<Rightarrow> time" where
  "now_of w \<equiv> wd_clock w (wd_tick w)"

text \<open>Running a store operation in the world, one that writes and one that only reads.\<close>

definition with_db :: "('db db_state \<Rightarrow> 'a \<times> 'db db_state) \<Rightarrow> 'db world \<Rightarrow> 'a \<times> 'db world" where
  "with_db f w = (case f (wd_db w) of (r, s') \<Rightarrow> (r, (tick w)\<lparr>wd_db := s'\<rparr>))"

definition reading_db :: "('db db_state \<Rightarrow> 'a) \<Rightarrow> 'db world \<Rightarrow> 'a \<times> 'db world" where
  "reading_db f w = (f (wd_db w), w)"

definition local_jobs :: "'db bolt \<Rightarrow> codec \<Rightarrow> 'db world jobs_service" where
  "local_jobs B C = \<lparr>
     js_Get = (\<lambda>i. reading_db (jobs_get B C i)),
     js_Null = (\<lambda>r w. (jobs_null (now_of w) r, tick w)),
     js_Create = (\<lambda>r w. with_db (jobs_create B C (now_of w) r) w),
     js_Fail = (\<lambda>i w. with_db (jobs_Fail B C (now_of w) i) w),
     js_Succeed = (\<lambda>i w. with_db (jobs_Succeed B C (now_of w) i) w),
     js_Find = (\<lambda>f. reading_db (jobs_find B C f)),
     js_FailRunningJobs = (\<lambda>w. with_db (jobs_failRunning B C (\<lambda>i. wd_clock w (wd_tick w + unat i))) w)\<rparr>"

definition local_log_reader :: "'db bolt \<Rightarrow> 'db world log_reader" where
  "local_log_reader B = \<lparr>
     lr_Get = (\<lambda>i. reading_db (logs_Get B i)),
     lr_Head = (\<lambda>i n. reading_db (logs_Head B i n)),
     lr_Tail = (\<lambda>i n. reading_db (logs_Tail B i n))\<rparr>"

definition local_log_writer :: "'db bolt \<Rightarrow> 'db world log_writer" where
  "local_log_writer B = \<lparr>
     lw_Append = (\<lambda>i c. with_db (logs_Append B i c)),
     lw_SetError = (\<lambda>i e. with_db (logs_SetError B i e))\<rparr>"

definition local_aliases :: "'db bolt \<Rightarrow> codec \<Rightarrow> 'db world aliases_service" where
  "local_aliases B C = \<lparr>
     as_Get = (\<lambda>u a. with_db (aliases_get B C u a)),
     as_List = (\<lambda>u. with_db (aliases_list B C u)),
     as_Create = (\<lambda>u a c args. with_db (aliases_create B C u a c args)),
     as_Remove = (\<lambda>u a. with_db (aliases_remove B u a))\<rparr>"

definition local_tokens :: "'db bolt \<Rightarrow> codec \<Rightarrow> 'db world tokens_service" where
  "local_tokens B C = \<lparr>
     ts_Create = (\<lambda>u c t w. with_db (tokens_create B C (wd_uuid w (wd_tick w)) (now_of w) u c t) w),
     ts_Get = (\<lambda>i. reading_db (tokens_get B C i)),
     ts_Revoke = (\<lambda>i. with_db (tokens_revoke B i)),
     ts_Find = (\<lambda>f. reading_db (tokens_find B C f))\<rparr>"

definition local_providers :: "'db bolt \<Rightarrow> codec \<Rightarrow> 'db world providers" where
  "local_providers B C = \<lparr>
     pv_Aliases = local_aliases B C, pv_Jobs = local_jobs B C, pv_APITokens = local_tokens B C,
     pv_LogReader = local_log_reader B, pv_LogWriter = local_log_writer B\<rparr>"

section \<open>Stores that share the database\<close>

text \<open>What the four stores hold, and the relation between it and the world.\<close>

record stored =
  st_jobs :: job_map
  st_logs :: log_map
  st_aliases :: alias_map
  st_tokens :: token_map

definition nothing_stored :: stored where
  "nothing_stored =
     \<lparr>st_jobs = Map.empty, st_logs = Map.empty, st_aliases = (\<lambda>_. Map.empty), st_tokens = Map.empty\<rparr>"

definition stored_rel :: "codec \<Rightarrow> buckets \<Rightarrow> stored \<Rightarrow> bool" where
  "stored_rel C V a \<longleftrightarrow>
     jobs_rel C V (st_jobs a) \<and> logs_rel V (st_logs a) \<and> aliases_rel C V (st_aliases a) \<and>
     tokens_rel C V (st_tokens a)"

definition world_rel :: "codec \<Rightarrow> 'db view \<Rightarrow> 'db world \<Rightarrow> stored \<Rightarrow> bool" where
  "world_rel C view w a \<longleftrightarrow>
     (\<forall>n. json_time (wd_clock w n) \<and> valid_utf8 (wd_uuid w n)) \<and>
     (\<exists>d. database (wd_db w) = Open d \<and> stored_rel C (view d) a)"

definition job_room :: "'db view \<Rightarrow> 'db world \<Rightarrow> bool" where
  "job_room view w \<longleftrightarrow> (\<forall>d. database (wd_db w) = Open d \<longrightarrow> next_job_id (view d) \<noteq> 0)"

lemmas bucket_names = jobs_keys logsBucketKey_def aliasesBucketKey_def tokensBucketKey_def

lemma jobs_rel_cong:
  "V' [jobsBucketKey] = V [jobsBucketKey] \<Longrightarrow> V' [runningJobsBucketKey] = V [runningJobsBucketKey] \<Longrightarrow>
   jobs_rel C V J \<Longrightarrow> jobs_rel C V' J"
  by (simp add: jobs_rel_def job_part_def run_part_def bucket_at_def)

lemma logs_rel_cong:
  assumes "\<And>p. p \<noteq> [] \<Longrightarrow> hd p = logsBucketKey \<Longrightarrow> V' p = V p" and "logs_rel V L"
  shows "logs_rel V' L"
proof -
  have "log_at V' i = log_at V i" for i by (rule log_at_cong) (simp_all add: assms(1))
  with assms(2) show ?thesis by (simp add: logs_rel_def assms(1))
qed

lemma aliases_rel_cong:
  assumes "\<And>p. p \<noteq> [] \<Longrightarrow> hd p = aliasesBucketKey \<Longrightarrow> V' p = V p" and "aliases_rel C V A"
  shows "aliases_rel C V' A"
  using assms(2) by (simp add: aliases_rel_def only_buckets_def assms(1))

lemma tokens_rel_cong:
  "V' [tokensBucketKey] = V [tokensBucketKey] \<Longrightarrow> tokens_rel C V T \<Longrightarrow> tokens_rel C V' T"
  by (simp add: tokens_rel_def)

text \<open>Each store writes below its own buckets only.\<close>

lemma stored_rel_jobs:
  assumes "stored_rel C V a" and "jobs_rel C V' J" and "jobs_frame V V'"
  shows "stored_rel C V' (a\<lparr>st_jobs := J\<rparr>)"
proof -
  have same: "V' p = V p" if "p \<noteq> []" "p \<noteq> [jobsBucketKey]" "p \<noteq> [runningJobsBucketKey]" for p
    using assms(3) that by (simp add: jobs_frame_def)
  have "logs_rel V' (st_logs a)"
    by (rule logs_rel_cong [of V' V, OF same]) (use assms(1) in \<open>auto simp: stored_rel_def bucket_names\<close>)
  moreover have "aliases_rel C V' (st_aliases a)"
    by (rule aliases_rel_cong [of V' V, OF same]) (use assms(1) in \<open>auto simp: stored_rel_def bucket_names\<close>)
  moreover have "tokens_rel C V' (st_tokens a)"
    by (rule tokens_rel_cong [of V' V, OF same]) (use assms(1) in \<open>auto simp: stored_rel_def bucket_names\<close>)
  ultimately show ?thesis using assms(2) by (simp add: stored_rel_def)
qed

lemma stored_rel_logs:
  assumes "stored_rel C V a" and "logs_rel V' L" and "logs_frame V V'"
  shows "stored_rel C V' (a\<lparr>st_logs := L\<rparr>)"
proof -
  have same: "V' p = V p" if "p \<noteq> []" "hd p \<noteq> logsBucketKey" for p
    using assms(3) that by (simp add: logs_frame_def)
  have "jobs_rel C V' (st_jobs a)"
    by (rule jobs_rel_cong [of V' V, OF same same]) (use assms(1) in \<open>auto simp: stored_rel_def bucket_names\<close>)
  moreover have "aliases_rel C V' (st_aliases a)"
    by (rule aliases_rel_cong [of V' V, OF same]) (use assms(1) in \<open>auto simp: stored_rel_def bucket_names\<close>)
  moreover have "tokens_rel C V' (st_tokens a)"
    by (rule tokens_rel_cong [of V' V, OF same]) (use assms(1) in \<open>auto simp: stored_rel_def bucket_names\<close>)
  ultimately show ?thesis using assms(2) by (simp add: stored_rel_def)
qed

lemma stored_rel_aliases:
  assumes "stored_rel C V a" and "aliases_rel C V' A" and "aliases_frame V V'"
  shows "stored_rel C V' (a\<lparr>st_aliases := A\<rparr>)"
proof -
  have same: "V' p = V p" if "p \<noteq> []" "hd p \<noteq> aliasesBucketKey" for p
    using assms(3) that by (simp add: aliases_frame_def)
  have "jobs_rel C V' (st_jobs a)"
    by (rule jobs_rel_cong [of V' V, OF same same]) (use assms(1) in \<open>auto simp: stored_rel_def bucket_names\<close>)
  moreover have "logs_rel V' (st_logs a)"
    by (rule logs_rel_cong [of V' V, OF same]) (use assms(1) in \<open>auto simp: stored_rel_def bucket_names\<close>)
  moreover have "tokens_rel C V' (st_tokens a)"
    by (rule tokens_rel_cong [of V' V, OF same]) (use assms(1) in \<open>auto simp: stored_rel_def bucket_names\<close>)
  ultimately show ?thesis using assms(2) by (simp add: stored_rel_def)
qed

lemma stored_rel_tokens:
  assumes "stored_rel C V a" and "tokens_rel C V' T" and "tokens_frame V V'"
  shows "stored_rel C V' (a\<lparr>st_tokens := T\<rparr>)"
proof -
  have same: "V' p = V p" if "p \<noteq> []" "p \<noteq> [tokensBucketKey]" for p
    using assms(3) that by (simp add: tokens_frame_def)
  have "jobs_rel C V' (st_jobs a)"
    by (rule jobs_rel_cong [of V' V, OF same same]) (use assms(1) in \<open>auto simp: stored_rel_def bucket_names\<close>)
  moreover have "logs_rel V' (st_logs a)"
    by (rule logs_rel_cong [of V' V, OF same]) (use assms(1) in \<open>auto simp: stored_rel_def bucket_names\<close>)
  moreover have "aliases_rel C V' (st_aliases a)"
    by (rule aliases_rel_cong [of V' V, OF same]) (use assms(1) in \<open>auto simp: stored_rel_def bucket_names\<close>)
  ultimately show ?thesis using assms(2) by (simp add: stored_rel_def)
qed

lemma stored_rel_empty:
  "(\<And>p. p \<noteq> [] \<Longrightarrow> V p = None) \<Longrightarrow> stored_rel C V nothing_stored"
  by (simp add: stored_rel_def nothing_stored_def jobs_rel_empty logs_rel_empty aliases_rel_empty
      tokens_rel_None)

section \<open>What clients rely on\<close>

text \<open>
  \<open>holds w a\<close> says that the world \<open>w\<close> stores \<open>a\<close>; \<open>room w\<close> that an identifier is left for another job.
\<close>

locale job_service =
  fixes S :: "'w jobs_service" and holds :: "'w \<Rightarrow> stored \<Rightarrow> bool" and room :: "'w \<Rightarrow> bool"
  assumes get_job: "holds w a \<Longrightarrow> js_Get S i w =
      (case st_jobs a i of None \<Rightarrow> Fails ErrNoJobWithID | Some j \<Rightarrow> Returns j, w)"
    and null_job: "holds w a \<Longrightarrow> js_Null S r w = (j, w') \<Longrightarrow>
      holds w' a \<and> job_ID j = 0 \<and> job_Request j = r \<and> job_Status j = JobRunningStatus"
    and create_job: "holds w a \<Longrightarrow> room w \<Longrightarrow> json_request r \<Longrightarrow> js_Create S r w = (Returns j, w') \<Longrightarrow>
      holds w' (a\<lparr>st_jobs := (st_jobs a)(job_ID j \<mapsto> j)\<rparr>) \<and> st_jobs a (job_ID j) = None \<and> job_ID j \<noteq> 0 \<and>
      (\<forall>i \<in> dom (st_jobs a). i < job_ID j) \<and> job_Request j = r \<and> job_Status j = JobRunningStatus"
    and create_fails: "holds w a \<Longrightarrow> js_Create S r w = (Fails e, w') \<Longrightarrow> holds w' a"
    and succeed_job: "holds w a \<Longrightarrow> js_Succeed S i w = (Returns u, w') \<Longrightarrow>
      \<exists>j t. st_jobs a i = Some j \<and> job_Status j = JobRunningStatus \<and>
        holds w' (a\<lparr>st_jobs := (st_jobs a)(i \<mapsto> j\<lparr>job_EndTime := t, job_Status := JobSuccessStatus\<rparr>)\<rparr>)"
    and fail_job: "holds w a \<Longrightarrow> js_Fail S i w = (Returns u, w') \<Longrightarrow>
      \<exists>j t. st_jobs a i = Some j \<and> job_Status j = JobRunningStatus \<and>
        holds w' (a\<lparr>st_jobs := (st_jobs a)(i \<mapsto> j\<lparr>job_EndTime := t, job_Status := JobFailedStatus\<rparr>)\<rparr>)"
    and finish_fails: "holds w a \<Longrightarrow> js_Succeed S i w = (Fails e, w') \<Longrightarrow> holds w' a"
      "holds w a \<Longrightarrow> js_Fail S i w = (Fails e, w') \<Longrightarrow> holds w' a"
    and finish_rejected: "holds w a \<Longrightarrow> i \<notin> running (st_jobs a) \<Longrightarrow> \<exists>e w'. js_Succeed S i w = (Fails e, w') \<and> holds w' a"
      "holds w a \<Longrightarrow> i \<notin> running (st_jobs a) \<Longrightarrow> \<exists>e w'. js_Fail S i w = (Fails e, w') \<and> holds w' a"
    and find_jobs: "holds w a \<Longrightarrow> js_Find S f w =
      (Returns (take_int (jf_Limit f)
        (filter (case jf_Match f of None \<Rightarrow> (\<lambda>_. True) | Some m \<Rightarrow> m) (jobs_newest_first (st_jobs a)))), w)"
    and kill_running: "holds w a \<Longrightarrow> js_FailRunningJobs S w = (Returns u, w') \<Longrightarrow>
      \<exists>t. holds w' (a\<lparr>st_jobs := kill_all t (running (st_jobs a)) (st_jobs a)\<rparr>)"
    and kill_fails: "holds w a \<Longrightarrow> js_FailRunningJobs S w = (Fails e, w') \<Longrightarrow> holds w' a"
    and job_ids: "holds w a \<Longrightarrow> st_jobs a i = Some j \<Longrightarrow> job_ID j = i \<and> i \<noteq> 0"

locale log_service =
  fixes R :: "'w log_reader" and W :: "'w log_writer" and holds :: "'w \<Rightarrow> stored \<Rightarrow> bool"
  assumes get_log: "holds w a \<Longrightarrow> lr_Get R i w =
      (case st_logs a i of None \<Rightarrow> Fails ErrNoLogsForJob
       | Some (lines, e) \<Rightarrow> Returns \<lparr>jl_Error = (case e of None \<Rightarrow> [] | Some t \<Rightarrow> t),
           jl_Output = strings_join [CHR 0x0A] lines\<rparr>, w)"
    and head_log: "holds w a \<Longrightarrow> lr_Head R i n w =
      (case st_logs a i of None \<Rightarrow> Fails ErrNoLogsForJob
       | Some (lines, e) \<Rightarrow> Returns \<lparr>jl_Error = (case e of None \<Rightarrow> [] | Some t \<Rightarrow> t),
           jl_Output = strings_join [CHR 0x0A] (take_int n lines)\<rparr>, w)"
    and tail_log: "holds w a \<Longrightarrow> lr_Tail R i n w =
      (case st_logs a i of None \<Rightarrow> Fails ErrNoLogsForJob
       | Some (lines, None) \<Rightarrow> Returns \<lparr>jl_Error = [],
           jl_Output = strings_join [CHR 0x0A] (rev (take_int n (rev lines)))\<rparr>
       | Some (lines, Some t) \<Rightarrow> Returns \<lparr>jl_Error = t, jl_Output = []\<rparr>, w)"
    and append_log: "holds w a \<Longrightarrow> c \<noteq> [] \<Longrightarrow> Suc (length (fst (log_of (st_logs a) i))) < max_lines \<Longrightarrow>
      lw_Append W i c w = (Returns u, w') \<Longrightarrow>
      holds w' (a\<lparr>st_logs := (st_logs a)(i \<mapsto> (fst (log_of (st_logs a) i) @ [c], snd (log_of (st_logs a) i)))\<rparr>)"
    and append_nothing: "holds w a \<Longrightarrow> \<exists>w'. lw_Append W i [] w = (Returns (), w') \<and> holds w' a"
    and append_fails: "holds w a \<Longrightarrow> lw_Append W i c w = (Fails e, w') \<Longrightarrow> holds w' a"
    and set_error: "holds w a \<Longrightarrow> lw_SetError W i (Some t) w = (Returns u, w') \<Longrightarrow>
      holds w' (a\<lparr>st_logs := (st_logs a)(i \<mapsto> (fst (log_of (st_logs a) i), Some (err_text t)))\<rparr>)"
    and set_no_error: "holds w a \<Longrightarrow> \<exists>w'. lw_SetError W i None w = (Returns (), w') \<and> holds w' a"
    and set_error_fails: "holds w a \<Longrightarrow> lw_SetError W i x w = (Fails e, w') \<Longrightarrow> holds w' a"

locale alias_service =
  fixes S :: "'w aliases_service" and holds :: "'w \<Rightarrow> stored \<Rightarrow> bool"
  assumes get_alias: "holds w a \<Longrightarrow> as_Get S u n w = (Returns (c, args), w') \<Longrightarrow>
      holds w' a \<and> (\<exists>x. st_aliases a u n = Some x \<and> c = al_Command x \<and> args = al_Args x)"
    and get_alias_fails: "holds w a \<Longrightarrow> as_Get S u n w = (Fails e, w') \<Longrightarrow> holds w' a"
    and list_aliases: "holds w a \<Longrightarrow> as_List S u w = (Returns as, w') \<Longrightarrow>
      holds w' a \<and> as = aliases_sorted (st_aliases a u)"
    and list_aliases_fails: "holds w a \<Longrightarrow> as_List S u w = (Fails e, w') \<Longrightarrow> holds w' a"
    and create_alias: "holds w a \<Longrightarrow> json_alias \<lparr>al_Alias = n, al_Command = c, al_Args = args\<rparr> \<Longrightarrow>
      as_Create S u n c args w = (Returns x, w') \<Longrightarrow>
      holds w' (a\<lparr>st_aliases := (st_aliases a)(u := (st_aliases a u)
        (n \<mapsto> \<lparr>al_Alias = n, al_Command = c, al_Args = args\<rparr>))\<rparr>)"
    and create_alias_fails: "holds w a \<Longrightarrow> as_Create S u n c args w = (Fails e, w') \<Longrightarrow> holds w' a"
    and remove_alias: "holds w a \<Longrightarrow> as_Remove S u n w = (Returns x, w') \<Longrightarrow>
      st_aliases a u n \<noteq> None \<and> holds w' (a\<lparr>st_aliases := (st_aliases a)(u := (st_aliases a u)(n := None))\<rparr>)"
    and remove_alias_fails: "holds w a \<Longrightarrow> as_Remove S u n w = (Fails e, w') \<Longrightarrow> holds w' a"

locale token_service =
  fixes S :: "'w tokens_service" and holds :: "'w \<Rightarrow> stored \<Rightarrow> bool"
  assumes create_token: "holds w a \<Longrightarrow> list_all valid_utf8 [u, c, x] \<Longrightarrow>
      ts_Create S u c x w = ((i, None), w') \<Longrightarrow>
      \<exists>now. holds w' (a\<lparr>st_tokens := (st_tokens a)(i \<mapsto> new_token i now u c x)\<rparr>)"
    and create_token_fails: "holds w a \<Longrightarrow> ts_Create S u c x w = ((i, Some e), w') \<Longrightarrow> holds w' a"
    and get_token: "holds w a \<Longrightarrow> ts_Get S i w =
      (case st_tokens a i of None \<Rightarrow> Fails ErrTokenNotFound | Some t \<Rightarrow> Returns t, w)"
    and revoke_token: "holds w a \<Longrightarrow> ts_Revoke S i w = (Returns y, w') \<Longrightarrow>
      holds w' (a\<lparr>st_tokens := (st_tokens a)(i := None)\<rparr>)"
    and revoke_token_fails: "holds w a \<Longrightarrow> ts_Revoke S i w = (Fails e, w') \<Longrightarrow> holds w' a"
    and find_tokens: "holds w a \<Longrightarrow> ts_Find S f w =
      ((take_int (tf_Limit f)
        (filter (case tf_Match f of None \<Rightarrow> (\<lambda>_. True) | Some m \<Rightarrow> m) (tokens_sorted (st_tokens a))), None), w)"

locale services =
  job_service "pv_Jobs P" holds room + log_service "pv_LogReader P" "pv_LogWriter P" holds +
  alias_service "pv_Aliases P" holds + token_service "pv_APITokens P" holds
  for P :: "'w providers" and holds :: "'w \<Rightarrow> stored \<Rightarrow> bool" and room :: "'w \<Rightarrow> bool"

section \<open>The local services keep their promises\<close>

lemma world_rel_open:
  assumes "world_rel C view w a"
  obtains d where "database (wd_db w) = Open d" "stored_rel C (view d) a"
    "\<And>n. json_time (wd_clock w n)" "\<And>n. valid_utf8 (wd_uuid w n)"
  using assms by (auto simp: world_rel_def)

lemma world_rel_aliases:
  assumes "world_rel C view w a"
  obtains d where "database (wd_db w) = Open d" "aliases_rel C (view d) (st_aliases a)"
  using assms by (auto simp: world_rel_def stored_rel_def)

lemma world_rel_next:
  "world_rel C view w a \<Longrightarrow> stored_rel C (view d) a' \<Longrightarrow>
   world_rel C view ((tick w)\<lparr>wd_db := (wd_db w)\<lparr>database := Open d\<rparr>\<rparr>) a'"
  by (auto simp: world_rel_def tick_def)

lemma world_rel_tick: "world_rel C view w a \<Longrightarrow> world_rel C view (tick w) a"
  by (simp add: world_rel_def tick_def)

lemma world_rel_same: "world_rel C view w a \<Longrightarrow> world_rel C view ((tick w)\<lparr>wd_db := wd_db w\<rparr>) a"
  by (simp add: world_rel_def tick_def)

text \<open>A failed update leaves the store alone.\<close>

lemma with_db_fails:
  assumes "world_rel C view w a" and "with_db f w = (r, w')" and "\<And>s'. f (wd_db w) = (r, s') \<Longrightarrow> s' = wd_db w"
  shows "world_rel C view w' a"
  using assms by (auto simp: with_db_def split: prod.splits intro: world_rel_same)

lemma jobs_create_fails: "jobs_create B C now r s = (Fails e, s') \<Longrightarrow> s' = s"
  by (auto simp: jobs_create_def split: sum.splits prod.splits dest: Update_fails)

lemma tokens_create_fails: "tokens_create B C t now u c x s = ((i, Some e), s') \<Longrightarrow> s' = s"
  by (auto simp: tokens_create_def split: sum.splits prod.splits dest: Update_fails)

context stores
begin

lemma local_create_job:
  assumes h: "world_rel C view w a" and room: "job_room view w" and r: "json_request r"
    and res: "js_Create (local_jobs B C) r w = (Returns j, w')"
  shows "world_rel C view w' (a\<lparr>st_jobs := (st_jobs a)(job_ID j \<mapsto> j)\<rparr>) \<and> st_jobs a (job_ID j) = None \<and>
    job_ID j \<noteq> 0 \<and> (\<forall>i \<in> dom (st_jobs a). i < job_ID j) \<and> job_Request j = r \<and> job_Status j = JobRunningStatus"
proof -
  obtain d where d: "database (wd_db w) = Open d" "stored_rel C (view d) a" and now: "json_time (now_of w)"
    using h unfolding world_rel_def by blast
  have rel: "jobs_rel C (view d) (st_jobs a)" using d(2) by (simp add: stored_rel_def)
  have nz: "next_job_id (view d) \<noteq> 0" using room d(1) by (simp add: job_room_def)
  from res obtain s' where cr: "jobs_create B C (now_of w) r (wd_db w) = (Returns j, s')"
    and w': "w' = (tick w)\<lparr>wd_db := s'\<rparr>"
    by (auto simp: local_jobs_def with_db_def split: prod.splits)
  then have "Update B (jobs_create_tx B C (now_of w) r) (wd_db w) = (Returns j, s')"
    by (auto simp: jobs_create_def split: prod.splits sum.splits)
  with d(1) obtain d' where tx: "jobs_create_tx B C (now_of w) r d = Returns (j, d')"
    and s': "s' = (wd_db w)\<lparr>database := Open d'\<rparr>"
    by (auto elim!: Update_returns)
  note c = jobs_create_tx_rel [OF rel tx r now nz]
  have "job_ID j \<noteq> 0" using nz by (simp add: c(1))
  moreover have "world_rel C view w' (a\<lparr>st_jobs := (st_jobs a)(job_ID j \<mapsto> j)\<rparr>)"
    unfolding w' s' by (rule world_rel_next [OF h stored_rel_jobs [OF d(2) c(4,5)]])
  moreover have "job_Request j = r \<and> job_Status j = JobRunningStatus"
    by (subst (1 2) c(1)) (simp add: jobs_null_def)
  ultimately show ?thesis using c(2,3) by blast
qed

lemma local_finish_job:
  assumes h: "world_rel C view w a" and res: "jobs_finish B C (now_of w) i status (wd_db w) = (Returns u, s')"
  shows "\<exists>j t. st_jobs a i = Some j \<and> job_Status j = JobRunningStatus \<and>
    world_rel C view ((tick w)\<lparr>wd_db := s'\<rparr>)
      (a\<lparr>st_jobs := (st_jobs a)(i \<mapsto> j\<lparr>job_EndTime := t, job_Status := status\<rparr>)\<rparr>)"
proof -
  obtain d where d: "database (wd_db w) = Open d" "stored_rel C (view d) a" and now: "json_time (now_of w)"
    using h unfolding world_rel_def by blast
  have rel: "jobs_rel C (view d) (st_jobs a)" using d(2) by (simp add: stored_rel_def)
  from jobs_finish_rel [OF rel d(1) now res] stored_rel_jobs [OF d(2)] world_rel_next [OF h]
  show ?thesis by blast
qed

lemma local_find_jobs:
  "world_rel C view w a \<Longrightarrow> js_Find (local_jobs B C) f w =
     (Returns (take_int (jf_Limit f)
        (filter (case jf_Match f of None \<Rightarrow> (\<lambda>_. True) | Some m \<Rightarrow> m) (jobs_newest_first (st_jobs a)))), w)"
  by (erule world_rel_open)
     (auto simp: local_jobs_def reading_db_def stored_rel_def intro!: jobs_find_rel)

lemma local_finish_rejected:
  assumes h: "world_rel C view w a" and "i \<notin> running (st_jobs a)"
  shows "\<exists>e. jobs_finish B C now i status (wd_db w) = (Fails e, wd_db w)"
  using assms by (elim world_rel_open) (auto simp: stored_rel_def intro: jobs_finish_rejected)

lemma local_kill_running:
  assumes h: "world_rel C view w a" and res: "js_FailRunningJobs (local_jobs B C) w = (Returns u, w')"
  shows "\<exists>t. world_rel C view w' (a\<lparr>st_jobs := kill_all t (running (st_jobs a)) (st_jobs a)\<rparr>)"
proof -
  let ?now = "\<lambda>i :: u64. wd_clock w (wd_tick w + unat i)"
  obtain d where d: "database (wd_db w) = Open d" "stored_rel C (view d) a" and now: "\<forall>i. json_time (?now i)"
    using h unfolding world_rel_def by blast
  have rel: "jobs_rel C (view d) (st_jobs a)" using d(2) by (simp add: stored_rel_def)
  from res obtain s' where s': "jobs_failRunning B C ?now (wd_db w) = (Returns u, s')" "w' = (tick w)\<lparr>wd_db := s'\<rparr>"
    by (auto simp: local_jobs_def with_db_def split: prod.splits)
  from jobs_failRunning_rel [OF rel d(1) now s'(1)] stored_rel_jobs [OF d(2)] world_rel_next [OF h] s'(2)
  show ?thesis by blast
qed

end

sublocale stores \<subseteq> local_job: job_service "local_jobs B C" "world_rel C view" "job_room view"
proof (unfold_locales, goal_cases)
  case (1 w a i)
  then show ?case
    by (elim world_rel_open) (auto simp: local_jobs_def reading_db_def stored_rel_def intro!: jobs_get_rel)
next
  case (2 w a r j w')
  then show ?case
    by (auto simp: local_jobs_def jobs_null_def zero_job_def intro: world_rel_tick)
next
  case (3 w a r j w')
  then show ?case by (rule local_create_job)
next
  case (4 w a r e w')
  then show ?case
    by (elim with_db_fails [of C view w a _ "Fails e"]) (auto simp: local_jobs_def dest: jobs_create_fails)
next
  case (5 w a i u w')
  then show ?case
    using local_finish_job [of w a i JobSuccessStatus u]
    by (fastforce simp: local_jobs_def with_db_def jobs_Succeed_def split: prod.splits)
next
  case (6 w a i u w')
  then show ?case
    using local_finish_job [of w a i JobFailedStatus u]
    by (fastforce simp: local_jobs_def with_db_def jobs_Fail_def split: prod.splits)
next
  case (7 w a i e w')
  then show ?case
    by (elim with_db_fails [of C view w a _ "Fails e"])
       (auto simp: local_jobs_def jobs_Succeed_def dest: jobs_finish_fails)
next
  case (8 w a i e w')
  then show ?case
    by (elim with_db_fails [of C view w a _ "Fails e"])
       (auto simp: local_jobs_def jobs_Fail_def dest: jobs_finish_fails)
next
  case (9 w a i)
  with local_finish_rejected [OF 9, of "now_of w" JobSuccessStatus] show ?case
    by (auto simp: local_jobs_def jobs_Succeed_def with_db_def intro: world_rel_same)
next
  case (10 w a i)
  with local_finish_rejected [OF 10, of "now_of w" JobFailedStatus] show ?case
    by (auto simp: local_jobs_def jobs_Fail_def with_db_def intro: world_rel_same)
next
  case (11 w a f)
  then show ?case by (rule local_find_jobs)
next
  case (12 w a u w')
  then show ?case by (rule local_kill_running)
next
  case (13 w a e w')
  then show ?case
    by (elim with_db_fails [of C view w a _ "Fails e"])
       (auto simp: local_jobs_def jobs_failRunning_def dest: Update_fails)
next
  case (14 w a i j)
  then show ?case
    by (elim world_rel_open) (auto simp: stored_rel_def jobs_rel_def job_part_def)
qed

text \<open>One lemma per writer: from the success of the store operation to the new world.\<close>

context stores
begin

lemma local_append:
  assumes h: "world_rel C view w a" and c: "c \<noteq> []" "Suc (length (fst (log_of (st_logs a) i))) < max_lines"
    and res: "lw_Append (local_log_writer B) i c w = (Returns u, w')"
  shows "world_rel C view w'
    (a\<lparr>st_logs := (st_logs a)(i \<mapsto> (fst (log_of (st_logs a) i) @ [c], snd (log_of (st_logs a) i)))\<rparr>)"
proof -
  obtain d where d: "database (wd_db w) = Open d" "stored_rel C (view d) a"
    using h unfolding world_rel_def by blast
  have rel: "logs_rel (view d) (st_logs a)" using d(2) by (simp add: stored_rel_def)
  from res obtain s' where s': "logs_Append B i c (wd_db w) = (Returns u, s')" "w' = (tick w)\<lparr>wd_db := s'\<rparr>"
    by (auto simp: local_log_writer_def with_db_def split: prod.splits)
  from logs_Append_rel [OF rel d(1) c s'(1)] obtain d' where
    "s' = (wd_db w)\<lparr>database := Open d'\<rparr>"
    "logs_rel (view d') ((st_logs a)(i \<mapsto> (fst (log_of (st_logs a) i) @ [c], snd (log_of (st_logs a) i))))"
    "logs_frame (view d) (view d')" by blast
  then show ?thesis
    unfolding s'(2) by (simp add: world_rel_next [OF h] stored_rel_logs [OF d(2)])
qed

lemma local_set_error:
  assumes h: "world_rel C view w a" and res: "lw_SetError (local_log_writer B) i (Some t) w = (Returns u, w')"
  shows "world_rel C view w' (a\<lparr>st_logs := (st_logs a)(i \<mapsto> (fst (log_of (st_logs a) i), Some (err_text t)))\<rparr>)"
proof -
  obtain d where d: "database (wd_db w) = Open d" "stored_rel C (view d) a"
    using h unfolding world_rel_def by blast
  have rel: "logs_rel (view d) (st_logs a)" using d(2) by (simp add: stored_rel_def)
  from res obtain s' where s': "logs_SetError B i (Some t) (wd_db w) = (Returns u, s')" "w' = (tick w)\<lparr>wd_db := s'\<rparr>"
    by (auto simp: local_log_writer_def with_db_def split: prod.splits)
  from logs_SetError_rel [OF rel d(1) s'(1)] obtain d' where
    "s' = (wd_db w)\<lparr>database := Open d'\<rparr>"
    "logs_rel (view d') ((st_logs a)(i \<mapsto> (fst (log_of (st_logs a) i), Some (err_text t))))"
    "logs_frame (view d) (view d')" by blast
  then show ?thesis
    unfolding s'(2) by (simp add: world_rel_next [OF h] stored_rel_logs [OF d(2)])
qed

lemma local_alias_step:
  assumes h: "world_rel C view w a" and res: "with_db f w = (r, w')"
    and step: "\<And>d s'. database (wd_db w) = Open d \<Longrightarrow> aliases_rel C (view d) (st_aliases a) \<Longrightarrow> f (wd_db w) = (r, s') \<Longrightarrow>
      \<exists>d'. s' = (wd_db w)\<lparr>database := Open d'\<rparr> \<and> aliases_rel C (view d') A \<and> aliases_frame (view d) (view d')"
  shows "world_rel C view w' (a\<lparr>st_aliases := A\<rparr>)"
proof -
  obtain d where d: "database (wd_db w) = Open d" "stored_rel C (view d) a"
    using h unfolding world_rel_def by blast
  have rel: "aliases_rel C (view d) (st_aliases a)" using d(2) by (simp add: stored_rel_def)
  from res obtain s' where s': "f (wd_db w) = (r, s')" "w' = (tick w)\<lparr>wd_db := s'\<rparr>"
    by (auto simp: with_db_def split: prod.splits)
  from step [OF d(1) rel s'(1)] obtain d' where "s' = (wd_db w)\<lparr>database := Open d'\<rparr>"
    "aliases_rel C (view d') A" "aliases_frame (view d) (view d')" by blast
  then show ?thesis
    unfolding s'(2) by (simp add: world_rel_next [OF h] stored_rel_aliases [OF d(2)])
qed

lemma same_aliases [simp]: "a\<lparr>st_aliases := st_aliases a\<rparr> = a"
  by simp

lemma local_get_alias:
  assumes h: "world_rel C view w a" and res: "as_Get (local_aliases B C) u n w = (Returns (c, args), w')"
  shows "world_rel C view w' a \<and> (\<exists>x. st_aliases a u n = Some x \<and> c = al_Command x \<and> args = al_Args x)"
proof -
  have res': "with_db (aliases_get B C u n) w = (Returns (c, args), w')"
    using res by (simp add: local_aliases_def)
  have "world_rel C view w' (a\<lparr>st_aliases := st_aliases a\<rparr>)"
    using aliases_get_returns by (intro local_alias_step [OF h res']) blast
  moreover obtain d where "database (wd_db w) = Open d" "aliases_rel C (view d) (st_aliases a)"
    using world_rel_aliases [OF h] by blast
  with res' aliases_get_returns [of d "st_aliases a" "wd_db w" u n c args]
  have "\<exists>x. st_aliases a u n = Some x \<and> c = al_Command x \<and> args = al_Args x"
    by (auto simp: with_db_def split: prod.splits)
  ultimately show ?thesis by simp
qed

lemma local_list_aliases:
  assumes h: "world_rel C view w a" and res: "as_List (local_aliases B C) u w = (Returns as, w')"
  shows "world_rel C view w' a \<and> as = aliases_sorted (st_aliases a u)"
proof -
  have res': "with_db (aliases_list B C u) w = (Returns as, w')"
    using res by (simp add: local_aliases_def)
  have "world_rel C view w' (a\<lparr>st_aliases := st_aliases a\<rparr>)"
    using aliases_list_returns by (intro local_alias_step [OF h res']) blast
  moreover obtain d where "database (wd_db w) = Open d" "aliases_rel C (view d) (st_aliases a)"
    using world_rel_aliases [OF h] by blast
  with res' aliases_list_returns [of d "st_aliases a" "wd_db w" u as]
  have "as = aliases_sorted (st_aliases a u)"
    by (auto simp: with_db_def split: prod.splits)
  ultimately show ?thesis by simp
qed

lemma local_create_alias:
  assumes h: "world_rel C view w a" and json: "json_alias \<lparr>al_Alias = n, al_Command = c, al_Args = args\<rparr>"
    and res: "as_Create (local_aliases B C) u n c args w = (Returns x, w')"
  shows "world_rel C view w' (a\<lparr>st_aliases := (st_aliases a)(u := (st_aliases a u)
    (n \<mapsto> \<lparr>al_Alias = n, al_Command = c, al_Args = args\<rparr>))\<rparr>)"
  using res aliases_create_rel [OF _ _ json]
  by (intro local_alias_step [OF h, of "aliases_create B C u n c args" "Returns x"]) (simp add: local_aliases_def, blast)

lemma local_remove_alias:
  assumes h: "world_rel C view w a" and res: "as_Remove (local_aliases B C) u n w = (Returns x, w')"
  shows "st_aliases a u n \<noteq> None \<and> world_rel C view w' (a\<lparr>st_aliases := (st_aliases a)(u := (st_aliases a u)(n := None))\<rparr>)"
proof -
  have res': "with_db (aliases_remove B u n) w = (Returns x, w')"
    using res by (simp add: local_aliases_def)
  have "world_rel C view w' (a\<lparr>st_aliases := (st_aliases a)(u := (st_aliases a u)(n := None))\<rparr>)"
    using aliases_remove_rel by (intro local_alias_step [OF h res']) blast
  moreover obtain d where "database (wd_db w) = Open d" "aliases_rel C (view d) (st_aliases a)"
    using world_rel_aliases [OF h] by blast
  with res' aliases_remove_rel [of d "st_aliases a" "wd_db w" u n x]
  have "st_aliases a u n \<noteq> None" by (auto simp: with_db_def split: prod.splits)
  ultimately show ?thesis by simp
qed

lemma local_create_token:
  assumes h: "world_rel C view w a" and utf8: "list_all valid_utf8 [u, c, x]"
    and res: "ts_Create (local_tokens B C) u c x w = ((i, None), w')"
  shows "\<exists>now. world_rel C view w' (a\<lparr>st_tokens := (st_tokens a)(i \<mapsto> new_token i now u c x)\<rparr>)"
proof -
  let ?i = "wd_uuid w (wd_tick w)"
  obtain d where d: "database (wd_db w) = Open d" "stored_rel C (view d) a"
    and now: "json_time (now_of w)" and uu: "valid_utf8 ?i"
    using h unfolding world_rel_def by blast
  have rel: "tokens_rel C (view d) (st_tokens a)" using d(2) by (simp add: stored_rel_def)
  have json: "json_token (new_token ?i (now_of w) u c x)"
    using utf8 now uu by (simp add: json_token_def new_token_def)
  from res obtain s' where s': "tokens_create B C ?i (now_of w) u c x (wd_db w) = ((i, None), s')"
    "w' = (tick w)\<lparr>wd_db := s'\<rparr>"
    by (auto simp: local_tokens_def with_db_def split: prod.splits)
  from tokens_create_rel [OF rel d(1) json s'(1)] obtain d' where i: "i = ?i"
    and d': "s' = (wd_db w)\<lparr>database := Open d'\<rparr>"
    "tokens_rel C (view d') ((st_tokens a)(?i \<mapsto> new_token ?i (now_of w) u c x))" "tokens_frame (view d) (view d')"
    by blast
  have "world_rel C view w' (a\<lparr>st_tokens := (st_tokens a)(i \<mapsto> new_token i (now_of w) u c x)\<rparr>)"
    unfolding s'(2) d'(1) i by (rule world_rel_next [OF h stored_rel_tokens [OF d(2) d'(2,3)]])
  then show ?thesis by blast
qed

lemma local_revoke_token:
  assumes h: "world_rel C view w a" and res: "ts_Revoke (local_tokens B C) i w = (Returns y, w')"
  shows "world_rel C view w' (a\<lparr>st_tokens := (st_tokens a)(i := None)\<rparr>)"
proof -
  obtain d where d: "database (wd_db w) = Open d" "stored_rel C (view d) a"
    using h unfolding world_rel_def by blast
  have rel: "tokens_rel C (view d) (st_tokens a)" using d(2) by (simp add: stored_rel_def)
  from res obtain s' where s': "tokens_revoke B i (wd_db w) = (Returns y, s')" "w' = (tick w)\<lparr>wd_db := s'\<rparr>"
    by (auto simp: local_tokens_def with_db_def split: prod.splits)
  from tokens_revoke_rel [OF rel d(1) s'(1)] obtain d' where
    d': "s' = (wd_db w)\<lparr>database := Open d'\<rparr>"
    "tokens_rel C (view d') ((st_tokens a)(i := None))" "tokens_frame (view d) (view d')" by blast
  show ?thesis
    unfolding s'(2) d'(1) by (rule world_rel_next [OF h stored_rel_tokens [OF d(2) d'(2,3)]])
qed

end

text \<open>All the services of the local registry.\<close>

lemma pv_local [simp]:
  "pv_Aliases (local_providers B C) = local_aliases B C"
  "pv_Jobs (local_providers B C) = local_jobs B C"
  "pv_APITokens (local_providers B C) = local_tokens B C"
  "pv_LogReader (local_providers B C) = local_log_reader B"
  "pv_LogWriter (local_providers B C) = local_log_writer B"
  by (simp_all add: local_providers_def)

sublocale stores \<subseteq> local_log: log_service "local_log_reader B" "local_log_writer B" "world_rel C view"
proof (unfold_locales, goal_cases)
  case (1 w a i)
  then show ?case
    by (elim world_rel_open) (auto simp: local_log_reader_def reading_db_def stored_rel_def intro!: logs_Get_rel)
next
  case (2 w a i n)
  then show ?case
    by (elim world_rel_open) (auto simp: local_log_reader_def reading_db_def stored_rel_def intro!: logs_Head_rel)
next
  case (3 w a i n)
  then show ?case
    by (elim world_rel_open) (auto simp: local_log_reader_def reading_db_def stored_rel_def intro!: logs_Tail_rel)
next
  case (4 w a c i u w')
  then show ?case by (rule local_append)
next
  case (5 w a i)
  then show ?case by (simp add: local_log_writer_def with_db_def logs_Append_def world_rel_same)
next
  case (6 w a i c e w')
  then show ?case
    by (elim with_db_fails [of C view w a _ "Fails e"])
       (auto simp: local_log_writer_def logs_Append_def split: if_splits dest: Update_fails)
next
  case (7 w a i t u w')
  then show ?case by (intro local_set_error)
next
  case (8 w a i)
  then show ?case by (simp add: local_log_writer_def with_db_def logs_SetError_def world_rel_same)
next
  case (9 w a i x e w')
  then show ?case
    by (elim with_db_fails [of C view w a _ "Fails e"])
       (auto simp: local_log_writer_def logs_SetError_def split: option.splits dest: Update_fails)
qed

sublocale stores \<subseteq> local_alias: alias_service "local_aliases B C" "world_rel C view"
proof (unfold_locales, goal_cases)
  case (1 w a u n c args w')
  then show ?case by (rule local_get_alias)
next
  case (2 w a u n e w')
  then show ?case
    by (elim with_db_fails [of C view w a _ "Fails e"])
       (auto simp: local_aliases_def aliases_get_def dest: Update_fails)
next
  case (3 w a u as w')
  then show ?case by (rule local_list_aliases)
next
  case (4 w a u e w')
  then show ?case
    by (elim with_db_fails [of C view w a _ "Fails e"])
       (auto simp: local_aliases_def aliases_list_def dest: Update_fails)
next
  case (5 w a n c args u x w')
  then show ?case by (rule local_create_alias)
next
  case (6 w a u n c args e w')
  then show ?case
    by (elim with_db_fails [of C view w a _ "Fails e"])
       (auto simp: local_aliases_def aliases_create_def dest: Update_fails)
next
  case (7 w a u n x w')
  then show ?case by (rule local_remove_alias)
next
  case (8 w a u n e w')
  then show ?case
    by (elim with_db_fails [of C view w a _ "Fails e"])
       (auto simp: local_aliases_def aliases_remove_def dest: Update_fails)
qed

sublocale stores \<subseteq> local_token: token_service "local_tokens B C" "world_rel C view"
proof (unfold_locales, goal_cases)
  case (1 w a u c x i w')
  then show ?case by (rule local_create_token)
next
  case (2 w a u c x i e w')
  then show ?case
    by (elim with_db_fails [of C view w a _ "(i, Some e)"])
       (auto simp: local_tokens_def dest: tokens_create_fails)
next
  case (3 w a i)
  then show ?case
    by (elim world_rel_open) (auto simp: local_tokens_def reading_db_def stored_rel_def intro!: tokens_get_rel)
next
  case (4 w a i y w')
  then show ?case by (rule local_revoke_token)
next
  case (5 w a i e w')
  then show ?case
    by (elim with_db_fails [of C view w a _ "Fails e"])
       (auto simp: local_tokens_def tokens_revoke_def dest: Update_fails)
next
  case (6 w a f)
  then show ?case
    by (elim world_rel_open) (auto simp: local_tokens_def reading_db_def stored_rel_def intro!: tokens_find_rel)
qed

sublocale stores \<subseteq> local_services: services "local_providers B C" "world_rel C view" "job_room view"
  by (simp add: services_def local_job.job_service_axioms local_log.log_service_axioms
      local_alias.alias_service_axioms local_token.token_service_axioms)

interpretation ref_services: services "local_providers ref_bolt ref_codec" "world_rel ref_codec ref_view" "job_room ref_view"
  by (rule ref_stores.local_services.services_axioms)

end
