(* ===== verification/Services.thy ===== *)
theory Services
  imports Persistence
begin

text \<open>
  What the local services guarantee, over any store that meets \<open>bolt_api\<close> and any codec that meets
  \<open>json_codec\<close>: first that operations on a reliable disk succeed, then the properties of jobs, logs,
  aliases and tokens, each with an example on the store \<open>ref_bolt\<close>.
\<close>

section \<open>Clients of the interfaces\<close>

text \<open>Appending several lines, one after the other, as long as no error comes back.\<close>

fun append_all :: "'w log_writer \<Rightarrow> u64 \<Rightarrow> string list \<Rightarrow> 'w \<Rightarrow> unit result \<times> 'w" where
  "append_all W i [] w = (Returns (), w)"
| "append_all W i (l # ls) w =
     (case lw_Append W i l w of
        (Inl e, w') \<Rightarrow> (Fails e, w')
      | (Inr _, w') \<Rightarrow> append_all W i ls w')"

definition add_lines :: "log_map \<Rightarrow> u64 \<Rightarrow> string list \<Rightarrow> log_map" where
  "add_lines L i ls = L(i \<mapsto> (fst (log_of L i) @ ls, snd (log_of L i)))"

lemma log_of_add_lines: "log_of (add_lines L i ls) i = (fst (log_of L i) @ ls, snd (log_of L i))"
  by (simp add: add_lines_def log_of_def)

lemma add_lines_twice: "add_lines (add_lines L i ls) i ls' = add_lines L i (ls @ ls')"
  unfolding add_lines_def [of "add_lines L i ls"] log_of_add_lines by (simp add: add_lines_def)

context log_service
begin

lemma append_all_log:
  assumes "holds w a" and "[] \<notin> set ls" and "length (fst (log_of (st_logs a) i)) + length ls < max_lines"
    and "append_all W i ls w = (Returns u, w')" and "ls \<noteq> []"
  shows "holds w' (a\<lparr>st_logs := add_lines (st_logs a) i ls\<rparr>)"
  using assms
proof (induction ls arbitrary: w a)
  case (Cons l ls)
  from Cons.prems(4) obtain v w1 where l: "lw_Append W i l w = (Returns v, w1)"
    and rest: "append_all W i ls w1 = (Returns u, w')"
    by (auto split: prod.splits sum.splits)
  let ?a = "a\<lparr>st_logs := add_lines (st_logs a) i [l]\<rparr>"
  have h1: "holds w1 ?a"
    unfolding add_lines_def using Cons.prems(2,3) by (intro append_log [OF Cons.prems(1) _ _ l]) auto
  show ?case
  proof (cases "ls = []")
    case True
    with rest have "w1 = w'" by simp
    with h1 True show ?thesis by (simp only:)
  next
    case False
    have "holds w' (?a\<lparr>st_logs := add_lines (st_logs ?a) i ls\<rparr>)"
      using Cons.prems(2,3) by (intro Cons.IH [OF h1 _ _ rest False]) (simp_all add: log_of_add_lines)
    then show ?thesis by (simp add: add_lines_twice)
  qed
qed simp

lemma read_appended:
  assumes "holds w a" and "st_logs a i = None" and "[] \<notin> set ls" and "length ls < max_lines" and "ls \<noteq> []"
    and "append_all W i ls w = (Returns u, w')"
  shows "lr_Get R i w' = (Returns \<lparr>jl_Error = [], jl_Output = strings_join [CHR 0x0A] ls\<rparr>, w')"
    and "lr_Head R i n w' = (Returns \<lparr>jl_Error = [], jl_Output = strings_join [CHR 0x0A] (take_int n ls)\<rparr>, w')"
    and "lr_Tail R i n w' = (Returns \<lparr>jl_Error = [], jl_Output = strings_join [CHR 0x0A] (rev (take_int n (rev ls)))\<rparr>, w')"
proof -
  have "log_of (st_logs a) i = ([], None)" by (simp add: log_of_def assms(2))
  with append_all_log [OF assms(1,3) _ assms(6,5)] assms(4)
  have h: "holds w' (a\<lparr>st_logs := (st_logs a)(i \<mapsto> (ls, None))\<rparr>)" by (simp add: add_lines_def)
  show "lr_Get R i w' = (Returns \<lparr>jl_Error = [], jl_Output = strings_join [CHR 0x0A] ls\<rparr>, w')"
    and "lr_Head R i n w' = (Returns \<lparr>jl_Error = [], jl_Output = strings_join [CHR 0x0A] (take_int n ls)\<rparr>, w')"
    and "lr_Tail R i n w' = (Returns \<lparr>jl_Error = [], jl_Output = strings_join [CHR 0x0A] (rev (take_int n (rev ls)))\<rparr>, w')"
    by (simp_all add: get_log [OF h] head_log [OF h] tail_log [OF h])
qed

text \<open>Once an error is set, \<open>Tail\<close> gives the error and no line at all.\<close>

lemma tail_after_error:
  assumes "holds w a" and "lw_SetError W i (Some t) w = (Returns u, w')"
  shows "lr_Tail R i n w' = (Returns \<lparr>jl_Error = err_text t, jl_Output = []\<rparr>, w')"
    and "lr_Get R i w' = (Returns \<lparr>jl_Error = err_text t,
      jl_Output = strings_join [CHR 0x0A] (fst (log_of (st_logs a) i))\<rparr>, w')"
  using set_error [OF assms] by (simp_all add: get_log tail_log)

end

context job_service
begin

lemma job_lifecycle:
  assumes "holds w a" and "room w" and "json_request r" and "js_Create S r w = (Returns j, w1)"
    and "js_Succeed S (job_ID j) w1 = (Returns u, w2)"
  shows "\<exists>t. js_Get S (job_ID j) w2 = (Returns (j\<lparr>job_EndTime := t, job_Status := JobSuccessStatus\<rparr>), w2) \<and>
    (\<exists>e w3. js_Fail S (job_ID j) w2 = (Fails e, w3)) \<and> (\<exists>e w3. js_Succeed S (job_ID j) w2 = (Fails e, w3))"
proof -
  from create_job [OF assms(1-4)] have h1: "holds w1 (a\<lparr>st_jobs := (st_jobs a)(job_ID j \<mapsto> j)\<rparr>)" by blast
  from succeed_job [OF h1 assms(5)] obtain t where
    h2: "holds w2 (a\<lparr>st_jobs := (st_jobs a)(job_ID j \<mapsto> j\<lparr>job_EndTime := t, job_Status := JobSuccessStatus\<rparr>)\<rparr>)"
    by auto
  then have "job_ID j \<notin> running ((st_jobs a)(job_ID j \<mapsto> j\<lparr>job_EndTime := t, job_Status := JobSuccessStatus\<rparr>))"
    by (simp add: running_upd)
  with finish_rejected [OF h2, of "job_ID j"] show ?thesis
    by (auto simp: get_job [OF h2])
qed

lemma nothing_runs_after_kill:
  assumes "holds w a" and "js_FailRunningJobs S w = (Returns u, w')"
  shows "\<exists>t. holds w' (a\<lparr>st_jobs := kill_all t (running (st_jobs a)) (st_jobs a)\<rparr>) \<and>
    running (kill_all t (running (st_jobs a)) (st_jobs a)) = {}"
  using kill_running [OF assms] by (auto simp: running_kill_all)

end

context alias_service
begin

lemma created_alias_found:
  assumes "holds w a" and "json_alias \<lparr>al_Alias = n, al_Command = c, al_Args = args\<rparr>"
    and "as_Create S u n c args w = (Returns x, w1)" and "as_Get S u' n' w1 = (r, w2)"
  shows "u' = u \<Longrightarrow> n' = n \<Longrightarrow> r = Returns (c, args) \<or> (\<exists>e. r = Fails e)"
    and "u' \<noteq> u \<or> n' \<noteq> n \<Longrightarrow> r = Returns y \<Longrightarrow> \<exists>z. st_aliases a u' n' = Some z \<and> y = (al_Command z, al_Args z)"
proof -
  have h1: "holds w1 (a\<lparr>st_aliases := (st_aliases a)(u := (st_aliases a u)
      (n \<mapsto> \<lparr>al_Alias = n, al_Command = c, al_Args = args\<rparr>))\<rparr>)"
    by (rule create_alias [OF assms(1-3)])
  show "u' = u \<Longrightarrow> n' = n \<Longrightarrow> r = Returns (c, args) \<or> (\<exists>e. r = Fails e)"
    using get_alias [OF h1, of u n _ _ w2] assms(4) by (cases r) fastforce+
  show "u' \<noteq> u \<or> n' \<noteq> n \<Longrightarrow> r = Returns y \<Longrightarrow> \<exists>z. st_aliases a u' n' = Some z \<and> y = (al_Command z, al_Args z)"
    using get_alias [OF h1, of u' n' "fst y" "snd y" w2] assms(4) by (auto simp: prod_eq_iff split: if_splits)
qed

end

context token_service
begin

lemma created_token_found:
  assumes "holds w a" and "list_all valid_utf8 [u, c, x]" and "ts_Create S u c x w = ((i, None), w1)"
  shows "\<exists>t. ts_Get S i w1 = (Returns t, w1) \<and> tok_TokenID t = i \<and> tok_UserLink t = u \<and> tok_ChannelLink t = c \<and>
    tok_Text t = x"
    and "i' \<noteq> i \<Longrightarrow> ts_Get S i' w1 = (fst (ts_Get S i' w), w1)"
    and "ts_Revoke S i w1 = (Returns y, w2) \<Longrightarrow> ts_Get S i w2 = (Fails ErrTokenNotFound, w2)"
proof -
  from create_token [OF assms] obtain now where
    h1: "holds w1 (a\<lparr>st_tokens := (st_tokens a)(i \<mapsto> new_token i now u c x)\<rparr>)" by blast
  then show "\<exists>t. ts_Get S i w1 = (Returns t, w1) \<and> tok_TokenID t = i \<and> tok_UserLink t = u \<and>
      tok_ChannelLink t = c \<and> tok_Text t = x"
    by (simp add: get_token new_token_def)
  show "i' \<noteq> i \<Longrightarrow> ts_Get S i' w1 = (fst (ts_Get S i' w), w1)"
    using get_token [OF h1, of i'] get_token [OF assms(1), of i'] by simp
  show "ts_Revoke S i w1 = (Returns y, w2) \<Longrightarrow> ts_Get S i w2 = (Fails ErrTokenNotFound, w2)"
    using revoke_token [OF h1, of i y w2] get_token by fastforce
qed

end

section \<open>Operations that succeed\<close>

context reliable_stores
begin

lemma local_create_ok:
  assumes h: "world_rel C view w a" and room: "job_room view w" and r: "json_request r"
    and size: "\<And>i now p. json_time now \<Longrightarrow> job_Marshal C ((jobs_null now r)\<lparr>job_ID := i\<rparr>) = Returns p \<Longrightarrow> value_ok p"
  shows "\<exists>j w'. js_Create (local_jobs B C) r w = (Returns j, w')"
proof -
  obtain d where d: "database (wd_db w) = Open d" "stored_rel C (view d) a" and now: "json_time (now_of w)"
    using h unfolding world_rel_def by blast
  have rel: "jobs_rel C (view d) (st_jobs a)" using d(2) by (simp add: stored_rel_def)
  have nz: "next_job_id (view d) \<noteq> 0" using room d(1) by (simp add: job_room_def)
  have "\<exists>j d'. jobs_create B C (now_of w) r (wd_db w) = (Returns j, (wd_db w)\<lparr>database := Open d'\<rparr>) \<and>
      jobs_create_tx B C (now_of w) r d = Returns (j, d')"
    by (rule jobs_create_ok [OF rel d(1) r now nz]) (rule size [OF now])
  then show ?thesis by (auto simp: local_jobs_def with_db_def)
qed

lemma local_finish_ok:
  assumes h: "world_rel C view w a" and j: "st_jobs a i = Some j" "job_Status j = JobRunningStatus"
    and st: "status \<in> {JobSuccessStatus, JobFailedStatus}"
    and size: "\<And>now p. json_time now \<Longrightarrow> job_Marshal C (j\<lparr>job_EndTime := now, job_Status := status\<rparr>) = Returns p \<Longrightarrow> value_ok p"
  shows "\<exists>s'. jobs_finish B C (now_of w) i status (wd_db w) = (Returns (), s')"
proof -
  obtain d where d: "database (wd_db w) = Open d" "stored_rel C (view d) a" and now: "json_time (now_of w)"
    using h unfolding world_rel_def by blast
  have rel: "jobs_rel C (view d) (st_jobs a)" using d(2) by (simp add: stored_rel_def)
  show ?thesis by (rule jobs_finish_ok [OF rel d(1) now j st]) (rule size [OF now])
qed

lemma local_append_ok:
  assumes h: "world_rel C view w a" and size: "value_ok c"
    and room: "Suc (length (fst (log_of (st_logs a) i))) < max_lines"
  shows "\<exists>w'. lw_Append (local_log_writer B) i c w = (Returns (), w')"
proof -
  obtain d where d: "database (wd_db w) = Open d" "stored_rel C (view d) a"
    using h unfolding world_rel_def by blast
  have rel: "logs_rel (view d) (st_logs a)" using d(2) by (simp add: stored_rel_def)
  from logs_Append_ok [OF rel d(1) size room] show ?thesis
    by (auto simp: local_log_writer_def with_db_def)
qed

lemma local_set_error_ok:
  assumes h: "world_rel C view w a" and size: "value_ok (err_text t)"
  shows "\<exists>w'. lw_SetError (local_log_writer B) i (Some t) w = (Returns (), w')"
proof -
  obtain d where d: "database (wd_db w) = Open d" "stored_rel C (view d) a"
    using h unfolding world_rel_def by blast
  have rel: "logs_rel (view d) (st_logs a)" using d(2) by (simp add: stored_rel_def)
  obtain s' where "logs_SetError B i (Some t) (wd_db w) = (Returns (), s')"
    using logs_SetError_ok [OF rel d(1) size] by blast
  then show ?thesis by (simp add: local_log_writer_def with_db_def)
qed

lemma local_create_alias_ok:
  assumes h: "world_rel C view w a" and keys: "key_ok u" "key_ok n"
    and json: "json_alias \<lparr>al_Alias = n, al_Command = c, al_Args = args\<rparr>"
    and size: "\<And>p. alias_Marshal C \<lparr>al_Alias = n, al_Command = c, al_Args = args\<rparr> = Returns p \<Longrightarrow> value_ok p"
  shows "\<exists>w'. as_Create (local_aliases B C) u n c args w = (Returns (), w')"
proof -
  obtain d where d: "database (wd_db w) = Open d" "stored_rel C (view d) a"
    using h unfolding world_rel_def by blast
  have rel: "aliases_rel C (view d) (st_aliases a)" using d(2) by (simp add: stored_rel_def)
  from aliases_create_ok [OF rel d(1) keys(1) json keys(2) size] show ?thesis
    by (auto simp: local_aliases_def with_db_def)
qed

lemma local_get_alias_ok:
  assumes h: "world_rel C view w a" and "key_ok u"
  shows "\<exists>w'. as_Get (local_aliases B C) u n w =
    (case st_aliases a u n of None \<Rightarrow> Fails ErrAliasNotFound | Some x \<Rightarrow> Returns (al_Command x, al_Args x), w')"
proof -
  obtain d where d: "database (wd_db w) = Open d" "stored_rel C (view d) a"
    using h unfolding world_rel_def by blast
  have rel: "aliases_rel C (view d) (st_aliases a)" using d(2) by (simp add: stored_rel_def)
  from aliases_get_rel [OF rel d(1) assms(2), of n] show ?thesis
    by (auto simp: local_aliases_def with_db_def split: option.splits)
qed

lemma local_remove_alias_ok:
  assumes h: "world_rel C view w a" and "key_ok u"
  shows "\<exists>w'. as_Remove (local_aliases B C) u n w =
    (if st_aliases a u n = None then Fails (Errorf ''alias not found'') else Returns (), w')"
proof -
  obtain d where d: "database (wd_db w) = Open d" "stored_rel C (view d) a"
    using h unfolding world_rel_def by blast
  have rel: "aliases_rel C (view d) (st_aliases a)" using d(2) by (simp add: stored_rel_def)
  from aliases_remove_ok [OF rel d(1) assms(2), of n] show ?thesis
    by (cases "st_aliases a u n") (auto simp: local_aliases_def with_db_def)
qed

lemma local_create_token_ok:
  assumes h: "world_rel C view w a" and utf8: "list_all valid_utf8 [u, c, x]" and key: "key_ok (wd_uuid w (wd_tick w))"
    and size: "\<And>now p. json_time now \<Longrightarrow> token_Marshal C (new_token (wd_uuid w (wd_tick w)) now u c x) = Returns p \<Longrightarrow> value_ok p"
  shows "\<exists>w'. ts_Create (local_tokens B C) u c x w = ((wd_uuid w (wd_tick w), None), w')"
proof -
  let ?i = "wd_uuid w (wd_tick w)"
  obtain d where d: "database (wd_db w) = Open d" "stored_rel C (view d) a"
    and now: "json_time (now_of w)" and uu: "valid_utf8 ?i"
    using h unfolding world_rel_def by blast
  have rel: "tokens_rel C (view d) (st_tokens a)" using d(2) by (simp add: stored_rel_def)
  have json: "json_token (new_token ?i (now_of w) u c x)"
    using utf8 now uu by (simp add: json_token_def new_token_def)
  have "\<exists>s'. tokens_create B C ?i (now_of w) u c x (wd_db w) = ((?i, None), s')"
    by (rule tokens_create_ok [OF rel d(1) key json]) (rule size [OF now])
  then show ?thesis by (auto simp: local_tokens_def with_db_def)
qed

end

section \<open>A world on the reference store\<close>

definition ref_world :: "ref_db world" where
  "ref_world = \<lparr>
     wd_db = \<lparr>databaseConfig = \<lparr>dc_Path = ''meeseeks.db'', dc_Timeout = 0, dc_Mode = 0\<rparr>, database = Open ref_empty\<rparr>,
     wd_clock = (\<lambda>n. 0), wd_uuid = (\<lambda>n. ''token''), wd_tick = 0\<rparr>"

abbreviation ref_jobs :: "ref_db world jobs_service" where "ref_jobs \<equiv> local_jobs ref_bolt ref_codec"
abbreviation ref_holds :: "ref_db world \<Rightarrow> stored \<Rightarrow> bool" where "ref_holds \<equiv> world_rel ref_codec ref_view"

lemma ref_stored: "stored_rel ref_codec (ref_view ref_empty) nothing_stored"
  by (rule stored_rel_empty) (simp add: ref_view_def ref_empty_def)

lemma ref_world_holds: "ref_holds ref_world nothing_stored"
  using ref_stored
  by (simp add: world_rel_def ref_world_def json_time_def zero_time_def valid_utf8_ascii)

lemma ref_room: "job_room ref_view ref_world"
  by (simp add: job_room_def ref_world_def next_job_id_def bucket_at_def ref_view_def ref_empty_def empty_bucket_def)

lemma length_show_nat: "n < 10 ^ k \<Longrightarrow> 0 < k \<Longrightarrow> length (show_nat n) \<le> k"
proof (induction n arbitrary: k rule: show_nat.induct)
  case (1 n)
  show ?case
  proof (cases "n < 10")
    case True
    with 1 show ?thesis by (simp add: show_nat.simps [of n])
  next
    case False
    from "1.prems" obtain k' where k: "k = Suc k'" by (cases k) auto
    with "1.prems" False have k0: "0 < k'" by (cases k') auto
    note k = k k0
    from k "1.prems" have "n div 10 < 10 ^ k'" by (simp add: div_less_iff_less_mult mult.commute)
    with "1.IH" [OF False] k False show ?thesis by (simp add: show_nat.simps [of n])
  qed
qed

lemma length_put_time: "json_time t \<Longrightarrow> length (put_time t) \<le> 22"
proof -
  assume "json_time t"
  then have "nat \<bar>t\<bar> < 10 ^ 21" by (auto simp: json_time_def zero_time_def)
  from length_show_nat [OF this] show ?thesis by (simp add: put_time_def)
qed

lemma length_put_fields: "length (put_fields xs) = (\<Sum>x\<leftarrow>xs. 2 * length x + 1)"
  by (induction xs) auto

lemma ref_job_small:
  assumes "job_Marshal ref_codec j = Returns p" and "json_time (job_StartTime j)" and "json_time (job_EndTime j)"
    and "length (put_request (job_Request j)) \<le> 1000" and "length (job_Status j) \<le> 100"
  shows "value_ok p"
proof -
  from assms(1) have p: "p = put_fields [be_bytes 8 (unat (job_ID j)), put_request (job_Request j),
      put_time (job_StartTime j), put_time (job_EndTime j), job_Status j]"
    by (simp add: ref_codec_def)
  have "length p = 2 * 8 + 1 + (2 * length (put_request (job_Request j)) + 1) +
      (2 * length (put_time (job_StartTime j)) + 1) + (2 * length (put_time (job_EndTime j)) + 1) +
      (2 * length (job_Status j) + 1)"
    unfolding p length_put_fields by simp
  with assms(4,5) length_put_time [OF assms(2)] length_put_time [OF assms(3)] show ?thesis
    by (simp add: value_ok_def)
qed

text \<open>A first job of the reference world.\<close>

lemma json_zero_request [simp]: "json_request zero_request"
  by (simp add: json_request_def zero_request_def valid_utf8_ascii)

lemma json_zero_time [simp]: "json_time zero_time"
  by (simp add: json_time_def zero_time_def)

lemma ref_create: "\<exists>j w. js_Create ref_jobs zero_request ref_world = (Returns j, w)"
proof (rule ref_stores.local_create_ok [OF ref_world_holds ref_room])
  fix i :: u64 and now p
  assume "json_time now" and "job_Marshal ref_codec ((jobs_null now zero_request)\<lparr>job_ID := i\<rparr>) = Returns p"
  then show "value_ok p"
    by (elim ref_job_small) (simp_all add: jobs_null_def zero_job_def job_status_defs put_request_def zero_request_def)
qed simp

section \<open>Properties of jobs\<close>

context stores
begin

lemmas local_lifecycle = local_job.job_lifecycle
lemmas local_kill = local_job.nothing_runs_after_kill
lemmas local_read_appended = local_log.read_appended
lemmas local_tail_error = local_log.tail_after_error
lemmas local_alias_found = local_alias.created_alias_found
lemmas local_remove_fails = local_alias.remove_alias_fails
lemmas local_token_found = local_token.created_token_found

end

text \<open>
  Creating a job gives it an identifier that is not zero, larger than every one in use and so
  new, stores the request with running status, and leaves every other job, the logs, the aliases
  and the tokens alone.
\<close>

theorem create_job_correct:
  assumes "stores B view C" and "world_rel C view w a" and "job_room view w" and "json_request r"
    and "js_Create (local_jobs B C) r w = (Returns j, w')"
  shows "job_ID j \<noteq> 0 \<and> st_jobs a (job_ID j) = None \<and> (\<forall>i. st_jobs a i \<noteq> None \<longrightarrow> i < job_ID j) \<and>
    job_Request j = r \<and> job_Status j = JobRunningStatus \<and>
    world_rel C view w' (a\<lparr>st_jobs := (st_jobs a)(job_ID j \<mapsto> j)\<rparr>)"
  using stores.local_create_job [OF assms] by auto

theorem create_job_correct_witness:
  "\<exists>j w. js_Create ref_jobs zero_request ref_world = (Returns j, w) \<and> job_Request j = zero_request \<and>
    ref_holds w (nothing_stored\<lparr>st_jobs := [job_ID j \<mapsto> j]\<rparr>)"
proof -
  obtain j w where c: "js_Create ref_jobs zero_request ref_world = (Returns j, w)" using ref_create by blast
  from create_job_correct [OF ref_stores.stores_axioms ref_world_holds ref_room json_zero_request c] c
  show ?thesis by (auto simp: nothing_stored_def)
qed

text \<open>
  C15: the life of a job: once it is created and has been marked as succeeded, reading it gives it
  with its request and the successful status, and neither a failure nor a second success is
  accepted any more.
\<close>

theorem job_lifecycle_correct:
  assumes "stores B view C" and "world_rel C view w a" and "job_room view w" and "json_request r"
    and "js_Create (local_jobs B C) r w = (Returns j, w1)"
    and "js_Succeed (local_jobs B C) (job_ID j) w1 = (Returns u, w2)"
  shows "\<exists>t. js_Get (local_jobs B C) (job_ID j) w2 =
      (Returns (j\<lparr>job_EndTime := t, job_Status := JobSuccessStatus\<rparr>), w2) \<and>
    (\<exists>e w3. js_Fail (local_jobs B C) (job_ID j) w2 = (Fails e, w3)) \<and>
    (\<exists>e w3. js_Succeed (local_jobs B C) (job_ID j) w2 = (Fails e, w3))"
  by (rule stores.local_lifecycle [OF assms])

text \<open>The steps of the example: the first job of the reference world succeeds.\<close>

lemma ref_succeed:
  assumes c: "js_Create ref_jobs zero_request ref_world = (Returns j, w)"
  shows "\<exists>w2. js_Succeed ref_jobs (job_ID j) w = (Returns (), w2)"
proof -
  note cr = ref_stores.local_create_job [OF ref_world_holds ref_room json_zero_request c]
  have st: "job_StartTime j = 0 \<and> job_EndTime j = zero_time"
  proof -
    from c have "jobs_create_tx ref_bolt ref_codec 0 zero_request ref_empty \<in> range (\<lambda>d. Returns (j, d))"
      by (auto simp: local_jobs_def with_db_def jobs_create_def ref_world_def Update_def
          split: sum.splits prod.splits option.splits)
    then show ?thesis by (auto simp: jobs_create_tx_def Let_def zero_job_def split: sum.splits prod.splits)
  qed
  have "\<exists>s'. jobs_finish ref_bolt ref_codec (now_of w) (job_ID j) JobSuccessStatus (wd_db w) = (Returns (), s')"
  proof (rule ref_stores.local_finish_ok)
    show "ref_holds w (nothing_stored\<lparr>st_jobs := (st_jobs nothing_stored)(job_ID j \<mapsto> j)\<rparr>)" using cr by blast
    fix now p
    assume "json_time now" and "job_Marshal ref_codec (j\<lparr>job_EndTime := now, job_Status := JobSuccessStatus\<rparr>) = Returns p"
    then show "value_ok p"
      by (elim ref_job_small)
         (use cr st in \<open>simp_all add: job_status_defs put_request_def zero_request_def json_time_def zero_time_def\<close>)
  qed (use cr in simp_all)
  then show ?thesis by (auto simp: local_jobs_def with_db_def jobs_Succeed_def)
qed

theorem job_lifecycle_correct_witness:
  "\<exists>j w1 w2 t. js_Create ref_jobs zero_request ref_world = (Returns j, w1) \<and>
    js_Succeed ref_jobs (job_ID j) w1 = (Returns (), w2) \<and>
    js_Get ref_jobs (job_ID j) w2 = (Returns (j\<lparr>job_EndTime := t, job_Status := JobSuccessStatus\<rparr>), w2)"
proof -
  obtain j w1 where c: "js_Create ref_jobs zero_request ref_world = (Returns j, w1)" using ref_create by blast
  obtain w2 where s: "js_Succeed ref_jobs (job_ID j) w1 = (Returns (), w2)" using ref_succeed [OF c] by blast
  from job_lifecycle_correct [OF ref_stores.stores_axioms ref_world_holds ref_room json_zero_request c s] c s
  show ?thesis by blast
qed

text \<open>
  Finishing a job that does not exist or is not running any more is an error, and the database
  stays as it was.
\<close>

theorem finish_rejected_unchanged:
  assumes "stores B view C" and "world_rel C view w a"
    and "st_jobs a i = None \<or> (\<exists>j. st_jobs a i = Some j \<and> job_Status j \<noteq> JobRunningStatus)"
  shows "(\<exists>e w'. js_Succeed (local_jobs B C) i w = (Fails e, w') \<and> wd_db w' = wd_db w) \<and>
    (\<exists>e w'. js_Fail (local_jobs B C) i w = (Fails e, w') \<and> wd_db w' = wd_db w)"
proof -
  have "i \<notin> running (st_jobs a)" using assms(3) by (auto simp: running_def)
  note rej = stores.local_finish_rejected [OF assms(1,2) this]
  from rej [of "now_of w" JobSuccessStatus] rej [of "now_of w" JobFailedStatus] show ?thesis
    by (auto simp: local_jobs_def with_db_def jobs_Succeed_def jobs_Fail_def)
qed

theorem finish_rejected_unchanged_witness:
  "(\<exists>e w'. js_Succeed ref_jobs 7 ref_world = (Fails e, w') \<and> wd_db w' = wd_db ref_world) \<and>
    (\<exists>e w'. js_Fail ref_jobs 7 ref_world = (Fails e, w') \<and> wd_db w' = wd_db ref_world)"
  by (rule finish_rejected_unchanged [OF ref_stores.stores_axioms ref_world_holds]) (simp add: nothing_stored_def)

text \<open>
  A search returns, of the stored jobs that the filter accepts, the newest ones first and at most
  as many as the limit says (none when it is zero or negative).
\<close>

theorem find_jobs_newest:
  assumes "stores B view C" and "world_rel C view w a"
  shows "js_Find (local_jobs B C) \<lparr>jf_Limit = n, jf_Match = Some m\<rparr> w =
    (Returns (take (nat n) (filter m (map (\<lambda>i. the (st_jobs a i)) (rev (sorted_list_of_set (dom (st_jobs a))))))), w)"
  using stores.local_find_jobs [OF assms, of "\<lparr>jf_Limit = n, jf_Match = Some m\<rparr>"]
  by (simp add: jobs_newest_first_def take_int_def)

theorem find_jobs_newest_witness:
  "\<exists>j w. js_Create ref_jobs zero_request ref_world = (Returns j, w) \<and>
    js_Find ref_jobs \<lparr>jf_Limit = 5, jf_Match = Some (\<lambda>x. job_Request x = zero_request)\<rparr> w = (Returns [j], w)"
proof -
  obtain j w where c: "js_Create ref_jobs zero_request ref_world = (Returns j, w)" using ref_create by blast
  note cr = ref_stores.local_create_job [OF ref_world_holds ref_room json_zero_request c]
  then have "ref_holds w (nothing_stored\<lparr>st_jobs := [job_ID j \<mapsto> j]\<rparr>)" by (simp add: nothing_stored_def)
  from find_jobs_newest [OF ref_stores.stores_axioms this] c cr show ?thesis by auto
qed

text \<open>
  The clean-up at start: when it succeeds, exactly the jobs that were running are marked as killed
  with an end time, every other job and store is as before, and no job is running.
\<close>

theorem fail_running_jobs_correct:
  assumes "stores B view C" and "world_rel C view w a"
    and "js_FailRunningJobs (local_jobs B C) w = (Returns u, w')"
  shows "\<exists>t. world_rel C view w' (a\<lparr>st_jobs := (\<lambda>i. case st_jobs a i of None \<Rightarrow> None
      | Some j \<Rightarrow> Some (if job_Status j = JobRunningStatus
          then j\<lparr>job_Status := JobKilledStatus, job_EndTime := t i\<rparr> else j))\<rparr>)"
proof -
  have "kill_all t (running J) J = (\<lambda>i. case J i of None \<Rightarrow> None
      | Some j \<Rightarrow> Some (if job_Status j = JobRunningStatus
          then j\<lparr>job_Status := JobKilledStatus, job_EndTime := t i\<rparr> else j))" for t J
    by (rule ext) (auto simp: kill_all_def running_def split: option.splits)
  with stores.local_kill [OF assms] show ?thesis by auto
qed

lemma ref_fail_running: "\<exists>w. js_FailRunningJobs ref_jobs ref_world = (Returns (), w)"
  by (simp add: local_jobs_def with_db_def jobs_failRunning_def ref_world_def Update_def ref.exists_view
      ref_view_def ref_empty_def ref_bolt_def)

theorem fail_running_jobs_correct_witness:
  "\<exists>w. js_FailRunningJobs ref_jobs ref_world = (Returns (), w) \<and> ref_holds w nothing_stored"
proof -
  obtain w where w: "js_FailRunningJobs ref_jobs ref_world = (Returns (), w)" using ref_fail_running by blast
  from fail_running_jobs_correct [OF ref_stores.stores_axioms ref_world_holds w] w show ?thesis
    by (auto simp: nothing_stored_def)
qed

section \<open>Properties of logs\<close>

text \<open>
  C20: the lines appended to the log of a new job come back in order: all of them joined by newlines, the
  first \<open>n\<close> by \<open>Head\<close> and the last \<open>n\<close> by \<open>Tail\<close> (which reads the bucket backwards), for every \<open>n\<close>.
\<close>

theorem log_round_trip:
  assumes "stores B view C" and "world_rel C view w a" and "st_logs a i = None" and "[] \<notin> set ls"
    and "length ls < max_lines" and "ls \<noteq> []" and "append_all (local_log_writer B) i ls w = (Returns u, w')"
  shows "lr_Get (local_log_reader B) i w' = (Returns \<lparr>jl_Error = [], jl_Output = strings_join [CHR 0x0A] ls\<rparr>, w') \<and>
    lr_Head (local_log_reader B) i n w' =
      (Returns \<lparr>jl_Error = [], jl_Output = strings_join [CHR 0x0A] (take (nat n) ls)\<rparr>, w') \<and>
    lr_Tail (local_log_reader B) i n w' =
      (Returns \<lparr>jl_Error = [], jl_Output = strings_join [CHR 0x0A] (drop (length ls - nat n) ls)\<rparr>, w')"
  using stores.local_read_appended(1) [OF assms] stores.local_read_appended(2,3) [OF assms, of n]
  by (simp add: take_int_def take_rev)

lemma ref_append: "\<exists>w. append_all (local_log_writer ref_bolt) 1 [''one'', ''two'', ''three''] ref_world = (Returns (), w)"
proof -
  have step: "\<exists>w'. lw_Append (local_log_writer ref_bolt) 1 c w = (Returns (), w') \<and>
      ref_holds w' (a\<lparr>st_logs := add_lines (st_logs a) 1 [c]\<rparr>)"
    if "ref_holds w a" "length (fst (log_of (st_logs a) 1)) \<le> 2" "c \<noteq> []" "length c < 10" for w a c
  proof -
    have room: "Suc (length (fst (log_of (st_logs a) 1))) < max_lines"
      using that(2) by (simp add: max_lines_def)
    have "value_ok c" using that(4) by (simp add: value_ok_def)
    from ref_stores.local_append_ok [OF that(1) this room] obtain w' where
      "lw_Append (local_log_writer ref_bolt) 1 c w = (Returns (), w')" by blast
    with ref_stores.local_append [OF that(1,3) room this] show ?thesis by (auto simp: add_lines_def)
  qed
  have l0: "log_of (st_logs nothing_stored) 1 = ([], None)" by (simp add: nothing_stored_def log_of_def)
  obtain w1 where w1: "lw_Append (local_log_writer ref_bolt) 1 ''one'' ref_world = (Returns (), w1)"
    and h1: "ref_holds w1 (nothing_stored\<lparr>st_logs := add_lines (st_logs nothing_stored) 1 [''one'']\<rparr>)"
    using step [OF ref_world_holds, of "''one''"] l0 by auto
  obtain w2 where w2: "lw_Append (local_log_writer ref_bolt) 1 ''two'' w1 = (Returns (), w2)"
    and h2: "ref_holds w2 (nothing_stored\<lparr>st_logs := add_lines (st_logs nothing_stored) 1 [''one'', ''two'']\<rparr>)"
    using step [OF h1, of "''two''"] l0 by (auto simp: log_of_add_lines add_lines_twice)
  obtain w3 where "lw_Append (local_log_writer ref_bolt) 1 ''three'' w2 = (Returns (), w3)"
    using step [OF h2, of "''three''"] l0 by (auto simp: log_of_add_lines add_lines_twice)
  with w1 w2 show ?thesis by simp
qed

theorem log_round_trip_witness:
  "\<exists>w. append_all (local_log_writer ref_bolt) 1 [''one'', ''two'', ''three''] ref_world = (Returns (), w) \<and>
    lr_Head (local_log_reader ref_bolt) 1 1 w = (Returns \<lparr>jl_Error = [], jl_Output = ''one''\<rparr>, w) \<and>
    lr_Tail (local_log_reader ref_bolt) 1 2 w =
      (Returns \<lparr>jl_Error = [], jl_Output = ''two'' @ [CHR 0x0A] @ ''three''\<rparr>, w)"
proof -
  obtain w where w: "append_all (local_log_writer ref_bolt) 1 [''one'', ''two'', ''three''] ref_world = (Returns (), w)"
    using ref_append by blast
  have "st_logs nothing_stored 1 = None" "[] \<notin> set [''one'', ''two'', ''three'']"
    "length [''one'', ''two'', ''three''] < max_lines" "[''one'', ''two'', ''three''] \<noteq> []"
    by (simp_all add: nothing_stored_def max_lines_def)
  note t = log_round_trip [OF ref_stores.stores_axioms ref_world_holds this w]
  from w t [of 1] t [of 2] show ?thesis by (simp add: numeral_2_eq_2)
qed

text \<open>
  C21: once the error of a job is set, \<open>Get\<close> still gives its lines beside the error, but \<open>Tail\<close> gives the
  error and no line at all, for every limit: the cursor starts on the bucket of the error.
\<close>

theorem tail_loses_lines_of_failed_jobs:
  assumes "stores B view C" and "world_rel C view w a" and "st_logs a i = Some (lines, e)"
    and "lw_SetError (local_log_writer B) i (Some t) w = (Returns u, w')"
  shows "lr_Get (local_log_reader B) i w' =
      (Returns \<lparr>jl_Error = err_text t, jl_Output = strings_join [CHR 0x0A] lines\<rparr>, w') \<and>
    lr_Tail (local_log_reader B) i n w' = (Returns \<lparr>jl_Error = err_text t, jl_Output = []\<rparr>, w')"
  using stores.local_tail_error [OF assms(1,2,4)] assms(3) by (simp add: log_of_def)

lemma ref_append_holds:
  assumes "append_all (local_log_writer ref_bolt) 1 [''one'', ''two'', ''three''] ref_world = (Returns (), w)"
  shows "ref_holds w (nothing_stored\<lparr>st_logs := [1 \<mapsto> ([''one'', ''two'', ''three''], None)]\<rparr>)"
proof -
  have "length (fst (log_of (st_logs nothing_stored) 1)) + length [''one'', ''two'', ''three''] < max_lines"
    by (simp add: nothing_stored_def max_lines_def log_of_def)
  from ref_stores.local_log.append_all_log [OF ref_world_holds _ this assms]
  show ?thesis by (simp add: add_lines_def nothing_stored_def log_of_def)
qed

theorem tail_loses_lines_of_failed_jobs_witness:
  "\<exists>w. lr_Get (local_log_reader ref_bolt) 1 w =
      (Returns \<lparr>jl_Error = ''exit status 1'', jl_Output = strings_join [CHR 0x0A] [''one'', ''two'', ''three'']\<rparr>, w) \<and>
    lr_Tail (local_log_reader ref_bolt) 1 5 w = (Returns \<lparr>jl_Error = ''exit status 1'', jl_Output = []\<rparr>, w)"
proof -
  let ?e = "Errorf ''exit status 1''"
  obtain w1 where w1: "append_all (local_log_writer ref_bolt) 1 [''one'', ''two'', ''three''] ref_world = (Returns (), w1)"
    using ref_append by blast
  note h = ref_append_holds [OF w1]
  obtain w2 where w2: "lw_SetError (local_log_writer ref_bolt) 1 (Some ?e) w1 = (Returns (), w2)"
    using ref_stores.local_set_error_ok [OF h, of ?e 1] by (auto simp: value_ok_def)
  have "st_logs (nothing_stored\<lparr>st_logs := [1 \<mapsto> ([''one'', ''two'', ''three''], None)]\<rparr>) 1 =
      Some ([''one'', ''two'', ''three''], None)" by simp
  from tail_loses_lines_of_failed_jobs [OF ref_stores.stores_axioms h this w2, of 5] show ?thesis by auto
qed

section \<open>Properties of aliases and tokens\<close>

text \<open>
  On a disk that takes the writes, an alias that was created is found again by its user with the
  command and the arguments it was created with, a second creation replaces it, and any other
  name and any other user find what they found before.
\<close>

theorem alias_round_trip:
  assumes "reliable_stores B view C" and "world_rel C view w a" and "key_ok u" and "key_ok u'"
    and "json_alias \<lparr>al_Alias = n, al_Command = c, al_Args = args\<rparr>"
    and "as_Create (local_aliases B C) u n c args w = (Returns x, w1)"
  shows "fst (as_Get (local_aliases B C) u' n' w1) =
    (if u' = u \<and> n' = n then Returns (c, args)
     else case st_aliases a u' n' of None \<Rightarrow> Fails ErrAliasNotFound | Some y \<Rightarrow> Returns (al_Command y, al_Args y))"
proof -
  have st: "stores B view C"
    using assms(1) by (simp add: stores_def reliable_stores_def bolt_commits_def)
  have h: "world_rel C view w1 (a\<lparr>st_aliases := (st_aliases a)(u := (st_aliases a u)
      (n \<mapsto> \<lparr>al_Alias = n, al_Command = c, al_Args = args\<rparr>))\<rparr>)"
    by (rule stores.local_create_alias [OF st assms(2,5,6)])
  from reliable_stores.local_get_alias_ok [OF assms(1) h assms(4), of n'] show ?thesis
    by (cases "u' = u"; cases "n' = n") (auto split: option.splits)
qed

lemma ref_alias_small:
  "alias_Marshal ref_codec \<lparr>al_Alias = ''d'', al_Command = ''deploy'', al_Args = [''prod'']\<rparr> = Returns p \<Longrightarrow> value_ok p"
  by (auto simp: ref_codec_def value_ok_def)

lemma json_alias_d: "json_alias \<lparr>al_Alias = ''d'', al_Command = ''deploy'', al_Args = [''prod'']\<rparr>"
  by (simp add: json_alias_def valid_utf8_ascii)

lemma ref_create_alias:
  "\<exists>w. as_Create (local_aliases ref_bolt ref_codec) ''U1'' ''d'' ''deploy'' [''prod''] ref_world = (Returns (), w)"
proof -
  have "key_ok ''U1''" "key_ok ''d''" by (simp_all add: key_ok_def)
  then show ?thesis
    using json_alias_d ref_alias_small by (intro ref_stores.local_create_alias_ok [OF ref_world_holds])
qed

theorem alias_round_trip_witness:
  "\<exists>w. as_Create (local_aliases ref_bolt ref_codec) ''U1'' ''d'' ''deploy'' [''prod''] ref_world = (Returns (), w) \<and>
    fst (as_Get (local_aliases ref_bolt ref_codec) ''U1'' ''d'' w) = Returns (''deploy'', [''prod'']) \<and>
    fst (as_Get (local_aliases ref_bolt ref_codec) ''U2'' ''d'' w) = Fails ErrAliasNotFound"
proof -
  obtain w where w: "as_Create (local_aliases ref_bolt ref_codec) ''U1'' ''d'' ''deploy'' [''prod''] ref_world =
      (Returns (), w)"
    using ref_create_alias by blast
  have k: "key_ok ''U1''" "key_ok ''U2''" by (simp_all add: key_ok_def)
  note t = alias_round_trip [OF ref_stores.reliable_stores_axioms ref_world_holds k(1) _ json_alias_d w]
  from w t [OF k(1), of "''d''"] t [OF k(2), of "''d''"] show ?thesis by (simp add: nothing_stored_def)
qed

text \<open>
  On a disk that takes the writes, removing an alias that the user has succeeds and takes away that
  alias only, and removing one the user does not have is the error \<open>alias not found\<close> and changes
  nothing.
\<close>

theorem alias_removal:
  assumes "reliable_stores B view C" and "world_rel C view w a" and "key_ok u"
  shows "\<exists>w'. as_Remove (local_aliases B C) u n w =
      (if st_aliases a u n = None then Fails (Errorf ''alias not found'') else Returns (), w') \<and>
    world_rel C view w' (a\<lparr>st_aliases := (st_aliases a)(u := (st_aliases a u)(n := None))\<rparr>)"
proof -
  have st: "stores B view C"
    using assms(1) by (simp add: stores_def reliable_stores_def bolt_commits_def)
  obtain w' where w': "as_Remove (local_aliases B C) u n w =
      (if st_aliases a u n = None then Fails (Errorf ''alias not found'') else Returns (), w')"
    using reliable_stores.local_remove_alias_ok [OF assms] by blast
  show ?thesis
  proof (cases "st_aliases a u n")
    case None
    then have "(st_aliases a)(u := (st_aliases a u)(n := None)) = st_aliases a" by (simp add: fun_upd_idem)
    moreover have "as_Remove (local_aliases B C) u n w = (Fails (Errorf ''alias not found''), w')"
      using w' None by simp
    then have "world_rel C view w' a"
      by (rule stores.local_remove_fails [OF st assms(2)])
    ultimately show ?thesis using w' None by simp
  next
    case (Some y)
    with w' have "as_Remove (local_aliases B C) u n w = (Returns (), w')" by simp
    from stores.local_remove_alias [OF st assms(2) this] w' show ?thesis by blast
  qed
qed

theorem alias_removal_witness:
  "\<exists>w w'. as_Create (local_aliases ref_bolt ref_codec) ''U1'' ''d'' ''deploy'' [''prod''] ref_world = (Returns (), w) \<and>
    as_Remove (local_aliases ref_bolt ref_codec) ''U1'' ''d'' w = (Returns (), w') \<and>
    ref_holds w' nothing_stored"
proof -
  obtain w where w: "as_Create (local_aliases ref_bolt ref_codec) ''U1'' ''d'' ''deploy'' [''prod''] ref_world =
      (Returns (), w)"
    using ref_create_alias by blast
  have k: "key_ok ''U1''" by (simp add: key_ok_def)
  note h = ref_stores.local_create_alias [OF ref_world_holds json_alias_d w]
  have e: "nothing_stored\<lparr>st_aliases := (\<lambda>_. Map.empty)(''U1'' := Map.empty)\<rparr> = nothing_stored"
    by (simp add: nothing_stored_def fun_upd_idem)
  from alias_removal [OF ref_stores.reliable_stores_axioms h k, of "''d''"] w e show ?thesis
    by (auto simp: nothing_stored_def fun_upd_idem)
qed

text \<open>
  A token that was created can be read by its identifier with the user, the channel and the command
  text it was created for; other tokens read as before; and after it is revoked reading it is the
  error that there is no such token.
\<close>

theorem token_lifecycle:
  assumes "stores B view C" and "world_rel C view w a" and "list_all valid_utf8 [u, c, x]"
    and "ts_Create (local_tokens B C) u c x w = ((i, None), w1)"
    and "ts_Revoke (local_tokens B C) i w1 = (Returns y, w2)"
  shows "(\<exists>t. ts_Get (local_tokens B C) i w1 = (Returns t, w1) \<and> tok_TokenID t = i \<and> tok_UserLink t = u \<and>
      tok_ChannelLink t = c \<and> tok_Text t = x) \<and>
    (\<forall>i'. i' \<noteq> i \<longrightarrow> fst (ts_Get (local_tokens B C) i' w1) = fst (ts_Get (local_tokens B C) i' w)) \<and>
    ts_Get (local_tokens B C) i w2 = (Fails ErrTokenNotFound, w2)"
  using stores.local_token_found(1) [OF assms(1-4)] stores.local_token_found(2) [OF assms(1-4)]
    stores.local_token_found(3) [OF assms(1-4,5)]
  by auto

lemma ref_token_small:
  "json_time now \<Longrightarrow> length u + length c + length x \<le> 100 \<Longrightarrow>
   token_Marshal ref_codec (new_token ''token'' now u c x) = Returns p \<Longrightarrow> value_ok p"
  using length_put_time [of now] by (auto simp: ref_codec_def new_token_def value_ok_def length_put_fields
    simp del: put_fields.simps)

lemma ref_create_token:
  assumes "list_all valid_utf8 [u, c, x]" and "length u + length c + length x \<le> 100"
  shows "\<exists>w1. ts_Create (local_tokens ref_bolt ref_codec) u c x ref_world = ((''token'', None), w1)"
proof -
  have i: "wd_uuid ref_world (wd_tick ref_world) = ''token''" by (simp add: ref_world_def)
  show ?thesis
    using ref_stores.local_create_token_ok [OF ref_world_holds assms(1)] ref_token_small [OF _ assms(2)]
    by (simp add: i key_ok_def)
qed

theorem token_lifecycle_witness:
  "\<exists>w1 w2. ts_Create (local_tokens ref_bolt ref_codec) ''u'' ''c'' ''deploy prod'' ref_world = ((''token'', None), w1) \<and>
    ts_Revoke (local_tokens ref_bolt ref_codec) ''token'' w1 = (Returns (), w2) \<and>
    ts_Get (local_tokens ref_bolt ref_codec) ''token'' w2 = (Fails ErrTokenNotFound, w2)"
proof -
  obtain w1 where w1: "ts_Create (local_tokens ref_bolt ref_codec) ''u'' ''c'' ''deploy prod'' ref_world =
      ((''token'', None), w1)"
    using ref_create_token [of "''u''" "''c''" "''deploy prod''"] by (auto simp: valid_utf8_ascii)
  have utf8: "list_all valid_utf8 [''u'', ''c'', ''deploy prod'']" by (simp add: valid_utf8_ascii)
  obtain now where h: "ref_holds w1 (nothing_stored\<lparr>st_tokens := (st_tokens nothing_stored)
      (''token'' \<mapsto> new_token ''token'' now ''u'' ''c'' ''deploy prod'')\<rparr>)"
    using ref_stores.local_create_token [OF ref_world_holds utf8 w1] by blast
  from h obtain d where d: "database (wd_db w1) = Open d"
    and rel: "tokens_rel ref_codec (ref_view d) [''token'' \<mapsto> new_token ''token'' now ''u'' ''c'' ''deploy prod'']"
    by (auto simp: world_rel_def stored_rel_def nothing_stored_def)
  from ref_stores.tokens_revoke_ok [OF rel d, of "''token''"]
  obtain s where "tokens_revoke ref_bolt ''token'' (wd_db w1) = (Returns (), s)"
    by (auto dest: fun_cong [of _ _ "''token''"])
  then obtain w2 where w2: "ts_Revoke (local_tokens ref_bolt ref_codec) ''token'' w1 = (Returns (), w2)"
    by (simp add: local_tokens_def with_db_def)
  from token_lifecycle [OF ref_stores.stores_axioms ref_world_holds utf8 w1 w2] w1 w2 show ?thesis by blast
qed

end
