(* ===== verification/History.thy ===== *)
theory History
  imports Services "HOL-Library.Sublist"
begin

text \<open>
  Histories of the stores: any sequence of writes through the services, successful or not, as steps of an
  abstract machine on \<open>stored\<close>. The services refine the machine step by step, and what the machine never
  does (change a finished job, drop a line of a log, give an identifier twice) the stores never do.
\<close>

section \<open>Writes\<close>

datatype store_write =
    CreateJob request | SucceedJob u64 | FailJob u64 | FlushJobs
  | AppendLine u64 string | SetJobError u64 "err option"
  | CreateAlias string string string "string list" | RemoveAlias string string
  | CreateToken string string string | RevokeToken string

definition succeeded :: "'a result \<times> 'w \<Rightarrow> bool \<times> 'w" where
  "succeeded rw = (case fst rw of Inl _ \<Rightarrow> False | Inr _ \<Rightarrow> True, snd rw)"

lemma succeeded_simps [simp]: "succeeded (Inl e, w) = (False, w)" "succeeded (Inr x, w) = (True, w)"
  by (simp_all add: succeeded_def)

fun perform :: "'w providers \<Rightarrow> store_write \<Rightarrow> 'w \<Rightarrow> bool \<times> 'w" where
  "perform P (CreateJob r) w = succeeded (js_Create (pv_Jobs P) r w)"
| "perform P (SucceedJob i) w = succeeded (js_Succeed (pv_Jobs P) i w)"
| "perform P (FailJob i) w = succeeded (js_Fail (pv_Jobs P) i w)"
| "perform P FlushJobs w = succeeded (js_FailRunningJobs (pv_Jobs P) w)"
| "perform P (AppendLine i l) w = succeeded (lw_Append (pv_LogWriter P) i l w)"
| "perform P (SetJobError i e) w = succeeded (lw_SetError (pv_LogWriter P) i e w)"
| "perform P (CreateAlias u n c args) w = succeeded (as_Create (pv_Aliases P) u n c args w)"
| "perform P (RemoveAlias u n) w = succeeded (as_Remove (pv_Aliases P) u n w)"
| "perform P (CreateToken u c x) w =
     (case ts_Create (pv_APITokens P) u c x w of ((i, e), w') \<Rightarrow> (e = None, w'))"
| "perform P (RevokeToken i) w = succeeded (ts_Revoke (pv_APITokens P) i w)"

section \<open>The abstract machine\<close>

text \<open>A write that fails changes nothing; identifiers and times of a write that succeeds are chosen freely.\<close>

inductive abs_write :: "store_write \<Rightarrow> bool \<Rightarrow> stored \<Rightarrow> stored \<Rightarrow> bool" where
  failed: "abs_write op False a a"
| job_created: "st_jobs a (job_ID j) = None \<Longrightarrow> job_ID j \<noteq> 0 \<Longrightarrow> \<forall>i \<in> dom (st_jobs a). i < job_ID j \<Longrightarrow>
    job_Request j = r \<Longrightarrow> job_Status j = JobRunningStatus \<Longrightarrow>
    abs_write (CreateJob r) True a (a\<lparr>st_jobs := (st_jobs a)(job_ID j \<mapsto> j)\<rparr>)"
| job_succeeded: "st_jobs a i = Some j \<Longrightarrow> job_Status j = JobRunningStatus \<Longrightarrow>
    abs_write (SucceedJob i) True a (a\<lparr>st_jobs := (st_jobs a)(i \<mapsto> j\<lparr>job_EndTime := t, job_Status := JobSuccessStatus\<rparr>)\<rparr>)"
| job_failed: "st_jobs a i = Some j \<Longrightarrow> job_Status j = JobRunningStatus \<Longrightarrow>
    abs_write (FailJob i) True a (a\<lparr>st_jobs := (st_jobs a)(i \<mapsto> j\<lparr>job_EndTime := t, job_Status := JobFailedStatus\<rparr>)\<rparr>)"
| jobs_flushed: "abs_write FlushJobs True a (a\<lparr>st_jobs := kill_all ts (running (st_jobs a)) (st_jobs a)\<rparr>)"
| line_appended: "abs_write (AppendLine i l) True a
    (if l = [] then a
     else a\<lparr>st_logs := (st_logs a)(i \<mapsto> (fst (log_of (st_logs a) i) @ [l], snd (log_of (st_logs a) i)))\<rparr>)"
| error_set: "abs_write (SetJobError i e) True a
    (case e of None \<Rightarrow> a | Some t \<Rightarrow> a\<lparr>st_logs := (st_logs a)(i \<mapsto> (fst (log_of (st_logs a) i), Some (err_text t)))\<rparr>)"
| alias_created: "abs_write (CreateAlias u n c args) True a
    (a\<lparr>st_aliases := (st_aliases a)(u := (st_aliases a u)(n \<mapsto> \<lparr>al_Alias = n, al_Command = c, al_Args = args\<rparr>))\<rparr>)"
| alias_removed: "st_aliases a u n \<noteq> None \<Longrightarrow>
    abs_write (RemoveAlias u n) True a (a\<lparr>st_aliases := (st_aliases a)(u := (st_aliases a u)(n := None))\<rparr>)"
| token_created: "abs_write (CreateToken u c x) True a (a\<lparr>st_tokens := (st_tokens a)(i \<mapsto> new_token i now u c x)\<rparr>)"
| token_revoked: "abs_write (RevokeToken i) True a (a\<lparr>st_tokens := (st_tokens a)(i := None)\<rparr>)"

inductive_cases abs_writeE: "abs_write op ok a a'"

inductive abs_writes :: "stored \<Rightarrow> (store_write \<times> bool) list \<Rightarrow> stored \<Rightarrow> bool" where
  none: "abs_writes a [] a"
| more: "abs_write op ok a a' \<Longrightarrow> abs_writes a' tr a'' \<Longrightarrow> abs_writes a ((op, ok) # tr) a''"

section \<open>Refinement\<close>

text \<open>
  What the laws of the services ask of a write: text that JSON keeps, an identifier and a line that are left.
\<close>

fun admissible :: "('w \<Rightarrow> bool) \<Rightarrow> 'w \<Rightarrow> stored \<Rightarrow> store_write \<Rightarrow> bool" where
  "admissible room w a (CreateJob r) = (room w \<and> json_request r)"
| "admissible room w a (AppendLine i l) = (Suc (length (fst (log_of (st_logs a) i))) < max_lines)"
| "admissible room w a (CreateAlias u n c args) = json_alias \<lparr>al_Alias = n, al_Command = c, al_Args = args\<rparr>"
| "admissible room w a (CreateToken u c x) = list_all valid_utf8 [u, c, x]"
| "admissible room w a _ = True"

inductive writes :: "'w providers \<Rightarrow> ('w \<Rightarrow> stored \<Rightarrow> bool) \<Rightarrow> ('w \<Rightarrow> bool) \<Rightarrow> 'w \<Rightarrow> (store_write \<times> bool) list \<Rightarrow> 'w \<Rightarrow> bool"
  for P holds room where
  none: "writes P holds room w [] w"
| more: "\<forall>a. holds w a \<longrightarrow> admissible room w a op \<Longrightarrow> perform P op w = (ok, w') \<Longrightarrow> writes P holds room w' tr w'' \<Longrightarrow>
    writes P holds room w ((op, ok) # tr) w''"

lemma succeeded_cases:
  assumes "succeeded rw = (ok, w')"
  obtains e where "rw = (Inl e, w')" "\<not> ok" | x where "rw = (Inr x, w')" "ok"
  using assms by (cases rw; cases "fst rw") auto

context services
begin

lemma refinesI:
  assumes "succeeded rw = (ok, w')" and "\<And>e. rw = (Fails e, w') \<Longrightarrow> holds w' a"
    and "\<And>x. rw = (Returns x, w') \<Longrightarrow> \<exists>a'. abs_write op True a a' \<and> holds w' a'"
  shows "\<exists>a'. abs_write op ok a a' \<and> holds w' a'"
  using assms(1)
proof (cases rule: succeeded_cases)
  case (1 e)
  with assms(2) have "holds w' a" by blast
  with 1(2) show ?thesis by (auto intro: abs_write.failed)
next
  case (2 x)
  with assms(3) show ?thesis by simp
qed

lemma perform_refines:
  assumes h: "holds w a" and adm: "admissible room w a op" and res: "perform P op w = (ok, w')"
  shows "\<exists>a'. abs_write op ok a a' \<and> holds w' a'"
proof (cases op)
  case (CreateJob r)
  with adm have "room w" "json_request r" by simp_all
  note create = create_job [OF h this]
  show ?thesis
    unfolding CreateJob
    by (rule refinesI [OF res [unfolded CreateJob perform.simps]])
      (use create_fails [OF h] create in \<open>blast intro: abs_write.job_created\<close>)+
next
  case (SucceedJob i)
  show ?thesis
    unfolding SucceedJob
    by (rule refinesI [OF res [unfolded SucceedJob perform.simps]])
      (use finish_fails(1) [OF h] succeed_job [OF h] in \<open>blast intro: abs_write.job_succeeded\<close>)+
next
  case (FailJob i)
  show ?thesis
    unfolding FailJob
    by (rule refinesI [OF res [unfolded FailJob perform.simps]])
      (use finish_fails(2) [OF h] fail_job [OF h] in \<open>blast intro: abs_write.job_failed\<close>)+
next
  case FlushJobs
  show ?thesis
    unfolding FlushJobs
    by (rule refinesI [OF res [unfolded FlushJobs perform.simps]])
      (use kill_fails [OF h] kill_running [OF h] in \<open>blast intro: abs_write.jobs_flushed\<close>)+
next
  case (AppendLine i l)
  have line: "\<exists>a'. abs_write (AppendLine i l) True a a' \<and> holds w' a'" if "lw_Append (pv_LogWriter P) i l w = (Returns u, w')" for u
  proof (cases "l = []")
    case True
    with append_nothing [OF h, of i] that abs_write.line_appended [of i l a] show ?thesis by auto
  next
    case False
    from adm AppendLine have "Suc (length (fst (log_of (st_logs a) i))) < max_lines" by simp
    from append_log [OF h False this that] False abs_write.line_appended [of i l a] show ?thesis by auto
  qed
  show ?thesis
    unfolding AppendLine
    by (rule refinesI [OF res [unfolded AppendLine perform.simps] append_fails [OF h]]) (use line in blast)+
next
  case (SetJobError i e)
  have set: "\<exists>a'. abs_write (SetJobError i e) True a a' \<and> holds w' a'" if "lw_SetError (pv_LogWriter P) i e w = (Returns u, w')" for u
  proof (cases e)
    case None
    with set_no_error [OF h, of i] that abs_write.error_set [of i e a] show ?thesis by auto
  next
    case (Some t)
    with set_error [OF h] that abs_write.error_set [of i e a] show ?thesis by auto
  qed
  show ?thesis
    unfolding SetJobError
    by (rule refinesI [OF res [unfolded SetJobError perform.simps] set_error_fails [OF h]]) (use set in blast)+
next
  case (CreateAlias u n c args)
  with adm have "json_alias \<lparr>al_Alias = n, al_Command = c, al_Args = args\<rparr>" by simp
  note create = create_alias [OF h this]
  show ?thesis
    unfolding CreateAlias
    by (rule refinesI [OF res [unfolded CreateAlias perform.simps] create_alias_fails [OF h]])
      (use create in \<open>blast intro: abs_write.alias_created\<close>)+
next
  case (RemoveAlias u n)
  show ?thesis
    unfolding RemoveAlias
    by (rule refinesI [OF res [unfolded RemoveAlias perform.simps] remove_alias_fails [OF h]])
      (use remove_alias [OF h] in \<open>blast intro: abs_write.alias_removed\<close>)+
next
  case (CreateToken u c x)
  then obtain i e where t: "ts_Create (pv_APITokens P) u c x w = ((i, e), w')" "ok = (e = None)"
    using res by (auto split: prod.splits)
  from adm CreateToken have utf8: "list_all valid_utf8 [u, c, x]" by simp
  show ?thesis
  proof (cases e)
    case None
    with create_token [OF h utf8] t obtain now where "holds w' (a\<lparr>st_tokens := (st_tokens a)(i \<mapsto> new_token i now u c x)\<rparr>)"
      by blast
    with None t(2) CreateToken show ?thesis by (auto intro: abs_write.token_created)
  next
    case (Some y)
    with create_token_fails [OF h] t show ?thesis by (auto intro: abs_write.failed)
  qed
next
  case (RevokeToken i)
  show ?thesis
    unfolding RevokeToken
    by (rule refinesI [OF res [unfolded RevokeToken perform.simps] revoke_token_fails [OF h]])
      (use revoke_token [OF h] in \<open>blast intro: abs_write.token_revoked\<close>)+
qed

lemma writes_refine:
  "writes P holds room w tr w' \<Longrightarrow> holds w a \<Longrightarrow> \<exists>a'. abs_writes a tr a' \<and> holds w' a'"
proof (induction arbitrary: a rule: writes.induct)
  case (none w)
  then show ?case by (blast intro: abs_writes.none)
next
  case (more w op ok w' tr w'')
  from perform_refines [OF more.prems _ more.hyps(2)] more.hyps(1) more.prems obtain a1 where
    "abs_write op ok a a1" "holds w' a1" by blast
  with more.IH show ?case by (blast intro: abs_writes.more)
qed

end

context stores
begin

lemma local_services_hold: "services (local_providers B C) (world_rel C view) (job_room view)"
  by (rule local_services.services_axioms)

end

section \<open>What the machine keeps\<close>

definition grows :: "stored \<Rightarrow> stored \<Rightarrow> bool" where
  "grows a a' \<longleftrightarrow>
     (\<forall>i j. st_jobs a i = Some j \<longrightarrow>
       (\<exists>j'. st_jobs a' i = Some j' \<and> job_Request j' = job_Request j \<and> job_StartTime j' = job_StartTime j \<and>
         (job_Status j \<noteq> JobRunningStatus \<longrightarrow> j' = j))) \<and>
     (\<forall>i. st_jobs a i = None \<longrightarrow> st_jobs a' i \<noteq> None \<longrightarrow> (\<forall>k \<in> dom (st_jobs a). k < i)) \<and>
     (\<forall>i. prefix (fst (log_of (st_logs a) i)) (fst (log_of (st_logs a') i)) \<and> (st_logs a i \<noteq> None \<longrightarrow> st_logs a' i \<noteq> None))"

lemma growsD:
  assumes "grows a a'"
  shows "st_jobs a i = Some j \<Longrightarrow> \<exists>j'. st_jobs a' i = Some j' \<and> job_Request j' = job_Request j \<and>
      job_StartTime j' = job_StartTime j \<and> (job_Status j \<noteq> JobRunningStatus \<longrightarrow> j' = j)"
    and "st_jobs a i = None \<Longrightarrow> st_jobs a' i = Some j' \<Longrightarrow> st_jobs a k = Some x \<Longrightarrow> k < i"
    and "prefix (fst (log_of (st_logs a) i)) (fst (log_of (st_logs a') i))"
    and "st_logs a i = Some l \<Longrightarrow> \<exists>l'. st_logs a' i = Some l'"
  using assms by (simp_all add: grows_def) blast

lemma grows_refl: "grows a a"
  by (simp add: grows_def)

lemma grows_trans:
  assumes ab: "grows a b" and bc: "grows b c"
  shows "grows a c"
  unfolding grows_def
proof (intro conjI allI impI ballI)
  fix i j assume "st_jobs a i = Some j"
  from growsD(1) [OF ab this] obtain j1 where j1: "st_jobs b i = Some j1" "job_Request j1 = job_Request j"
    "job_StartTime j1 = job_StartTime j" "job_Status j \<noteq> JobRunningStatus \<longrightarrow> j1 = j" by blast
  from growsD(1) [OF bc j1(1)] j1 show "\<exists>j'. st_jobs c i = Some j' \<and> job_Request j' = job_Request j \<and>
      job_StartTime j' = job_StartTime j \<and> (job_Status j \<noteq> JobRunningStatus \<longrightarrow> j' = j)" by auto
next
  fix i k assume i: "st_jobs a i = None" "st_jobs c i \<noteq> None" and "k \<in> dom (st_jobs a)"
  then obtain x y where k: "st_jobs a k = Some x" and y: "st_jobs c i = Some y" by auto
  show "k < i"
  proof (cases "st_jobs b i")
    case None
    obtain x' where "st_jobs b k = Some x'" using growsD(1) [OF ab k] by blast
    from growsD(2) [OF bc None y this] show ?thesis .
  next
    case (Some z)
    from growsD(2) [OF ab i(1) this k] show ?thesis .
  qed
next
  fix i
  show "prefix (fst (log_of (st_logs a) i)) (fst (log_of (st_logs c) i))"
    by (rule prefix_order.trans [OF growsD(3) [OF ab] growsD(3) [OF bc]])
  assume "st_logs a i \<noteq> None"
  then obtain l where "st_logs a i = Some l" by blast
  with growsD(4) [OF ab] growsD(4) [OF bc] show "st_logs c i \<noteq> None" by blast
qed

lemma grows_jobs:
  assumes "\<And>i j. st_jobs a i = Some j \<Longrightarrow> \<exists>j'. st_jobs a' i = Some j' \<and> job_Request j' = job_Request j \<and>
      job_StartTime j' = job_StartTime j \<and> (job_Status j \<noteq> JobRunningStatus \<longrightarrow> j' = j)"
    and "\<And>i k. st_jobs a i = None \<Longrightarrow> st_jobs a' i \<noteq> None \<Longrightarrow> k \<in> dom (st_jobs a) \<Longrightarrow> k < i"
    and "st_logs a' = st_logs a"
  shows "grows a a'"
  using assms by (simp add: grows_def)

lemma abs_write_grows:
  assumes "abs_write op ok a a'"
  shows "grows a a'"
  using assms
proof cases
  case (job_created j r)
  show ?thesis by (rule grows_jobs) (use job_created in \<open>auto split: if_splits\<close>)
next
  case (job_succeeded i j t)
  show ?thesis by (rule grows_jobs) (use job_succeeded in \<open>auto split: if_splits\<close>)
next
  case (job_failed i j t)
  show ?thesis by (rule grows_jobs) (use job_failed in \<open>auto split: if_splits\<close>)
next
  case (jobs_flushed ts)
  show ?thesis by (rule grows_jobs) (use jobs_flushed in \<open>auto simp: kill_all_def running_def split: if_splits\<close>)
next
  case (line_appended i l)
  then show ?thesis by (simp add: grows_def log_of_def split: option.split)
next
  case (error_set i e)
  then show ?thesis by (simp add: grows_def log_of_def split: option.split)
qed (simp_all add: grows_def)

lemma abs_writes_grow: "abs_writes a tr a' \<Longrightarrow> grows a a'"
  by (induction rule: abs_writes.induct) (blast intro: grows_refl grows_trans abs_write_grows)+

text \<open>Every job has one of the four statuses and stands under its identifier, and so does every token.\<close>

definition well_formed :: "stored \<Rightarrow> bool" where
  "well_formed a \<longleftrightarrow>
     (\<forall>i j. st_jobs a i = Some j \<longrightarrow> job_ID j = i \<and> i \<noteq> 0 \<and>
       job_Status j \<in> {JobRunningStatus, JobFailedStatus, JobKilledStatus, JobSuccessStatus}) \<and>
     (\<forall>i t. st_tokens a i = Some t \<longrightarrow> tok_TokenID t = i) \<and>
     (\<forall>u n x. st_aliases a u n = Some x \<longrightarrow> al_Alias x = n)"

lemma well_formed_nothing: "well_formed nothing_stored"
  by (simp add: well_formed_def nothing_stored_def)

lemma abs_write_well_formed: "abs_write op ok a a' \<Longrightarrow> well_formed a \<Longrightarrow> well_formed a'"
  by (induction rule: abs_write.induct)
    (auto simp: well_formed_def kill_all_def new_token_def split: if_splits option.splits)

lemma abs_writes_well_formed: "abs_writes a tr a' \<Longrightarrow> well_formed a \<Longrightarrow> well_formed a'"
  by (induction rule: abs_writes.induct) (blast intro: abs_write_well_formed)+

lemma prefix_join: "prefix xs ys \<Longrightarrow> prefix (strings_join sep xs) (strings_join sep ys)"
proof (induction sep xs arbitrary: ys rule: strings_join.induct)
  case (2 sep x)
  then show ?case by (cases ys; cases "tl ys") auto
next
  case (3 sep x y xs)
  from "3.prems" obtain zs where "ys = x # zs" "prefix (y # xs) zs" by (cases ys) auto
  with "3.IH" [of zs] show ?case by (cases zs) auto
qed simp

section \<open>Properties\<close>

text \<open>
  C9: the local services implement the abstract machine: whatever sequence of writes is performed on the stores,
  over any database that meets bolt's contract, the machine can perform the same sequence with the same
  successes and failures, and the stores then hold what the machine holds.
\<close>

theorem stores_refine_the_machine:
  assumes "stores B view C" and "world_rel C view w a"
    and "writes (local_providers B C) (world_rel C view) (job_room view) w tr w'"
  shows "\<exists>a'. abs_writes a tr a' \<and> world_rel C view w' a'"
  using services.writes_refine [OF stores.local_services_hold [OF assms(1)] assms(3,2)] .

text \<open>
  C10: the record of what was run only grows: after any sequence of writes, a job that could be read before is
  read back with the same request and start, and unchanged if it had ended; a job that could not be
  read before has a larger identifier than all of those; and every log begins with the lines it had.
\<close>

theorem history_only_grows:
  assumes "stores B view C" and "world_rel C view w a"
    and "writes (local_providers B C) (world_rel C view) (job_room view) w tr w'"
  shows "(\<forall>i j. fst (js_Get (local_jobs B C) i w) = Returns j \<longrightarrow>
      (\<exists>j'. js_Get (local_jobs B C) i w' = (Returns j', w') \<and> job_Request j' = job_Request j \<and>
        job_StartTime j' = job_StartTime j \<and> (job_Status j \<noteq> JobRunningStatus \<longrightarrow> j' = j))) \<and>
    (\<forall>i j k j'. fst (js_Get (local_jobs B C) i w) = Fails ErrNoJobWithID \<longrightarrow> fst (js_Get (local_jobs B C) i w') = Returns j \<longrightarrow>
      fst (js_Get (local_jobs B C) k w) = Returns j' \<longrightarrow> k < i) \<and>
    (\<forall>i l. fst (lr_Get (local_log_reader B) i w) = Returns l \<longrightarrow>
      (\<exists>l'. lr_Get (local_log_reader B) i w' = (Returns l', w') \<and> prefix (jl_Output l) (jl_Output l')))"
proof -
  have sv: "services (local_providers B C) (world_rel C view) (job_room view)"
    by (rule stores.local_services_hold [OF assms(1)])
  obtain a' where a': "abs_writes a tr a'" "world_rel C view w' a'"
    using services.writes_refine [OF sv assms(3,2)] by blast
  have g: "grows a a'" by (rule abs_writes_grow [OF a'(1)])
  have jobs: "job_service (local_jobs B C) (world_rel C view) (job_room view)"
    and logs: "log_service (local_log_reader B) (local_log_writer B) (world_rel C view)"
    using sv by (simp_all add: services_def local_providers_def)
  note job = job_service.get_job [OF jobs assms(2)] job_service.get_job [OF jobs a'(2)]
    and log = log_service.get_log [OF logs assms(2)] log_service.get_log [OF logs a'(2)]
  have kept: "\<exists>j'. js_Get (local_jobs B C) i w' = (Returns j', w') \<and> job_Request j' = job_Request j \<and>
        job_StartTime j' = job_StartTime j \<and> (job_Status j \<noteq> JobRunningStatus \<longrightarrow> j' = j)"
    if "fst (js_Get (local_jobs B C) i w) = Returns j" for i j
  proof -
    from that have "st_jobs a i = Some j" by (simp add: job split: option.splits)
    from growsD(1) [OF g this] show ?thesis by (auto simp: job)
  qed
  have new: "k < i" if "fst (js_Get (local_jobs B C) i w) = Fails ErrNoJobWithID"
    "fst (js_Get (local_jobs B C) i w') = Returns j" "fst (js_Get (local_jobs B C) k w) = Returns j'" for i j k j'
  proof -
    from that have "st_jobs a i = None" "st_jobs a' i = Some j" "st_jobs a k = Some j'"
      by (simp_all add: job split: option.splits)
    then show ?thesis by (rule growsD(2) [OF g])
  qed
  have lines: "\<exists>l'. lr_Get (local_log_reader B) i w' = (Returns l', w') \<and> prefix (jl_Output l) (jl_Output l')"
    if "fst (lr_Get (local_log_reader B) i w) = Returns l" for i l
  proof -
    from that obtain ls e where ls: "st_logs a i = Some (ls, e)" "jl_Output l = strings_join [CHR 0x0A] ls"
      by (auto simp: log split: option.splits)
    obtain ls' e' where "st_logs a' i = Some (ls', e')" using growsD(4) [OF g ls(1)] by auto
    moreover from this have "prefix ls ls'" using growsD(3) [OF g, of i] ls(1) by (simp add: log_of_def)
    ultimately show ?thesis by (simp add: log ls(2) prefix_join)
  qed
  from kept new lines show ?thesis by blast
qed

text \<open>
  C36: what is read is well formed: after any sequence of writes on empty stores, a job that is read has the
  identifier it was asked for, which is not zero, and one of the four statuses; a token that is read has
  the identifier it was asked for.
\<close>

theorem records_are_well_formed:
  assumes "stores B view C" and "world_rel C view w nothing_stored"
    and "writes (local_providers B C) (world_rel C view) (job_room view) w tr w'"
  shows "(\<forall>i j. fst (js_Get (local_jobs B C) i w') = Returns j \<longrightarrow> job_ID j = i \<and> i \<noteq> 0 \<and>
      job_Status j \<in> {JobRunningStatus, JobFailedStatus, JobKilledStatus, JobSuccessStatus}) \<and>
    (\<forall>i t. fst (ts_Get (local_tokens B C) i w') = Returns t \<longrightarrow> tok_TokenID t = i)"
proof -
  have sv: "services (local_providers B C) (world_rel C view) (job_room view)"
    by (rule stores.local_services_hold [OF assms(1)])
  obtain a where a: "abs_writes nothing_stored tr a" "world_rel C view w' a"
    using services.writes_refine [OF sv assms(3,2)] by blast
  have "well_formed a" by (rule abs_writes_well_formed [OF a(1) well_formed_nothing])
  moreover have "job_service (local_jobs B C) (world_rel C view) (job_room view)"
    "token_service (local_tokens B C) (world_rel C view)"
    using sv by (simp_all add: services_def local_providers_def)
  note job_service.get_job [OF this(1) a(2)] token_service.get_token [OF this(2) a(2)]
  ultimately show ?thesis by (auto simp: well_formed_def split: option.splits)
qed

text \<open>A job is created, and then flushed as at the start of the program.\<close>

lemma ref_writes:
  "\<exists>ok w. writes (local_providers ref_bolt ref_codec) ref_holds (job_room ref_view) ref_world
     [(CreateJob zero_request, True), (FlushJobs, ok)] w"
proof -
  let ?P = "local_providers ref_bolt ref_codec"
  obtain j w1 where "js_Create ref_jobs zero_request ref_world = (Returns j, w1)" using ref_create by blast
  then have c: "perform ?P (CreateJob zero_request) ref_world = (True, w1)" by (simp add: local_providers_def)
  obtain ok w2 where f: "perform ?P FlushJobs w1 = (ok, w2)" by fastforce
  have "writes ?P ref_holds (job_room ref_view) w1 [(FlushJobs, ok)] w2"
    by (rule writes.more [OF _ f writes.none]) simp
  with writes.more [OF _ c this] ref_room json_zero_request show ?thesis by auto
qed

theorem stores_refine_the_machine_witness:
  "\<exists>ok w a. writes (local_providers ref_bolt ref_codec) ref_holds (job_room ref_view) ref_world
     [(CreateJob zero_request, True), (FlushJobs, ok)] w \<and>
    abs_writes nothing_stored [(CreateJob zero_request, True), (FlushJobs, ok)] a \<and> ref_holds w a"
  using ref_writes stores_refine_the_machine [OF ref_stores.stores_axioms ref_world_holds] by meson

theorem history_only_grows_witness:
  "\<exists>ok w1 w i j j'. perform (local_providers ref_bolt ref_codec) (CreateJob zero_request) ref_world = (True, w1) \<and>
    writes (local_providers ref_bolt ref_codec) ref_holds (job_room ref_view) w1 [(FlushJobs, ok)] w \<and>
    js_Get ref_jobs i w1 = (Returns j, w1) \<and> js_Get ref_jobs i w = (Returns j', w) \<and> job_Request j' = job_Request j"
proof -
  let ?P = "local_providers ref_bolt ref_codec"
  obtain j w1 where c: "js_Create ref_jobs zero_request ref_world = (Returns j, w1)" using ref_create by blast
  from ref_stores.local_create_job [OF ref_world_holds ref_room json_zero_request c] have
    h: "ref_holds w1 (nothing_stored\<lparr>st_jobs := (st_jobs nothing_stored)(job_ID j \<mapsto> j)\<rparr>)" by blast
  obtain ok w2 where f: "perform ?P FlushJobs w1 = (ok, w2)" by fastforce
  have w: "writes ?P ref_holds (job_room ref_view) w1 [(FlushJobs, ok)] w2"
    by (rule writes.more [OF _ f writes.none]) simp
  have g: "js_Get ref_jobs (job_ID j) w1 = (Returns j, w1)"
    using job_service.get_job [OF ref_stores.local_job.job_service_axioms h, of "job_ID j"] by simp
  note k = conjunct1 [OF history_only_grows [OF ref_stores.stores_axioms h w]]
  from k [rule_format, of "job_ID j" j] g obtain j' where
    "js_Get ref_jobs (job_ID j) w2 = (Returns j', w2)" "job_Request j' = job_Request j"
    by auto
  moreover have "perform ?P (CreateJob zero_request) ref_world = (True, w1)" using c by (simp add: local_providers_def)
  ultimately show ?thesis using w g by blast
qed

theorem records_are_well_formed_witness:
  "\<exists>w j. writes (local_providers ref_bolt ref_codec) ref_holds (job_room ref_view) ref_world [(CreateJob zero_request, True)] w \<and>
    fst (js_Get ref_jobs (job_ID j) w) = Returns j \<and> job_ID j \<noteq> 0 \<and>
    job_Status j \<in> {JobRunningStatus, JobFailedStatus, JobKilledStatus, JobSuccessStatus}"
proof -
  let ?P = "local_providers ref_bolt ref_codec"
  obtain j w where c: "js_Create ref_jobs zero_request ref_world = (Returns j, w)" using ref_create by blast
  then have "perform ?P (CreateJob zero_request) ref_world = (True, w)" by (simp add: local_providers_def)
  from writes.more [OF _ this writes.none] ref_room json_zero_request
  have w: "writes ?P ref_holds (job_room ref_view) ref_world [(CreateJob zero_request, True)] w" by auto
  from ref_stores.local_create_job [OF ref_world_holds ref_room json_zero_request c] have
    h: "ref_holds w (nothing_stored\<lparr>st_jobs := (st_jobs nothing_stored)(job_ID j \<mapsto> j)\<rparr>)" by blast
  have "fst (js_Get ref_jobs (job_ID j) w) = Returns j"
    using job_service.get_job [OF ref_stores.local_job.job_service_axioms h, of "job_ID j"] by simp
  with conjunct1 [OF records_are_well_formed [OF ref_stores.stores_axioms ref_world_holds w]] w show ?thesis by blast
qed

end
