(* ===== verification/Auth.thy ===== *)
theory Auth
  imports Meeseeks
begin

text \<open>
  Authorization (\<^verbatim>\<open>auth/auth.go\<close>): the configured groups, the strategies for users and channels and
  the check that combines them. \<open>auth_state\<close> holds the package's two globals; \<open>groups\<close> is nil
  until \<open>Configure\<close> has run, and reading groups through the nil pointer panics.
\<close>

section \<open>State and configuration\<close>

definition AdminGroup :: string where "AdminGroup = ''admin''"

definition AuthStrategyAny :: string where "AuthStrategyAny = ''any''"
definition AuthStrategyAllowedGroup :: string where "AuthStrategyAllowedGroup = ''group''"
definition AuthStrategyNone :: string where "AuthStrategyNone = ''none''"

definition ChannelStrategyAny :: string where "ChannelStrategyAny = ''any''"
definition ChannelStrategyIMOnly :: string where "ChannelStrategyIMOnly = ''im_only''"
definition ChannelStrategyAllowedChannels :: string where "ChannelStrategyAllowedChannels = ''channel''"

lemmas strategy_names =
  AuthStrategyAny_def AuthStrategyAllowedGroup_def AuthStrategyNone_def
  ChannelStrategyAny_def ChannelStrategyIMOnly_def ChannelStrategyAllowedChannels_def

text \<open>The \<^verbatim>\<open>CommandAuthorization\<close> interface: what the four getters of a command return.\<close>

record authorization =
  ca_AuthStrategy :: string
  ca_AllowedGroups :: "string list"
  ca_ChannelStrategy :: string
  ca_AllowedChannels :: "string list"

type_synonym groups_map = "(string, (string, bool) gomap) gomap"

record auth_state =
  as_groups :: "groups_map option"
  as_knownUsers :: "(string, unit) gomap"

definition auth_init :: auth_state where
  "auth_init = \<lparr>as_groups = None, as_knownUsers = []\<rparr>"

text \<open>
  \<open>Configure\<close> visits the configured groups in the order of the list; both maps start empty,
  so nothing of an earlier configuration survives.
\<close>

definition configure_user :: "string \<Rightarrow> (string, bool) gomap \<times> (string, unit) gomap \<Rightarrow>
    (string, bool) gomap \<times> (string, unit) gomap" where
  "configure_user user gk = (AList.update user True (fst gk), AList.update user () (snd gk))"

definition configure_group :: "string \<times> string list \<Rightarrow> groups_map \<times> (string, unit) gomap \<Rightarrow>
    groups_map \<times> (string, unit) gomap" where
  "configure_group nu gk =
     (let (grp, known) = fold configure_user (snd nu) ([], snd gk)
      in (AList.update (fst nu) grp (fst gk), known))"

definition Configure :: "(string, string list) gomap \<Rightarrow> auth_state \<Rightarrow> auth_state" where
  "Configure configuredGroups s =
     (let (gs, known) = fold configure_group configuredGroups ([], [])
      in s\<lparr>as_groups := Some gs, as_knownUsers := known\<rparr>)"

definition CheckUserInGroup :: "groups_map \<Rightarrow> string \<Rightarrow> string \<Rightarrow> err option" where
  "CheckUserInGroup gs username grp =
     (case map_of gs grp of
        None \<Rightarrow> Some ErrGroupNotFound
      | Some users \<Rightarrow>
          (case map_of users username of None \<Rightarrow> Some ErrUserNotInGroup | Some _ \<Rightarrow> None))"

text \<open>\<open>GetGroups\<close> reads through the pointer too; the users of a group come out sorted.\<close>

definition GetGroups :: "auth_state \<Rightarrow> (string, string list) gomap run" where
  "GetGroups s =
     (case as_groups s of
        None \<Rightarrow> Panic ''nil pointer dereference''
      | Some gs \<Rightarrow> Ret (fold (\<lambda>(grp, users) g. AList.update grp (sort (map fst users)) g) gs []))"

definition IsKnownUser :: "auth_state \<Rightarrow> string \<Rightarrow> bool" where
  "IsKnownUser s username = (map_of (as_knownUsers s) username \<noteq> None)"

section \<open>Strategies and the check\<close>

text \<open>The loop of \<^verbatim>\<open>userInGroupAllowed.Check\<close>: every error of a group only moves on to the next one.\<close>

fun check_groups :: "groups_map option \<Rightarrow> string \<Rightarrow> string list \<Rightarrow> err option run" where
  "check_groups gs username [] = Ret (Some ErrUserNotAllowed)"
| "check_groups gs username (grp # rest) =
     (case gs of
        None \<Rightarrow> Panic ''nil pointer dereference''
      | Some g \<Rightarrow>
          (case CheckUserInGroup g username grp of
             None \<Rightarrow> Ret None
           | Some _ \<Rightarrow> check_groups gs username rest))"

datatype authorizer =
    AnyUserAllowed | UserInGroupAllowed | NoUserAllowed
  | ChannelExplicitlyAllowed | AnyChannelAllowed | IMOnlyAllowed

fun check_channels :: "string \<Rightarrow> string list \<Rightarrow> err option" where
  "check_channels channel [] = Some ErrChannelNotAllowed"
| "check_channels channel (ch # rest) = (if channel = ch then None else check_channels channel rest)"

fun authorizer_check :: "auth_state \<Rightarrow> authorizer \<Rightarrow> request \<Rightarrow> authorization \<Rightarrow> err option run" where
  "authorizer_check s AnyUserAllowed req cmd = Ret None"
| "authorizer_check s NoUserAllowed req cmd = Ret (Some ErrUserNotAllowed)"
| "authorizer_check s UserInGroupAllowed req cmd =
     check_groups (as_groups s) (req_Username req) (ca_AllowedGroups cmd)"
| "authorizer_check s AnyChannelAllowed req cmd = Ret None"
| "authorizer_check s IMOnlyAllowed req cmd = Ret (if req_IsIM req then None else Some ErrOnlyIMAllowed)"
| "authorizer_check s ChannelExplicitlyAllowed req cmd =
     Ret (check_channels (req_Channel req) (ca_AllowedChannels cmd))"

definition authStrategies :: "(string, authorizer) gomap" where
  "authStrategies =
     [(AuthStrategyAny, AnyUserAllowed), (AuthStrategyAllowedGroup, UserInGroupAllowed),
      (AuthStrategyNone, NoUserAllowed)]"

definition channelStrategies :: "(string, authorizer) gomap" where
  "channelStrategies =
     [(ChannelStrategyAllowedChannels, ChannelExplicitlyAllowed), (ChannelStrategyAny, AnyChannelAllowed),
      (ChannelStrategyIMOnly, IMOnlyAllowed)]"

definition Check :: "auth_state \<Rightarrow> request \<Rightarrow> authorization \<Rightarrow> err option run" where
  "Check s req cmd =
     (let authStrategy =
            (case map_of authStrategies (ca_AuthStrategy cmd) of
               Some a \<Rightarrow> a | None \<Rightarrow> the (map_of authStrategies AuthStrategyNone))
      in case authorizer_check s authStrategy req cmd of
           Panic m \<Rightarrow> Panic m
         | Ret (Some e) \<Rightarrow> Ret (Some e)
         | Ret None \<Rightarrow>
             (let channelStrategy =
                    (case map_of channelStrategies (ca_ChannelStrategy cmd) of
                       Some a \<Rightarrow> a | None \<Rightarrow> the (map_of channelStrategies ChannelStrategyAny))
              in authorizer_check s channelStrategy req cmd))"

section \<open>What the configuration stores\<close>

lemma configure_users:
  "fold configure_user us (g, k) =
     (fold (\<lambda>u. AList.update u True) us g, fold (\<lambda>u. AList.update u ()) us k)"
  by (induction us arbitrary: g k) (auto simp: configure_user_def)

lemma keys_fold_update: "fst ` set (fold (\<lambda>u. AList.update u x) us m) = fst ` set m \<union> set us"
  by (induction us arbitrary: m) (auto simp: dom_update)

lemma configure_group_conv:
  "configure_group nu gk =
     (AList.update (fst nu) (fold (\<lambda>u. AList.update u True) (snd nu) []) (fst gk),
      fold (\<lambda>u. AList.update u ()) (snd nu) (snd gk))"
  by (simp add: configure_group_def configure_users)

lemma configure_fold:
  "fold configure_group cfg (g, k) =
     (fold (\<lambda>nu. AList.update (fst nu) (fold (\<lambda>u. AList.update u True) (snd nu) [])) cfg g,
      fold (\<lambda>nu. fold (\<lambda>u. AList.update u ()) (snd nu)) cfg k)"
  by (induction cfg arbitrary: g k) (auto simp: configure_group_conv)

lemma known_fold:
  "fst ` set (fold (\<lambda>nu. fold (\<lambda>u. AList.update u ()) (snd nu)) cfg k) =
     fst ` set k \<union> (\<Union>nu \<in> set cfg. set (snd nu))"
  by (induction cfg arbitrary: k) (auto simp: keys_fold_update)

text \<open>The users of a configured group, and the groups of the state, as maps.\<close>

definition users_of :: "groups_map \<Rightarrow> string \<Rightarrow> string set option" where
  "users_of gs grp = map_option (\<lambda>us. fst ` set us) (map_of gs grp)"

definition configured :: "auth_state \<Rightarrow> (string, string list) gomap \<Rightarrow> bool" where
  "configured s cfg \<longleftrightarrow> (\<exists>gs. as_groups s = Some gs \<and> distinct (map fst gs) \<and>
     (\<forall>us \<in> snd ` set gs. distinct (map fst us)) \<and>
     users_of gs = (\<lambda>g. map_option set (map_of cfg g)))"

lemma fold_update_map_of:
  "distinct (map fst cfg) \<Longrightarrow>
   map_of (fold (\<lambda>nu. AList.update (fst nu) (f (snd nu))) cfg m) g =
     (case map_of cfg g of Some us \<Rightarrow> Some (f us) | None \<Rightarrow> map_of m g)"
  by (induction cfg arbitrary: m) (auto split: option.splits simp: map_of_eq_None_iff rev_image_eqI)

lemma distinct_fold_users: "distinct (map fst m) \<Longrightarrow> distinct (map fst (fold (\<lambda>u. AList.update u x) us m))"
  by (induction us arbitrary: m) (auto simp: distinct_update)

lemma distinct_fold_groups:
  "distinct (map fst m) \<Longrightarrow> distinct (map fst (fold (\<lambda>nu. AList.update (fst nu) (f (snd nu))) cfg m))"
  by (induction cfg arbitrary: m) (auto simp: distinct_update)

lemma set_update_subset: "set (AList.update k v m) \<subseteq> insert (k, v) (set m)"
  by (induction m) auto

lemma snd_fold_groups:
  "snd ` set (fold (\<lambda>nu. AList.update (fst nu) (f (snd nu))) cfg m) \<subseteq>
     snd ` set m \<union> f ` snd ` set cfg"
proof (induction cfg arbitrary: m)
  case (Cons nu cfg)
  have "snd ` set (AList.update (fst nu) (f (snd nu)) m) \<subseteq> insert (f (snd nu)) (snd ` set m)"
    using set_update_subset [of "fst nu" "f (snd nu)" m] by auto
  with Cons.IH [of "AList.update (fst nu) (f (snd nu)) m"] show ?case by auto
qed simp

lemma snd_fold_groups_Nil:
  "snd ` set (fold (\<lambda>nu. AList.update (fst nu) (f (snd nu))) cfg []) \<subseteq> f ` snd ` set cfg"
  using snd_fold_groups [of f cfg "[]"] by simp

lemma Configure_configured:
  assumes "distinct (map fst cfg)"
  shows "configured (Configure cfg s) cfg"
proof -
  let ?f = "\<lambda>us. fold (\<lambda>u. AList.update u True) us []"
  let ?gs = "fold (\<lambda>nu. AList.update (fst nu) (?f (snd nu))) cfg []"
  have "as_groups (Configure cfg s) = Some ?gs"
    by (simp add: Configure_def configure_fold)
  moreover have "distinct (map fst ?gs)" by (rule distinct_fold_groups) simp
  moreover have "\<forall>us \<in> snd ` set ?gs. distinct (map fst us)"
  proof
    fix us assume "us \<in> snd ` set ?gs"
    then have "us \<in> ?f ` snd ` set cfg"
      by (rule subsetD [OF snd_fold_groups_Nil])
    then obtain cus where "us = ?f cus" by (rule imageE)
    then show "distinct (map fst us)" using distinct_fold_users [of "[]" True cus] by simp
  qed
  moreover have "users_of ?gs = (\<lambda>g. map_option set (map_of cfg g))"
    by (rule ext) (auto simp: users_of_def fold_update_map_of [OF assms, of ?f] keys_fold_update
      split: option.splits)
  ultimately show ?thesis unfolding configured_def by blast
qed

lemma Configure_known:
  "IsKnownUser (Configure cfg s) u \<longleftrightarrow> (\<exists>nu \<in> set cfg. u \<in> set (snd nu))"
  by (simp add: IsKnownUser_def Configure_def configure_fold map_of_eq_None_iff known_fold)

section \<open>The decision\<close>

lemma check_user_configured:
  "users_of gs g = Some us \<Longrightarrow> CheckUserInGroup gs u g = (if u \<in> us then None else Some ErrUserNotInGroup)"
  "users_of gs g = None \<Longrightarrow> CheckUserInGroup gs u g = Some ErrGroupNotFound"
  by (auto simp: users_of_def CheckUserInGroup_def map_of_eq_None_iff split: option.splits
      dest: map_of_SomeD intro!: image_eqI [where f = fst])

lemma check_groups_configured:
  "check_groups (Some gs) u grps =
     Ret (if \<exists>g \<in> set grps. \<exists>us. users_of gs g = Some us \<and> u \<in> us then None else Some ErrUserNotAllowed)"
proof (induction grps)
  case (Cons g grps)
  show ?case
  proof (cases "users_of gs g")
    case None
    with Cons show ?thesis by (simp add: check_user_configured(2))
  next
    case (Some us)
    with Cons show ?thesis by (simp add: check_user_configured(1) [OF Some])
  qed
qed simp

lemma check_channels_iff:
  "check_channels ch chs = (if ch \<in> set chs then None else Some ErrChannelNotAllowed)"
  by (induction chs) auto

text \<open>The policy without loops or tables, over the configured groups.\<close>

definition user_allowed :: "(string, string list) gomap \<Rightarrow> string \<Rightarrow> authorization \<Rightarrow> bool" where
  "user_allowed cfg u cmd \<longleftrightarrow>
     ca_AuthStrategy cmd = ''any'' \<or>
     ca_AuthStrategy cmd = ''group'' \<and>
       (\<exists>g \<in> set (ca_AllowedGroups cmd). \<exists>us. map_of cfg g = Some us \<and> u \<in> set us)"

definition channel_error :: "request \<Rightarrow> authorization \<Rightarrow> err option" where
  "channel_error req cmd =
     (if ca_ChannelStrategy cmd = ''im_only'' then (if req_IsIM req then None else Some ErrOnlyIMAllowed)
      else if ca_ChannelStrategy cmd = ''channel'' then
        (if req_Channel req \<in> set (ca_AllowedChannels cmd) then None else Some ErrChannelNotAllowed)
      else None)"

definition policy :: "(string, string list) gomap \<Rightarrow> request \<Rightarrow> authorization \<Rightarrow> err option" where
  "policy cfg req cmd =
     (if user_allowed cfg (req_Username req) cmd then channel_error req cmd else Some ErrUserNotAllowed)"

text \<open>
  The policy that \<^verbatim>\<open>docs/index.html\<close> describes: it says of \<^verbatim>\<open>allowed_channels\<close> that any channel will do if the list is
  empty.
\<close>

definition documented_policy :: "(string, string list) gomap \<Rightarrow> request \<Rightarrow> authorization \<Rightarrow> err option" where
  "documented_policy cfg req cmd =
     (if \<not> user_allowed cfg (req_Username req) cmd then Some ErrUserNotAllowed
      else if ca_ChannelStrategy cmd = ''channel'' \<and> ca_AllowedChannels cmd = [] then None
      else channel_error req cmd)"

lemma policy_documented:
  "policy cfg req cmd = documented_policy cfg req cmd \<longleftrightarrow>
   \<not> (user_allowed cfg (req_Username req) cmd \<and> ca_ChannelStrategy cmd = ''channel'' \<and> ca_AllowedChannels cmd = [])"
  by (simp add: policy_def documented_policy_def channel_error_def)

lemma users_of_configured:
  "users_of gs = (\<lambda>g. map_option set (map_of cfg g)) \<Longrightarrow>
   (\<exists>us. users_of gs g = Some us \<and> u \<in> us) \<longleftrightarrow> (\<exists>us. map_of cfg g = Some us \<and> u \<in> set us)"
  by auto

lemma Check_policy:
  assumes "configured s cfg"
  shows "Check s req cmd = Ret (policy cfg req cmd)"
proof -
  from assms obtain gs where gs: "as_groups s = Some gs"
    "users_of gs = (\<lambda>g. map_option set (map_of cfg g))"
    by (auto simp: configured_def)
  have g: "check_groups (as_groups s) (req_Username req) (ca_AllowedGroups cmd) =
      Ret (if \<exists>g \<in> set (ca_AllowedGroups cmd). \<exists>us. map_of cfg g = Some us \<and> req_Username req \<in> set us
           then None else Some ErrUserNotAllowed)"
    unfolding gs(1) check_groups_configured users_of_configured [OF gs(2)] by simp
  show ?thesis
    by (simp add: Check_def authStrategies_def channelStrategies_def strategy_names policy_def
        user_allowed_def channel_error_def g check_channels_iff)
qed

lemma GetGroups_configured:
  assumes "configured s cfg" and "distinct (map fst cfg)"
  shows "\<exists>g. GetGroups s = Ret g \<and> map_of g = (\<lambda>n. map_option (\<lambda>us. sorted_list_of_set (set us)) (map_of cfg n))"
proof -
  from assms(1) obtain gs where gs: "as_groups s = Some gs" "distinct (map fst gs)"
    "\<forall>us \<in> snd ` set gs. distinct (map fst us)"
    "users_of gs = (\<lambda>g. map_option set (map_of cfg g))"
    by (auto simp: configured_def)
  let ?g = "fold (\<lambda>nu. AList.update (fst nu) (sort (map fst (snd nu)))) gs []"
  have "GetGroups s = Ret ?g"
    by (simp add: GetGroups_def gs(1) case_prod_beta')
  moreover have "map_of ?g n = map_option (\<lambda>us. sorted_list_of_set (set us)) (map_of cfg n)" for n
  proof (cases "map_of gs n")
    case None
    then have "map_of cfg n = None"
      using fun_cong [OF gs(4), of n] by (simp add: users_of_def)
    with None show ?thesis
      by (simp add: fold_update_map_of [OF gs(2), of "\<lambda>us. sort (map fst us)"])
  next
    case (Some us)
    then have d: "distinct (map fst us)" using gs(3) by (metis imageI map_of_SomeD snd_conv)
    from Some obtain cus where c: "map_of cfg n = Some cus" "fst ` set us = set cus"
      using fun_cong [OF gs(4), of n] by (cases "map_of cfg n") (auto simp: users_of_def)
    have "sort (map fst us) = sorted_list_of_set (set cus)"
      using d c(2) by (metis list.set_map sorted_list_of_set_sort_remdups distinct_remdups_id)
    with Some c(1) show ?thesis
      by (simp add: fold_update_map_of [OF gs(2), of "\<lambda>us. sort (map fst us)"])
  qed
  ultimately show ?thesis by auto
qed

section \<open>Properties\<close>

text \<open>
  C1: after \<open>Configure\<close>, whatever was configured before, the check of a request never panics and decides so: the
  user must be allowed by the strategy (anyone, or a member of one of the groups of the command that
  exist; unknown strategies allow nobody), and only then the channel strategy decides (unknown ones allow
  every channel). This is what the documentation says but for one case: under the strategy for listed
  channels an empty list lets no channel in, where the documentation says that any will do.
\<close>

theorem check_is_policy:
  assumes "distinct (map fst cfg)"
  shows "Check (Configure cfg s) req cmd = Ret (policy cfg req cmd) \<and>
    (policy cfg req cmd = documented_policy cfg req cmd \<longleftrightarrow>
      \<not> (user_allowed cfg (req_Username req) cmd \<and> ca_ChannelStrategy cmd = ''channel'' \<and> ca_AllowedChannels cmd = [])) \<and>
    (user_allowed cfg (req_Username req) cmd \<and> ca_ChannelStrategy cmd = ''channel'' \<and> ca_AllowedChannels cmd = [] \<longrightarrow>
      policy cfg req cmd = Some ErrChannelNotAllowed)"
  using Check_policy [OF Configure_configured [OF assms]] policy_documented
  by (simp add: policy_def channel_error_def)

theorem check_is_policy_witness:
  "Check (Configure [(''admin'', [''root'', ''ann'']), (''dev'', [''bob''])] auth_init)
     (zero_request\<lparr>req_Username := ''ann''\<rparr>)
     \<lparr>ca_AuthStrategy = ''group'', ca_AllowedGroups = [''ops'', ''admin''], ca_ChannelStrategy = ''im_only'',
      ca_AllowedChannels = []\<rparr> = Ret (Some ErrOnlyIMAllowed) \<and>
   Check (Configure [(''admin'', [''root'', ''ann'']), (''dev'', [''bob''])] auth_init)
     (zero_request\<lparr>req_Username := ''ann'', req_Channel := ''general''\<rparr>)
     \<lparr>ca_AuthStrategy = ''any'', ca_AllowedGroups = [], ca_ChannelStrategy = ''channel'',
      ca_AllowedChannels = []\<rparr> = Ret (Some ErrChannelNotAllowed)"
proof -
  let ?cfg = "[(''admin'', [''root'', ''ann'']), (''dev'', [''bob''])]"
  have "distinct (map fst ?cfg)" by simp
  note c = check_is_policy [OF this, of auth_init, THEN conjunct1]
  show ?thesis unfolding c by (simp add: policy_def user_allowed_def channel_error_def zero_request_def)
qed

text \<open>
  \<open>GetGroups\<close> lists exactly the configured groups, each with its users sorted and without duplicates,
  and a user is known exactly when some configured group has it.
\<close>

theorem groups_as_configured:
  assumes "distinct (map fst cfg)"
  shows "(\<exists>g. GetGroups (Configure cfg s) = Ret g \<and>
      (\<forall>n. map_of g n = map_option (\<lambda>us. sorted_list_of_set (set us)) (map_of cfg n))) \<and>
    (\<forall>u. IsKnownUser (Configure cfg s) u \<longleftrightarrow> (\<exists>g us. map_of cfg g = Some us \<and> u \<in> set us))"
proof -
  have "(\<exists>nu \<in> set cfg. u \<in> set (snd nu)) \<longleftrightarrow> (\<exists>g us. map_of cfg g = Some us \<and> u \<in> set us)" for u
    using assms by (force dest: map_of_SomeD)
  with GetGroups_configured [OF Configure_configured [OF assms] assms, of s] show ?thesis
    by (auto simp: Configure_known)
qed

theorem groups_as_configured_witness:
  "(\<exists>g. GetGroups (Configure [(''dev'', [''bob'', ''ann'', ''bob''])] auth_init) = Ret g \<and>
      map_of g ''dev'' = Some [''ann'', ''bob'']) \<and>
    IsKnownUser (Configure [(''dev'', [''bob'', ''ann'', ''bob''])] auth_init) ''ann''"
proof -
  have d: "distinct (map fst [(''dev'', [''bob'', ''ann'', ''bob''])])" by simp
  have "sorted_list_of_set (set [''bob'', ''ann'', ''bob'']) = [''ann'', ''bob'']"
    by (rule sorted_list_of_set_eqI) (auto simp: less_char_def)
  with groups_as_configured [OF d, of auth_init] show ?thesis by auto
qed

end
