(* ===== verification/Commands.thy ===== *)
theory Commands
  imports Services
begin

text \<open>
  The command registry (\<^verbatim>\<open>commands/commands.go\<close>): a map from names to commands of a kind, changed
  by registrations that are validated as a whole before they touch the map, and looked up
  through the aliases of the user. The registry is polymorphic in the type of commands; a
  registration without a command (nil) carries \<open>None\<close>. The lemmas show the invariant of the
  registry, the effect of each kind of registration, and what a lookup finds.
\<close>

section \<open>Registration\<close>

definition KindLocalCommand :: string where "KindLocalCommand = ''local''"
definition KindRemoteCommand :: string where "KindRemoteCommand = ''remote''"
definition KindBuiltinCommand :: string where "KindBuiltinCommand = ''builtin''"
definition ActionRegister :: string where "ActionRegister = ''register''"
definition ActionUnregister :: string where "ActionUnregister = ''unregister''"

lemmas registration_names =
  KindLocalCommand_def KindRemoteCommand_def KindBuiltinCommand_def ActionRegister_def ActionUnregister_def

record 'c commandHub =
  hub_kind :: string
  hub_cmd :: 'c

type_synonym 'c registry = "(string, 'c commandHub) gomap"

definition Reset :: "'c registry" where
  "Reset = []"

definition All :: "'c registry \<Rightarrow> (string, 'c) gomap" where
  "All cmds = fold (\<lambda>(name, hub) c. gomap_update name (hub_cmd hub) c) cmds []"

record 'c CommandRegistration =
  cr_Name :: string
  cr_Cmd :: "'c option"

record 'c RegistrationArgs =
  ra_Kind :: string
  ra_Action :: string
  ra_Commands :: "'c CommandRegistration list"

definition CommandRegistration_validate :: "'c CommandRegistration \<Rightarrow> err option" where
  "CommandRegistration_validate c =
     (if trim_space (cr_Name c) = [] then Some (Errorf ''Invalid command, it has no name'')
      else if cr_Cmd c = None
      then Some (Errorf (''Invalid command '' @ cr_Name c @ '', it has no cmd''))
      else None)"

text \<open>The loop of \<open>validate\<close> over the commands.\<close>

fun validate_commands :: "'c registry \<Rightarrow> string \<Rightarrow> string \<Rightarrow> 'c CommandRegistration list \<Rightarrow> err option" where
  "validate_commands cmds kind action [] = None"
| "validate_commands cmds kind action (c # rest) =
     (case CommandRegistration_validate c of
        Some e \<Rightarrow> Some e
      | None \<Rightarrow>
          (case map_of cmds (cr_Name c) of
             Some knownCommand \<Rightarrow>
               (if hub_kind knownCommand \<noteq> kind
                then Some (Errorf (''incompatible command kind for an already known command: '' @ cr_Name c))
                else if hub_kind knownCommand = KindRemoteCommand \<and> action = ActionRegister
                then Some (Errorf (''command '' @ cr_Name c @
                       '' is invalid, re-registering remote commands is not allowed yet''))
                else validate_commands cmds kind action rest)
           | None \<Rightarrow>
               (if action = ActionUnregister
                then Some (Errorf (''can'' @ [CHR 0x27] @ ''t unregister an unknown command: '' @ cr_Name c))
                else validate_commands cmds kind action rest)))"

definition registration_validate :: "'c registry \<Rightarrow> 'c RegistrationArgs \<Rightarrow> err option" where
  "registration_validate cmds r =
     (if trim_space (ra_Kind r) = [] then Some (Errorf ''Invalid registration, it has no kind'')
      else if ra_Kind r \<notin> {KindBuiltinCommand, KindLocalCommand, KindRemoteCommand}
      then Some (Errorf (''Invalid kind of registration: '' @ ra_Kind r))
      else if ra_Action r \<notin> {ActionRegister, ActionUnregister}
      then Some (Errorf (''Invalid action '' @ ra_Action r))
      else validate_commands cmds (ra_Kind r) (ra_Action r) (ra_Commands r))"

definition unregisterCommands :: "'c RegistrationArgs \<Rightarrow> 'c registry \<Rightarrow> 'c registry" where
  "unregisterCommands r cmds =
     (if ra_Kind r = KindLocalCommand
      then filter (\<lambda>(name, hub). hub_kind hub \<noteq> KindLocalCommand) cmds
      else if ra_Kind r = KindRemoteCommand
      then fold (\<lambda>c m. gomap_delete (cr_Name c) m) (ra_Commands r) cmds
      else cmds)"

text \<open>Validation has made sure that every registration carries a command.\<close>

definition registerCommands :: "'c RegistrationArgs \<Rightarrow> 'c registry \<Rightarrow> 'c registry" where
  "registerCommands r cmds =
     fold (\<lambda>c m. gomap_update (cr_Name c) \<lparr>hub_kind = ra_Kind r, hub_cmd = the (cr_Cmd c)\<rparr> m) (ra_Commands r) cmds"

definition registration_process :: "'c RegistrationArgs \<Rightarrow> 'c registry \<Rightarrow> 'c registry" where
  "registration_process r cmds =
     (if ra_Action r = ActionRegister
      then registerCommands r (if ra_Kind r = KindLocalCommand then unregisterCommands r cmds else cmds)
      else unregisterCommands r cmds)"

definition Register :: "'c RegistrationArgs \<Rightarrow> 'c registry \<Rightarrow> err option \<times> 'c registry" where
  "Register args cmds =
     (case registration_validate cmds args of
        Some e \<Rightarrow> (Some e, cmds)
      | None \<Rightarrow> (None, registration_process args cmds))"

text \<open>
  \<open>Find\<close> returns the command, if any, and the request it leaves behind: through an alias, the name
  and the arguments of the request become those of the alias. An error of the alias service is
  the empty alias.
\<close>

definition Find :: "'w aliases_service \<Rightarrow> 'c registry \<Rightarrow> request \<Rightarrow> 'w \<Rightarrow> ('c option \<times> request) \<times> 'w" where
  "Find S cmds req w =
     (case as_Get S (req_UserID req) (req_Command req) w of
        (r, w') \<Rightarrow>
          (let (aliasedCommand, args) = (case r of Inl _ \<Rightarrow> ([], []) | Inr x \<Rightarrow> x)
           in case map_of cmds aliasedCommand of
                Some hub \<Rightarrow>
                  ((Some (hub_cmd hub),
                    req\<lparr>req_Command := aliasedCommand, req_Args := args @ req_Args req\<rparr>), w')
              | None \<Rightarrow>
                  ((map_option hub_cmd (map_of cmds (req_Command req)), req), w')))"

section \<open>The invariant\<close>

definition registry_ok :: "'c registry \<Rightarrow> bool" where
  "registry_ok cmds \<longleftrightarrow> gomap_ok cmds \<and>
     (\<forall>name hub. map_of cmds name = Some hub \<longrightarrow> trim_space name \<noteq> [] \<and>
       hub_kind hub \<in> {KindBuiltinCommand, KindLocalCommand, KindRemoteCommand})"

lemma kinds_distinct [simp]:
  "KindLocalCommand \<noteq> KindRemoteCommand" "KindRemoteCommand \<noteq> KindLocalCommand"
  "KindLocalCommand \<noteq> KindBuiltinCommand" "KindBuiltinCommand \<noteq> KindLocalCommand"
  "KindRemoteCommand \<noteq> KindBuiltinCommand" "KindBuiltinCommand \<noteq> KindRemoteCommand"
  "ActionRegister \<noteq> ActionUnregister" "ActionUnregister \<noteq> ActionRegister"
  by (simp_all add: registration_names)

text \<open>A valid registration, as a condition on its parts.\<close>

definition valid_registration :: "'c registry \<Rightarrow> string \<Rightarrow> string \<Rightarrow> 'c CommandRegistration \<Rightarrow> bool" where
  "valid_registration cmds kind action c \<longleftrightarrow>
     trim_space (cr_Name c) \<noteq> [] \<and> cr_Cmd c \<noteq> None \<and>
     (case map_of cmds (cr_Name c) of
        Some hub \<Rightarrow> hub_kind hub = kind \<and> \<not> (kind = KindRemoteCommand \<and> action = ActionRegister)
      | None \<Rightarrow> action \<noteq> ActionUnregister)"

lemma validate_commands_None:
  "validate_commands cmds kind action cs = None \<longleftrightarrow> (\<forall>c \<in> set cs. valid_registration cmds kind action c)"
  by (induction cs)
     (auto simp: valid_registration_def CommandRegistration_validate_def split: option.splits)

lemma kinds_not_blank [simp]:
  "trim_space KindLocalCommand \<noteq> []" "trim_space KindRemoteCommand \<noteq> []" "trim_space KindBuiltinCommand \<noteq> []"
  by (simp_all add: registration_names trim_space_id edge_byte_def)

lemma registration_validate_None:
  "registration_validate cmds r = None \<longleftrightarrow>
     ra_Kind r \<in> {KindBuiltinCommand, KindLocalCommand, KindRemoteCommand} \<and>
     ra_Action r \<in> {ActionRegister, ActionUnregister} \<and>
     (\<forall>c \<in> set (ra_Commands r). valid_registration cmds (ra_Kind r) (ra_Action r) c)"
proof -
  have "trim_space k \<noteq> []" if "k \<in> {KindBuiltinCommand, KindLocalCommand, KindRemoteCommand}" for k
    using that by auto
  then show ?thesis by (auto simp: registration_validate_def validate_commands_None)
qed

lemma Register_conv:
  "Register r cmds = (None, cmds') \<longleftrightarrow> registration_validate cmds r = None \<and> cmds' = registration_process r cmds"
  "Register r cmds = (Some e, cmds') \<longleftrightarrow> registration_validate cmds r = Some e \<and> cmds' = cmds"
  by (auto simp: Register_def split: option.splits)

text \<open>The registry after each action, as a map.\<close>

definition new_hubs :: "'c RegistrationArgs \<Rightarrow> string \<Rightarrow> 'c commandHub option" where
  "new_hubs r = map_of (rev (map (\<lambda>c. (cr_Name c, \<lparr>hub_kind = ra_Kind r, hub_cmd = the (cr_Cmd c)\<rparr>)) (ra_Commands r)))"

lemma map_of_registerCommands:
  "map_of (registerCommands r cmds) = map_of cmds ++ new_hubs r"
proof (rule ext)
  fix k
  show "map_of (registerCommands r cmds) k = (map_of cmds ++ new_hubs r) k"
    unfolding registerCommands_def fold_update_conv new_hubs_def map_add_def ..
qed

lemma map_of_unregisterCommands:
  "gomap_ok cmds \<Longrightarrow> ra_Kind r = KindLocalCommand \<Longrightarrow>
     map_of (unregisterCommands r cmds) n =
       (case map_of cmds n of None \<Rightarrow> None
        | Some hub \<Rightarrow> if hub_kind hub = KindLocalCommand then None else Some hub)"
  "ra_Kind r = KindRemoteCommand \<Longrightarrow>
     map_of (unregisterCommands r cmds) n = (if n \<in> cr_Name ` set (ra_Commands r) then None else map_of cmds n)"
  "ra_Kind r = KindBuiltinCommand \<Longrightarrow> unregisterCommands r cmds = cmds"
  by (auto simp: unregisterCommands_def map_of_filter_key fold_delete_conv split: option.splits)

lemma gomap_ok_process: "gomap_ok cmds \<Longrightarrow> gomap_ok (registration_process r cmds)"
  by (auto simp: registration_process_def registerCommands_def unregisterCommands_def distinct_map_filter
      intro!: fold_update_distinct fold_delete_distinct)

lemma new_hubs_Some:
  "new_hubs r n = Some hub \<Longrightarrow>
   hub_kind hub = ra_Kind r \<and> (\<exists>c \<in> set (ra_Commands r). cr_Name c = n \<and> hub_cmd hub = the (cr_Cmd c))"
  by (force simp: new_hubs_def dest!: map_of_SomeD)

lemma new_hubs_None: "new_hubs r n = None \<longleftrightarrow> n \<notin> cr_Name ` set (ra_Commands r)"
  by (auto simp: new_hubs_def map_of_eq_None_iff image_image)

lemma unregister_sub:
  "gomap_ok cmds \<Longrightarrow> map_of (unregisterCommands r cmds) n = Some hub \<Longrightarrow> map_of cmds n = Some hub"
  by (auto simp: unregisterCommands_def map_of_filter_key fold_delete_conv split: option.splits if_splits)

lemma Register_ok:
  assumes ok: "registry_ok cmds" and res: "Register r cmds = (e, cmds')"
  shows "registry_ok cmds'"
proof (cases e)
  case (Some x)
  with res ok show ?thesis by (simp add: Register_conv)
next
  case None
  with res have v: "registration_validate cmds r = None" and cmds': "cmds' = registration_process r cmds"
    by (simp_all add: Register_conv)
  have g: "gomap_ok cmds" using ok by (simp add: registry_ok_def)
  have "trim_space n \<noteq> [] \<and> hub_kind hub \<in> {KindBuiltinCommand, KindLocalCommand, KindRemoteCommand}"
    if "map_of cmds' n = Some hub" for n hub
  proof -
    have "map_of cmds n = Some hub \<or> new_hubs r n = Some hub"
      using that unregister_sub [OF g]
      by (auto simp: cmds' registration_process_def map_of_registerCommands map_add_Some_iff split: if_splits)
    then show ?thesis
    proof
      assume "map_of cmds n = Some hub"
      with ok show ?thesis by (simp add: registry_ok_def)
    next
      assume "new_hubs r n = Some hub"
      from new_hubs_Some [OF this] v show ?thesis
        by (auto simp: registration_validate_None valid_registration_def)
    qed
  qed
  with gomap_ok_process [OF g, of r] show ?thesis by (simp add: registry_ok_def cmds')
qed

text \<open>What each kind of registration does to the map.\<close>

lemma Register_remote:
  assumes "Register r cmds = (None, cmds')" and "ra_Kind r = KindRemoteCommand" and "ra_Action r = ActionRegister"
  shows "map_of cmds' = map_of cmds ++ new_hubs r" and "dom (map_of cmds) \<inter> dom (new_hubs r) = {}"
proof -
  show "map_of cmds' = map_of cmds ++ new_hubs r"
    using assms by (simp add: Register_conv registration_process_def map_of_registerCommands)
  have "map_of cmds (cr_Name c) = None" if "c \<in> set (ra_Commands r)" for c
    using assms that
    by (auto simp: Register_conv registration_validate_None valid_registration_def split: option.splits)
  moreover have "dom (new_hubs r) = cr_Name ` set (ra_Commands r)"
    by (rule set_eqI) (simp only: domIff new_hubs_None not_not)
  ultimately show "dom (map_of cmds) \<inter> dom (new_hubs r) = {}" by auto
qed

lemma Register_local:
  assumes ok: "registry_ok cmds" and "Register r cmds = (None, cmds')"
    and "ra_Kind r = KindLocalCommand" and "ra_Action r = ActionRegister"
  shows "map_of cmds' n =
    (case new_hubs r n of Some hub \<Rightarrow> Some hub
     | None \<Rightarrow> (case map_of cmds n of None \<Rightarrow> None
         | Some hub \<Rightarrow> if hub_kind hub = KindLocalCommand then None else Some hub))"
proof -
  have g: "gomap_ok cmds" using ok by (simp add: registry_ok_def)
  have "cmds' = registerCommands r (unregisterCommands r cmds)"
    using assms by (simp add: Register_conv registration_process_def)
  then show ?thesis
    by (cases "new_hubs r n")
       (simp_all add: map_of_registerCommands map_add_def map_of_unregisterCommands(1) [OF g assms(3)])
qed

lemma Unregister_remote:
  assumes "Register r cmds = (None, cmds')" and "ra_Kind r = KindRemoteCommand" and "ra_Action r = ActionUnregister"
  shows "map_of cmds' n = (if n \<in> cr_Name ` set (ra_Commands r) then None else map_of cmds n)"
  using assms by (simp add: Register_conv registration_process_def map_of_unregisterCommands(2))

text \<open>The kind of a registered name never changes.\<close>

lemma Register_kind_stable:
  assumes ok: "registry_ok cmds" and res: "Register r cmds = (e, cmds')"
    and "map_of cmds n = Some h" and "map_of cmds' n = Some h'"
  shows "hub_kind h' = hub_kind h"
proof (cases e)
  case (Some x)
  with res assms(3,4) show ?thesis by (simp add: Register_conv)
next
  case None
  with res have v: "registration_validate cmds r = None" and cmds': "cmds' = registration_process r cmds"
    by (simp_all add: Register_conv)
  have g: "gomap_ok cmds" using ok by (simp add: registry_ok_def)
  have "map_of cmds n = Some h' \<or> new_hubs r n = Some h'"
    using assms(4) unregister_sub [OF g]
    by (auto simp: cmds' registration_process_def map_of_registerCommands map_add_Some_iff split: if_splits)
  then show ?thesis
  proof
    assume "map_of cmds n = Some h'"
    with assms(3) show ?thesis by simp
  next
    assume "new_hubs r n = Some h'"
    from new_hubs_Some [OF this] obtain c where c: "c \<in> set (ra_Commands r)" "cr_Name c = n"
      and k: "hub_kind h' = ra_Kind r" by blast
    from v c(1) have "valid_registration cmds (ra_Kind r) (ra_Action r) c"
      by (simp add: registration_validate_None)
    with assms(3) c(2) k show ?thesis by (simp add: valid_registration_def)
  qed
qed

text \<open>A remote agent that registers and goes away leaves the registry as it was.\<close>

lemma unregister_undoes_register:
  assumes "Register r cmds = (None, cmds1)" and "ra_Kind r = KindRemoteCommand" and "ra_Action r = ActionRegister"
    and "map cr_Name (ra_Commands r') = map cr_Name (ra_Commands r)" and "\<forall>c \<in> set (ra_Commands r'). cr_Cmd c \<noteq> None"
    and "ra_Kind r' = KindRemoteCommand" and "ra_Action r' = ActionUnregister"
  shows "\<exists>cmds2. Register r' cmds1 = (None, cmds2) \<and> map_of cmds2 = map_of cmds"
proof -
  note reg = Register_remote [OF assms(1-3)]
  have names: "cr_Name ` set (ra_Commands r') = cr_Name ` set (ra_Commands r)"
    using assms(4) by (metis list.set_map)
  have "valid_registration cmds1 KindRemoteCommand ActionUnregister c" if "c \<in> set (ra_Commands r')" for c
  proof -
    from that names have n: "cr_Name c \<in> cr_Name ` set (ra_Commands r)" by (metis imageI)
    then obtain c0 where c0: "c0 \<in> set (ra_Commands r)" "cr_Name c0 = cr_Name c" by (metis imageE)
    with assms(1-3) have "trim_space (cr_Name c) \<noteq> []"
      by (auto simp: Register_conv registration_validate_None valid_registration_def)
    moreover obtain hub where hub: "new_hubs r (cr_Name c) = Some hub"
      using n new_hubs_None [of r "cr_Name c"] by auto
    from new_hubs_Some [OF hub] have "hub_kind hub = KindRemoteCommand" by (simp add: assms(2))
    ultimately show ?thesis
      using that assms(5) hub by (auto simp: valid_registration_def reg(1) map_add_def)
  qed
  then have v: "registration_validate cmds1 r' = None"
    by (simp add: registration_validate_None assms(6,7))
  then obtain cmds2 where r2: "Register r' cmds1 = (None, cmds2)" by (simp add: Register_conv)
  have "map_of cmds2 n = map_of cmds n" for n
  proof (cases "n \<in> cr_Name ` set (ra_Commands r)")
    case True
    then have "new_hubs r n \<noteq> None" by (simp add: new_hubs_None)
    with reg(2) have "map_of cmds n = None" by blast
    with True show ?thesis by (simp add: Unregister_remote [OF r2 assms(6,7)] names)
  next
    case False
    then have "new_hubs r n = None" by (simp only: new_hubs_None not_False_eq_True)
    with False show ?thesis
      by (simp add: Unregister_remote [OF r2 assms(6,7)] names reg(1) map_add_def)
  qed
  with r2 show ?thesis by auto
qed

section \<open>Lookup\<close>

lemma registry_no_empty_name: "registry_ok cmds \<Longrightarrow> map_of cmds [] = None"
proof -
  assume ok: "registry_ok cmds"
  have "trim_space [] = []" by (simp add: trim_space_id)
  with ok show ?thesis by (cases "map_of cmds []") (auto simp: registry_ok_def)
qed

text \<open>The command a user means: that of the alias if it is registered, the name itself otherwise.\<close>

definition resolve :: "(string \<Rightarrow> command_alias option) \<Rightarrow> 'c registry \<Rightarrow> request \<Rightarrow> 'c option \<times> request" where
  "resolve A cmds req =
     (case A (req_Command req) of
        Some x \<Rightarrow>
          (case map_of cmds (al_Command x) of
             Some hub \<Rightarrow> (Some (hub_cmd hub), req\<lparr>req_Command := al_Command x, req_Args := al_Args x @ req_Args req\<rparr>)
           | None \<Rightarrow> (map_option hub_cmd (map_of cmds (req_Command req)), req))
      | None \<Rightarrow> (map_option hub_cmd (map_of cmds (req_Command req)), req))"

context alias_service
begin

text \<open>Whatever the alias service answers, the lookup is that of the alias or of the plain name.\<close>

lemma Find_resolve:
  assumes ok: "registry_ok cmds" and h: "holds w a" and res: "Find S cmds req w = (r, w')"
  shows "holds w' a \<and>
    (r = resolve (st_aliases a (req_UserID req)) cmds req \<or> r = resolve Map.empty cmds req)"
proof -
  obtain x w1 where g: "as_Get S (req_UserID req) (req_Command req) w = (x, w1)" by fastforce
  with res have w': "w' = w1"
    by (auto simp: Find_def Let_def split: option.splits prod.splits)
  show ?thesis
  proof (cases x)
    case (Inl e)
    with g res have "r = resolve Map.empty cmds req"
      by (auto simp: Find_def registry_no_empty_name [OF ok] resolve_def)
    with get_alias_fails [OF h g [unfolded Inl]] w' show ?thesis by blast
  next
    case (Inr ca)
    obtain c args where ca: "ca = (c, args)" by (cases ca)
    from get_alias [OF h g [unfolded Inr ca]] obtain y where h': "holds w1 a"
      and y: "st_aliases a (req_UserID req) (req_Command req) = Some y" "c = al_Command y" "args = al_Args y"
      by blast
    have "r = resolve (st_aliases a (req_UserID req)) cmds req"
      using g res by (auto simp: Find_def Inr ca resolve_def y split: option.splits)
    with h' w' show ?thesis by blast
  qed
qed

end

context stores
begin

text \<open>The world the lookup leaves behind, with the local alias store.\<close>

lemma local_Find:
  assumes "registry_ok cmds" and "world_rel C view w a" and "Find (local_aliases B C) cmds req w = (r, w')"
  shows "world_rel C view w' a"
  using local_alias.Find_resolve [OF assms] by blast

end

section \<open>Properties\<close>

text \<open>
  C18: a registration keeps the registry well formed (one entry per name, no blank name, only the three
  kinds), never changes the kind of a name that stays registered, and leaves the registry as it was
  when it reports an error.
\<close>

theorem register_keeps_registry:
  assumes "registry_ok cmds" and "Register r cmds = (e, cmds')"
  shows "registry_ok cmds' \<and> (e \<noteq> None \<longrightarrow> cmds' = cmds) \<and>
    (\<forall>n h h'. map_of cmds n = Some h \<longrightarrow> map_of cmds' n = Some h' \<longrightarrow> hub_kind h' = hub_kind h)"
proof -
  have "e \<noteq> None \<longrightarrow> cmds' = cmds" using assms(2) by (auto simp: Register_def split: option.splits)
  with Register_ok [OF assms] Register_kind_stable [OF assms] show ?thesis by blast
qed

definition example_registry :: "nat registry" where
  "example_registry =
     [(''help'', \<lparr>hub_kind = KindBuiltinCommand, hub_cmd = 0\<rparr>), (''echo'', \<lparr>hub_kind = KindLocalCommand, hub_cmd = 1\<rparr>),
      (''date'', \<lparr>hub_kind = KindLocalCommand, hub_cmd = 2\<rparr>)]"

lemma example_registry_ok: "registry_ok example_registry"
  by (auto simp: registry_ok_def example_registry_def trim_space_id edge_byte_def split: if_splits)

theorem register_keeps_registry_witness:
  "\<exists>cmds'. Register \<lparr>ra_Kind = KindRemoteCommand, ra_Action = ActionRegister,
       ra_Commands = [\<lparr>cr_Name = ''echo'', cr_Cmd = Some 3\<rparr>]\<rparr> example_registry = (Some (Errorf
       ''incompatible command kind for an already known command: echo''), cmds') \<and> cmds' = example_registry"
proof -
  let ?r = "\<lparr>ra_Kind = KindRemoteCommand, ra_Action = ActionRegister,
      ra_Commands = [\<lparr>cr_Name = ''echo'', cr_Cmd = Some (3 :: nat)\<rparr>]\<rparr>"
  have "fst (Register ?r example_registry) =
      Some (Errorf ''incompatible command kind for an already known command: echo'')"
    by (simp add: Register_def registration_validate_def CommandRegistration_validate_def example_registry_def
        trim_space_id edge_byte_def)
  with register_keeps_registry [OF example_registry_ok, of ?r] show ?thesis
    by (cases "Register ?r example_registry") auto
qed

text \<open>
  C17: when an agent registers remote commands and later unregisters commands of the same names, the
  registry answers every lookup as before the registration; in between, the names it registered
  were new and every other name was untouched.
\<close>

theorem agent_leaves_no_trace:
  assumes "Register \<lparr>ra_Kind = KindRemoteCommand, ra_Action = ActionRegister, ra_Commands = cs\<rparr> cmds = (None, cmds1)"
    and "map cr_Name cs' = map cr_Name cs" and "\<forall>c \<in> set cs'. cr_Cmd c \<noteq> None"
  shows "(\<forall>c \<in> set cs. map_of cmds (cr_Name c) = None \<and> map_of cmds1 (cr_Name c) \<noteq> None) \<and>
    (\<forall>n. n \<notin> cr_Name ` set cs \<longrightarrow> map_of cmds1 n = map_of cmds n) \<and>
    (\<exists>cmds2. Register \<lparr>ra_Kind = KindRemoteCommand, ra_Action = ActionUnregister, ra_Commands = cs'\<rparr> cmds1 =
      (None, cmds2) \<and> map_of cmds2 = map_of cmds)"
proof -
  let ?r = "\<lparr>ra_Kind = KindRemoteCommand, ra_Action = ActionRegister, ra_Commands = cs\<rparr>"
  note reg = Register_remote [OF assms(1), unfolded RegistrationArgs.simps, OF refl refl]
  have dom: "dom (new_hubs ?r) = cr_Name ` set cs"
    by (rule set_eqI) (simp add: domIff new_hubs_None)
  have "map_of cmds (cr_Name c) = None \<and> map_of cmds1 (cr_Name c) \<noteq> None" if "c \<in> set cs" for c
  proof -
    have n: "cr_Name c \<in> dom (new_hubs ?r)" using dom that by simp
    then have "map_of cmds (cr_Name c) = None" using reg(2) by (auto simp only: domIff)
    moreover have "map_of cmds1 (cr_Name c) = new_hubs ?r (cr_Name c)"
      using n by (simp add: reg(1) map_add_dom_app_simps)
    ultimately show ?thesis using n by (metis domIff)
  qed
  moreover have "map_of cmds1 n = map_of cmds n" if "n \<notin> cr_Name ` set cs" for n
  proof -
    have "n \<notin> dom (new_hubs ?r)" using that dom by blast
    then show ?thesis using reg(1) by (simp add: map_add_dom_app_simps)
  qed
  moreover have "\<exists>cmds2. Register \<lparr>ra_Kind = KindRemoteCommand, ra_Action = ActionUnregister, ra_Commands = cs'\<rparr> cmds1 =
      (None, cmds2) \<and> map_of cmds2 = map_of cmds"
    by (rule unregister_undoes_register [OF assms(1)]) (use assms(2,3) in simp_all)
  ultimately show ?thesis by blast
qed

theorem agent_leaves_no_trace_witness:
  "\<exists>cmds1 cmds2. Register \<lparr>ra_Kind = KindRemoteCommand, ra_Action = ActionRegister,
       ra_Commands = [\<lparr>cr_Name = ''deploy'', cr_Cmd = Some 4\<rparr>]\<rparr> example_registry = (None, cmds1) \<and>
     Register \<lparr>ra_Kind = KindRemoteCommand, ra_Action = ActionUnregister,
       ra_Commands = [\<lparr>cr_Name = ''deploy'', cr_Cmd = Some 5\<rparr>]\<rparr> cmds1 = (None, cmds2) \<and>
     map_of cmds1 ''deploy'' \<noteq> None \<and> map_of cmds2 = map_of example_registry"
proof -
  let ?r = "\<lparr>ra_Kind = KindRemoteCommand, ra_Action = ActionRegister,
      ra_Commands = [\<lparr>cr_Name = ''deploy'', cr_Cmd = Some (4 :: nat)\<rparr>]\<rparr>"
  have "fst (Register ?r example_registry) = None"
    by (simp add: Register_def registration_validate_def CommandRegistration_validate_def example_registry_def
        trim_space_id edge_byte_def)
  then obtain cmds1 where c: "Register ?r example_registry = (None, cmds1)"
    by (cases "Register ?r example_registry") auto
  from agent_leaves_no_trace [OF c, of "[\<lparr>cr_Name = ''deploy'', cr_Cmd = Some 5\<rparr>]"] c show ?thesis by auto
qed

text \<open>
  Reloading the local commands replaces them as a whole: afterwards the local commands are exactly
  those of the registration (the last one where a name comes twice), and the builtin and remote
  commands are as before.
\<close>

theorem reload_replaces_local_commands:
  assumes "registry_ok cmds"
    and "Register \<lparr>ra_Kind = KindLocalCommand, ra_Action = ActionRegister, ra_Commands = cs\<rparr> cmds = (None, cmds')"
  shows "map_of cmds' n =
    (case map_of (rev (map (\<lambda>c. (cr_Name c, the (cr_Cmd c))) cs)) n of
       Some cmd \<Rightarrow> Some \<lparr>hub_kind = KindLocalCommand, hub_cmd = cmd\<rparr>
     | None \<Rightarrow> (case map_of cmds n of
         Some hub \<Rightarrow> if hub_kind hub = KindLocalCommand then None else Some hub
       | None \<Rightarrow> None))"
proof -
  let ?r = "\<lparr>ra_Kind = KindLocalCommand, ra_Action = ActionRegister, ra_Commands = cs\<rparr>"
  have "new_hubs ?r n = map_option (\<lambda>cmd. \<lparr>hub_kind = KindLocalCommand, hub_cmd = cmd\<rparr>)
      (map_of (rev (map (\<lambda>c. (cr_Name c, the (cr_Cmd c))) cs)) n)"
  proof -
    have e: "rev (map (\<lambda>c. (cr_Name c, \<lparr>hub_kind = KindLocalCommand, hub_cmd = the (cr_Cmd c)\<rparr>)) cs) =
        map (\<lambda>(k, v). (k, \<lparr>hub_kind = KindLocalCommand, hub_cmd = v\<rparr>)) (rev (map (\<lambda>c. (cr_Name c, the (cr_Cmd c))) cs))"
      by (simp add: rev_map comp_def)
    show ?thesis by (simp only: new_hubs_def RegistrationArgs.simps e map_of_map comp_def)
  qed
  with Register_local [OF assms, of n] show ?thesis
    by (simp add: case_map_option comp_def split: option.splits)
qed

theorem reload_replaces_local_commands_witness:
  "\<exists>cmds'. Register \<lparr>ra_Kind = KindLocalCommand, ra_Action = ActionRegister,
       ra_Commands = [\<lparr>cr_Name = ''echo'', cr_Cmd = Some 7\<rparr>]\<rparr> example_registry = (None, cmds') \<and>
     map_of cmds' ''echo'' = Some \<lparr>hub_kind = KindLocalCommand, hub_cmd = 7\<rparr> \<and> map_of cmds' ''date'' = None \<and>
     map_of cmds' ''help'' = map_of example_registry ''help''"
proof -
  let ?r = "\<lparr>ra_Kind = KindLocalCommand, ra_Action = ActionRegister,
      ra_Commands = [\<lparr>cr_Name = ''echo'', cr_Cmd = Some (7 :: nat)\<rparr>]\<rparr>"
  have "fst (Register ?r example_registry) = None"
    by (simp add: Register_def registration_validate_def CommandRegistration_validate_def example_registry_def
        trim_space_id edge_byte_def)
  then obtain cmds' where c: "Register ?r example_registry = (None, cmds')"
    by (cases "Register ?r example_registry") auto
  note t = reload_replaces_local_commands [OF example_registry_ok c]
  from c t [of "''echo''"] t [of "''date''"] t [of "''help''"] show ?thesis
    by (auto simp: example_registry_def)
qed

text \<open>
  C16: with the local alias store, \<open>Find\<close> gives the command the request resolves to: through the alias of
  the calling user when the store returns one whose command is registered, with the alias's
  arguments before those of the request, and by the name itself otherwise; what is stored stays.
  Where the store fails the name itself is looked up.
\<close>

theorem find_resolves_aliases:
  assumes "stores B view C" and "registry_ok cmds" and "world_rel C view w a"
    and "Find (local_aliases B C) cmds req w = (r, w')"
  shows "world_rel C view w' a \<and>
    r = (if \<exists>e. fst (as_Get (local_aliases B C) (req_UserID req) (req_Command req) w) = Fails e
         then (map_option hub_cmd (map_of cmds (req_Command req)), req)
         else resolve (st_aliases a (req_UserID req)) cmds req)"
proof (cases "as_Get (local_aliases B C) (req_UserID req) (req_Command req) w")
  case (Pair x w1)
  show ?thesis
  proof (cases x)
    case (Inl e)
    have "r = (map_option hub_cmd (map_of cmds (req_Command req)), req)"
      using assms(4) by (auto simp: Find_def Pair Inl registry_no_empty_name [OF assms(2)])
    with Pair Inl stores.local_Find [OF assms] show ?thesis by simp
  next
    case (Inr y)
    obtain c args where y: "y = (c, args)" by (cases y)
    from stores.local_get_alias [OF assms(1,3) Pair [unfolded Inr y]] obtain z where
      z: "st_aliases a (req_UserID req) (req_Command req) = Some z" "c = al_Command z" "args = al_Args z" by blast
    have "r = resolve (st_aliases a (req_UserID req)) cmds req"
      using assms(4) by (auto simp: Find_def Pair Inr y resolve_def z split: option.splits)
    with Pair Inr stores.local_Find [OF assms] show ?thesis by simp
  qed
qed

theorem find_resolves_aliases_witness:
  "\<exists>w. as_Create (local_aliases ref_bolt ref_codec) ''U1'' ''d'' ''deploy'' [''prod''] ref_world = (Returns (), w) \<and>
    fst (Find (local_aliases ref_bolt ref_codec) [(''deploy'', \<lparr>hub_kind = KindLocalCommand, hub_cmd = (1 :: nat)\<rparr>)]
      (zero_request\<lparr>req_UserID := ''U1'', req_Command := ''d'', req_Args := [''now'']\<rparr>) w) =
    (Some 1, zero_request\<lparr>req_UserID := ''U1'', req_Command := ''deploy'', req_Args := [''prod'', ''now'']\<rparr>)"
proof -
  let ?req = "zero_request\<lparr>req_UserID := ''U1'', req_Command := ''d'', req_Args := [''now'']\<rparr>"
  let ?cmds = "[(''deploy'', \<lparr>hub_kind = KindLocalCommand, hub_cmd = (1 :: nat)\<rparr>)]"
  let ?al = "\<lparr>al_Alias = ''d'', al_Command = ''deploy'', al_Args = [''prod'']\<rparr>"
  obtain w where w: "as_Create (local_aliases ref_bolt ref_codec) ''U1'' ''d'' ''deploy'' [''prod''] ref_world =
      (Returns (), w)"
    using ref_create_alias by blast
  have ok: "registry_ok ?cmds" by (auto simp: registry_ok_def trim_space_id edge_byte_def split: if_splits)
  note h = ref_stores.local_create_alias [OF ref_world_holds json_alias_d w]
  have k: "key_ok ''U1''" by (simp add: key_ok_def)
  obtain r w' where f: "Find (local_aliases ref_bolt ref_codec) ?cmds ?req w = (r, w')" by fastforce
  from ref_stores.local_get_alias_ok [OF h k, of "''d''"]
  have "fst (as_Get (local_aliases ref_bolt ref_codec) ''U1'' ''d'' w) = Returns (''deploy'', [''prod''])" by auto
  with find_resolves_aliases [OF ref_stores.stores_axioms ok h f] w f show ?thesis
    by (simp add: resolve_def)
qed

end
