(* ===== verification/Flags.thy ===== *)
theory Flags
  imports Meeseeks
begin

text \<open>
  The part of Go's package \<^verbatim>\<open>flag\<close> that the builtin commands use: flag sets with boolean, integer and
  string flags, parsed with \<^verbatim>\<open>ContinueOnError\<close> (the behaviour of Go 1.12, which the project builds
  with). Parsing stops at the first argument that is no flag, after a double dash, or at an
  error; the flags set until then keep their values. Printing the usage is left out.
\<close>

section \<open>Values\<close>

datatype flag_value = FBool bool | FInt int | FString string

type_synonym flagset = "(string, flag_value) gomap"

text \<open>
  \<^verbatim>\<open>strconv.ParseInt(s, 0, 64)\<close>: an optional sign, then hexadecimal after 0x, octal after 0, decimal
  otherwise. On an error the value is 0, or the bound that was exceeded.
\<close>

definition digit_value :: "char \<Rightarrow> int option" where
  "digit_value c =
     (if is_digit c then Some (int (byte c) - 48)
      else if is_lower c then Some (int (byte c) - 87)
      else if is_upper c then Some (int (byte c) - 55)
      else None)"

fun parse_digits :: "int \<Rightarrow> int \<Rightarrow> string \<Rightarrow> int \<times> num_error option" where
  "parse_digits base n [] = (n, None)"
| "parse_digits base n (c # s) =
     (case digit_value c of
        None \<Rightarrow> (0, Some ErrSyntax)
      | Some d \<Rightarrow>
          (if base \<le> d then (0, Some ErrSyntax)
           else if 2 ^ 64 \<le> n * base + d then (2 ^ 64 - 1, Some ErrRange)
           else parse_digits base (n * base + d) s))"

definition parse_magnitude :: "string \<Rightarrow> int \<times> num_error option" where
  "parse_magnitude s =
     (case s of
        [] \<Rightarrow> (0, Some ErrSyntax)
      | c # r \<Rightarrow>
          if c = CHR ''0'' then
            (case r of
               x # h \<Rightarrow>
                 (if x = CHR ''x'' \<or> x = CHR ''X''
                  then (if h = [] then (0, Some ErrSyntax) else parse_digits 16 0 h)
                  else parse_digits 8 0 r)
             | [] \<Rightarrow> parse_digits 8 0 r)
          else parse_digits 10 0 s)"

definition parse_int :: "string \<Rightarrow> int \<times> num_error option" where
  "parse_int s =
     (let neg = (s \<noteq> [] \<and> hd s = CHR ''-'');
          body = (if s \<noteq> [] \<and> (hd s = CHR ''-'' \<or> hd s = CHR ''+'') then tl s else s)
      in case parse_magnitude body of
           (un, e) \<Rightarrow>
             (if e = Some ErrSyntax then (0, Some ErrSyntax)
              else if \<not> neg \<and> 2 ^ 63 \<le> un then (2 ^ 63 - 1, Some ErrRange)
              else if neg \<and> 2 ^ 63 < un then (- (2 ^ 63), Some ErrRange)
              else (if neg then - un else un, e)))"

definition parse_bool :: "string \<Rightarrow> bool \<times> num_error option" where
  "parse_bool s =
     (if s \<in> {''1'', ''t'', ''T'', ''true'', ''TRUE'', ''True''} then (True, None)
      else if s \<in> {''0'', ''f'', ''F'', ''false'', ''FALSE'', ''False''} then (False, None)
      else (False, Some ErrSyntax))"

text \<open>\<^verbatim>\<open>Value.Set\<close>: the value is stored even when it comes with an error.\<close>

fun flag_set :: "flag_value \<Rightarrow> string \<Rightarrow> flag_value \<times> num_error option" where
  "flag_set (FBool _) s = (case parse_bool s of (b, e) \<Rightarrow> (FBool b, e))"
| "flag_set (FInt _) s = (case parse_int s of (n, e) \<Rightarrow> (FInt n, e))"
| "flag_set (FString _) s = (FString s, None)"

section \<open>Parsing\<close>

text \<open>
  \<^verbatim>\<open>%q\<close> and \<^verbatim>\<open>strconv.Quote\<close> of ASCII text: quotes and backslashes are escaped, control characters are
  written as escapes; bytes above ASCII are kept (Go keeps them when they form printable runes).
\<close>

definition hex_digit :: "nat \<Rightarrow> char" where
  "hex_digit n = (if n < 10 then chr (48 + n) else chr (87 + n))"

definition quote_byte :: "char \<Rightarrow> string" where
  "quote_byte c =
     (if c = CHR 0x22 \<or> c = CHR 0x5C then [CHR 0x5C, c]
      else if c = CHR 0x07 then [CHR 0x5C, CHR ''a''] else if c = CHR 0x08 then [CHR 0x5C, CHR ''b'']
      else if c = CHR 0x0C then [CHR 0x5C, CHR ''f''] else if c = CHR 0x0A then [CHR 0x5C, CHR ''n'']
      else if c = CHR 0x0D then [CHR 0x5C, CHR ''r''] else if c = CHR 0x09 then [CHR 0x5C, CHR ''t'']
      else if c = CHR 0x0B then [CHR 0x5C, CHR ''v'']
      else if byte c < 32 \<or> byte c = 127
      then [CHR 0x5C, CHR ''x'', hex_digit (byte c div 16), hex_digit (byte c mod 16)]
      else [c])"

definition go_quote :: "string \<Rightarrow> string" where
  "go_quote s = [CHR 0x22] @ concat (map quote_byte s) @ [CHR 0x22]"

fun flag_error_text :: "num_error \<Rightarrow> string" where
  "flag_error_text ErrSyntax = ''parse error''"
| "flag_error_text ErrRange = ''value out of range''"

definition ErrHelp :: err where
  "ErrHelp = Foreign ''flag: help requested''"

text \<open>What one step of parsing does: stop, see a flag, or fail.\<close>

datatype flag_step =
    Stop "string list"
  | Seen flagset "string list"
  | Bad flagset "string list" err

definition split_value :: "string \<Rightarrow> string \<times> string option" where
  "split_value name =
     (let n = takeWhile (\<lambda>c. c \<noteq> CHR ''='') name
      in if length n < length name then (n, Some (drop (Suc (length n)) name)) else (name, None))"

definition flag_assign :: "flagset \<Rightarrow> string list \<Rightarrow> string \<Rightarrow> flag_value \<Rightarrow> string \<Rightarrow> string \<Rightarrow> flag_step" where
  "flag_assign fs rest name old value what =
     (case flag_set old value of
        (v, None) \<Rightarrow> Seen (gomap_update name v fs) rest
      | (v, Some e) \<Rightarrow> Bad (gomap_update name v fs) rest
          (Errorf (''invalid '' @ what @ '' '' @ go_quote value @ '' for '' @
            (case old of FBool _ \<Rightarrow> ''-'' | _ \<Rightarrow> ''flag -'') @ name @ '': '' @ flag_error_text e)))"

definition parse_flag :: "flagset \<Rightarrow> string \<Rightarrow> string list \<Rightarrow> flag_step" where
  "parse_flag fs name rest =
     (case split_value name of (n, value) \<Rightarrow>
        (case map_of fs n of
           None \<Rightarrow>
             (if n = ''help'' \<or> n = ''h'' then Bad fs rest ErrHelp
              else Bad fs rest (Errorf (''flag provided but not defined: -'' @ n)))
         | Some (FBool b) \<Rightarrow>
             (case value of
                Some v \<Rightarrow> flag_assign fs rest n (FBool b) v ''boolean value''
              | None \<Rightarrow> Seen (gomap_update n (FBool True) fs) rest)
         | Some old \<Rightarrow>
             (case value of
                Some v \<Rightarrow> flag_assign fs rest n old v ''value''
              | None \<Rightarrow>
                  (case rest of
                     [] \<Rightarrow> Bad fs rest (Errorf (''flag needs an argument: -'' @ n))
                   | v # rest' \<Rightarrow> flag_assign fs rest' n old v ''value''))))"

definition parse_one :: "flagset \<Rightarrow> string list \<Rightarrow> flag_step" where
  "parse_one fs args =
     (case args of
        [] \<Rightarrow> Stop []
      | s # rest \<Rightarrow>
          if length s < 2 \<or> hd s \<noteq> CHR ''-'' then Stop args
          else if s = ''--'' then Stop rest
          else (let name = drop (if s ! 1 = CHR ''-'' then 2 else 1) s
                in if name = [] \<or> hd name = CHR ''-'' \<or> hd name = CHR ''=''
                   then Bad fs args (Errorf (''bad flag syntax: '' @ s))
                   else parse_flag fs name rest))"

lemma parse_one_shorter: "parse_one fs args = Seen fs' rest \<Longrightarrow> length rest < length args"
  by (auto simp: parse_one_def parse_flag_def flag_assign_def Let_def
      split: list.splits if_splits prod.splits option.splits flag_value.splits)

function flags_parse :: "flagset \<Rightarrow> string list \<Rightarrow> flagset \<times> string list \<times> err option" where
  "flags_parse fs args =
     (case parse_one fs args of
        Stop rest \<Rightarrow> (fs, rest, None)
      | Bad fs' rest e \<Rightarrow> (fs', rest, Some e)
      | Seen fs' rest \<Rightarrow> flags_parse fs' rest)"
  by pat_completeness auto
termination
  by (relation "measure (\<lambda>(fs, args). length args)") (auto dest: parse_one_shorter)

declare flags_parse.simps [simp del]

text \<open>The value of a flag of a known type.\<close>

definition flag_int :: "flagset \<Rightarrow> string \<Rightarrow> int" where
  "flag_int fs n = (case map_of fs n of Some (FInt i) \<Rightarrow> i | _ \<Rightarrow> 0)"

definition flag_string :: "flagset \<Rightarrow> string \<Rightarrow> string" where
  "flag_string fs n = (case map_of fs n of Some (FString s) \<Rightarrow> s | _ \<Rightarrow> [])"

definition flag_bool :: "flagset \<Rightarrow> string \<Rightarrow> bool" where
  "flag_bool fs n = (case map_of fs n of Some (FBool b) \<Rightarrow> b | _ \<Rightarrow> False)"

section \<open>Lemmas\<close>

lemma flags_parse_no_flag:
  "args = [] \<or> length (hd args) < 2 \<or> hd (hd args) \<noteq> CHR ''-'' \<Longrightarrow> flags_parse fs args = (fs, args, None)"
  by (cases args) (auto simp: flags_parse.simps [of fs] parse_one_def)

text \<open>A numeric flag given in decimal.\<close>

lemma digit_value_digit: "d < 10 \<Longrightarrow> digit_value (chr (48 + d)) = Some (int d)"
  using is_digit_chr [of d] byte_chr [of "48 + d"] by (simp add: digit_value_def)

lemma parse_digits_append:
  "parse_digits b n s = (m, None) \<Longrightarrow> parse_digits b n (s @ t) = parse_digits b m t"
  by (induction s arbitrary: n) (auto split: option.splits if_splits)

lemma parse_digits_show_nat: "n < 2 ^ 64 \<Longrightarrow> parse_digits 10 0 (show_nat n) = (int n, None)"
proof (induction n rule: show_nat.induct)
  case (1 n)
  show ?case
  proof (cases "n < 10")
    case True
    with digit_value_digit [of n] show ?thesis by (simp add: show_nat.simps [of n])
  next
    case False
    with 1 have "parse_digits 10 0 (show_nat (n div 10)) = (int (n div 10), None)" by simp
    from parse_digits_append [OF this]
    have "parse_digits 10 0 (show_nat n) = parse_digits 10 (int (n div 10)) [chr (48 + n mod 10)]"
      using False by (simp add: show_nat.simps [of n])
    also have "\<dots> = (int n, None)"
    proof -
      have "int (n div 10) * 10 + int (n mod 10) = int n"
        by (metis div_mult_mod_eq of_nat_add of_nat_mult of_nat_numeral)
      moreover have "int n < 2 ^ 64" using "1.prems" by (metis of_nat_less_iff of_nat_numeral of_nat_power)
      ultimately show ?thesis using digit_value_digit [of "n mod 10"] by simp
    qed
    finally show ?thesis .
  qed
qed

lemma show_nat_hd: "0 < n \<Longrightarrow> hd (show_nat n) \<noteq> CHR ''0''"
proof (induction n rule: show_nat.induct)
  case (1 n)
  show ?case
  proof (cases "n < 10")
    case True
    then have "byte (chr (48 + n)) = 48 + n" by (simp add: byte_chr)
    moreover have "byte (CHR ''0'') = 48" by simp
    ultimately have "chr (48 + n) \<noteq> CHR ''0''" using "1.prems" by (metis add_cancel_right_right less_irrefl)
    with True show ?thesis by (simp add: show_nat.simps [of n])
  next
    case False
    then have "0 < n div 10" by simp
    with 1 False show ?thesis by (simp add: show_nat.simps [of n] hd_append)
  qed
qed

lemma parse_int_show_nat:
  assumes "n < 2 ^ 63"
  shows "parse_int (show_nat n) = (int n, None)"
proof -
  have d: "is_digit (hd (show_nat n))" by (rule show_nat_digits [of _ n]) simp
  then have sign: "hd (show_nat n) \<noteq> CHR ''-''" "hd (show_nat n) \<noteq> CHR ''+''" by (auto simp: is_digit_def)
  have m: "parse_magnitude (show_nat n) = (int n, None)"
  proof (cases "n = 0")
    case True
    then show ?thesis using digit_value_digit [of 0] by (simp add: parse_magnitude_def show_nat.simps [of 0])
  next
    case False
    then have "hd (show_nat n) \<noteq> CHR ''0''" by (simp add: show_nat_hd)
    moreover have "n < 2 ^ 64" using assms by simp
    ultimately show ?thesis
      using parse_digits_show_nat [of n] by (cases "show_nat n") (simp_all add: parse_magnitude_def)
  qed
  have "int n < 2 ^ 63" using assms by (metis of_nat_less_iff of_nat_numeral of_nat_power)
  with m sign show ?thesis by (simp add: parse_int_def)
qed

lemma flags_parse_int:
  assumes "map_of fs name = Some (FInt k)" and "name \<noteq> []" and "hd name \<notin> {CHR ''-'', CHR ''=''}"
    and "CHR ''='' \<notin> set name" and "n < 2 ^ 63"
  shows "flags_parse fs ((CHR ''-'' # name) # show_nat n # rest) =
    flags_parse (gomap_update name (FInt (int n)) fs) rest"
proof -
  have "takeWhile (\<lambda>c. c \<noteq> CHR ''='') name = name"
    using assms(4) by (auto intro!: takeWhile_eq_all_conv [THEN iffD2])
  then have "split_value name = (name, None)" by (simp add: split_value_def Let_def del: takeWhile_eq_all_conv)
  moreover have "parse_one fs ((CHR ''-'' # name) # show_nat n # rest) = parse_flag fs name (show_nat n # rest)"
    using assms(2,3) by (cases name) (auto simp: parse_one_def)
  ultimately have "parse_one fs ((CHR ''-'' # name) # show_nat n # rest) =
      Seen (gomap_update name (FInt (int n)) fs) rest"
    by (simp add: parse_flag_def assms(1) flag_assign_def parse_int_show_nat [OF assms(5)])
  then show ?thesis by (subst flags_parse.simps) simp
qed

end
