(* ===== verification/Builtins.thy ===== *)
theory Builtins
  imports Auth Commands Flags
begin

text \<open>
  The builtin commands (\<^verbatim>\<open>commands/builtins/builtins.go\<close>). A Go command is a struct that embeds small
  types, each of which gives some of the getters of the interface \<^verbatim>\<open>Command\<close>; here every embedded type
  is a function on the record of getters, and a command composes them. \<open>Execute\<close> of each command
  runs over the state of the world \<open>'w\<close> with what the package reads from its surroundings as the
  record \<open>builtin_env\<close>: the services, the registry, the groups, the cancel function and the
  rendering of times. The reply templates are rendering functions.
\<close>

section \<open>Getters by embedding\<close>

record command_struct =
  cs_GetCmd :: string
  cs_GetHelp :: command_help
  cs_HasHandshake :: bool
  cs_MustRecord :: bool
  cs_GetAuthStrategy :: string
  cs_GetAllowedGroups :: "string list"
  cs_GetChannelStrategy :: string
  cs_GetAllowedChannels :: "string list"
  cs_GetArgs :: "string list"
  cs_GetTimeout :: i64

type_synonym mixin = "command_struct \<Rightarrow> command_struct"

definition defaultTimeout :: mixin where
  "defaultTimeout c = c\<lparr>cs_GetTimeout := DefaultCommandTimeout\<rparr>"

definition emptyArgs :: mixin where
  "emptyArgs c = c\<lparr>cs_GetArgs := []\<rparr>"

definition noRecord :: mixin where
  "noRecord c = c\<lparr>cs_MustRecord := False\<rparr>"

definition imOnlyChannel :: mixin where
  "imOnlyChannel c = c\<lparr>cs_GetAllowedChannels := [], cs_GetChannelStrategy := ChannelStrategyIMOnly\<rparr>"

definition anyChannel :: mixin where
  "anyChannel c = c\<lparr>cs_GetAllowedChannels := [], cs_GetChannelStrategy := ChannelStrategyAny\<rparr>"

definition allowAll :: mixin where
  "allowAll c = c\<lparr>cs_GetAuthStrategy := AuthStrategyAny, cs_GetAllowedGroups := []\<rparr>"

definition allowAdmins :: mixin where
  "allowAdmins c = c\<lparr>cs_GetAuthStrategy := AuthStrategyAllowedGroup, cs_GetAllowedGroups := [AdminGroup]\<rparr>"

definition noHandshake :: mixin where
  "noHandshake c = c\<lparr>cs_HasHandshake := False\<rparr>"

definition embed_cmd :: "string \<Rightarrow> mixin" where
  "embed_cmd name c = c\<lparr>cs_GetCmd := name\<rparr>"

definition newHelp :: "string \<Rightarrow> string list \<Rightarrow> mixin" where
  "newHelp summary args c = c\<lparr>cs_GetHelp := NewHelp summary args\<rparr>"

lemmas mixins [cmd_simps] =
  defaultTimeout_def emptyArgs_def noRecord_def imOnlyChannel_def anyChannel_def allowAll_def
  allowAdmins_def noHandshake_def embed_cmd_def newHelp_def

text \<open>The zero value of a command struct, before its embedded types give the getters.\<close>

definition zero_struct :: command_struct where
  "zero_struct = \<lparr>cs_GetCmd = [], cs_GetHelp = NewHelp [] [], cs_HasHandshake = False, cs_MustRecord = False,
     cs_GetAuthStrategy = [], cs_GetAllowedGroups = [], cs_GetChannelStrategy = [],
     cs_GetAllowedChannels = [], cs_GetArgs = [], cs_GetTimeout = 0\<rparr>"

section \<open>The commands\<close>

datatype builtin =
    VersionCommand | HelpCommand | GroupsCommand | JobsCommand | FindJobCommand | AuditCommand
  | AuditJobCommand | AuditLogsCommand | LastCommand | TailCommand | HeadCommand | LogsCommand
  | CancelJobCommand | KillJobCommand | NewAPITokenCommand | ListAPITokensCommand
  | RevokeAPITokenCommand | NewAliasCommand | DeleteAliasCommand | GetAliasesCommand

definition versionCommand :: mixin where
  "versionCommand = noHandshake \<circ> noRecord \<circ> allowAll \<circ> anyChannel \<circ> emptyArgs \<circ> defaultTimeout"

definition helpCommand :: mixin where
  "helpCommand = noHandshake \<circ> noRecord \<circ> allowAll \<circ> anyChannel \<circ> emptyArgs \<circ> defaultTimeout"

definition cancelJobCommand :: mixin where
  "cancelJobCommand = noHandshake \<circ> noRecord \<circ> emptyArgs \<circ> allowAll \<circ> anyChannel \<circ> defaultTimeout"

definition killJobCommand :: mixin where
  "killJobCommand = noHandshake \<circ> noRecord \<circ> emptyArgs \<circ> allowAdmins \<circ> anyChannel \<circ> defaultTimeout"

definition groupsCommand :: mixin where
  "groupsCommand = noHandshake \<circ> noRecord \<circ> emptyArgs \<circ> allowAdmins \<circ> anyChannel \<circ> defaultTimeout"

definition jobsCommand :: mixin where
  "jobsCommand = noHandshake \<circ> noRecord \<circ> allowAll \<circ> anyChannel \<circ> emptyArgs \<circ> defaultTimeout"

definition auditCommand :: mixin where
  "auditCommand = noHandshake \<circ> noRecord \<circ> allowAdmins \<circ> anyChannel \<circ> emptyArgs \<circ> defaultTimeout"

definition lastCommand :: mixin where
  "lastCommand = noHandshake \<circ> noRecord \<circ> allowAll \<circ> anyChannel \<circ> emptyArgs \<circ> defaultTimeout"

definition findJobCommand :: mixin where
  "findJobCommand = noHandshake \<circ> noRecord \<circ> allowAll \<circ> anyChannel \<circ> emptyArgs \<circ> defaultTimeout"

definition auditJobCommand :: mixin where
  "auditJobCommand = noHandshake \<circ> noRecord \<circ> allowAdmins \<circ> anyChannel \<circ> emptyArgs \<circ> defaultTimeout"

definition auditLogsCommand :: mixin where
  "auditLogsCommand = noHandshake \<circ> noRecord \<circ> allowAll \<circ> anyChannel \<circ> emptyArgs \<circ> defaultTimeout"

definition tailCommand :: mixin where
  "tailCommand = noHandshake \<circ> noRecord \<circ> allowAll \<circ> anyChannel \<circ> emptyArgs \<circ> defaultTimeout"

definition headCommand :: mixin where
  "headCommand = noHandshake \<circ> noRecord \<circ> allowAll \<circ> anyChannel \<circ> emptyArgs \<circ> defaultTimeout"

definition logsCommand :: mixin where
  "logsCommand = noHandshake \<circ> noRecord \<circ> allowAll \<circ> anyChannel \<circ> emptyArgs \<circ> defaultTimeout"

definition newAPITokenCommand :: mixin where
  "newAPITokenCommand = noHandshake \<circ> noRecord \<circ> allowAdmins \<circ> imOnlyChannel \<circ> emptyArgs \<circ> defaultTimeout"

definition revokeAPITokenCommand :: mixin where
  "revokeAPITokenCommand = noHandshake \<circ> noRecord \<circ> allowAdmins \<circ> imOnlyChannel \<circ> emptyArgs \<circ> defaultTimeout"

definition listAPITokensCommand :: mixin where
  "listAPITokensCommand = noHandshake \<circ> noRecord \<circ> allowAdmins \<circ> imOnlyChannel \<circ> emptyArgs \<circ> defaultTimeout"

definition newAliasCommand :: mixin where
  "newAliasCommand = noHandshake \<circ> noRecord \<circ> allowAll \<circ> anyChannel \<circ> emptyArgs \<circ> defaultTimeout"

definition deleteAliasCommand :: mixin where
  "deleteAliasCommand = noHandshake \<circ> noRecord \<circ> allowAll \<circ> anyChannel \<circ> emptyArgs \<circ> defaultTimeout"

definition getAliasesCommand :: mixin where
  "getAliasesCommand = noHandshake \<circ> noRecord \<circ> allowAll \<circ> anyChannel \<circ> emptyArgs \<circ> defaultTimeout"

lemmas command_types [cmd_simps] =
  versionCommand_def helpCommand_def cancelJobCommand_def killJobCommand_def groupsCommand_def
  jobsCommand_def auditCommand_def lastCommand_def findJobCommand_def auditJobCommand_def
  auditLogsCommand_def tailCommand_def headCommand_def logsCommand_def newAPITokenCommand_def
  revokeAPITokenCommand_def listAPITokensCommand_def newAliasCommand_def deleteAliasCommand_def
  getAliasesCommand_def zero_struct_def comp_apply

text \<open>The names the commands are registered under.\<close>

fun builtin_name :: "builtin \<Rightarrow> string" where
  "builtin_name VersionCommand = ''version''"
| "builtin_name HelpCommand = ''help''"
| "builtin_name GroupsCommand = ''groups''"
| "builtin_name JobsCommand = ''jobs''"
| "builtin_name FindJobCommand = ''job''"
| "builtin_name AuditCommand = ''audit''"
| "builtin_name AuditJobCommand = ''auditjob''"
| "builtin_name AuditLogsCommand = ''auditlogs''"
| "builtin_name LastCommand = ''last''"
| "builtin_name TailCommand = ''tail''"
| "builtin_name HeadCommand = ''head''"
| "builtin_name LogsCommand = ''logs''"
| "builtin_name CancelJobCommand = ''cancel''"
| "builtin_name KillJobCommand = ''kill''"
| "builtin_name NewAPITokenCommand = ''token-new''"
| "builtin_name ListAPITokensCommand = ''tokens''"
| "builtin_name RevokeAPITokenCommand = ''token-revoke''"
| "builtin_name NewAliasCommand = ''alias''"
| "builtin_name DeleteAliasCommand = ''unalias''"
| "builtin_name GetAliasesCommand = ''aliases''"

text \<open>
  The composite literals of the map \<^verbatim>\<open>Commands\<close>. The commands \<^verbatim>\<open>cancel\<close> and \<^verbatim>\<open>kill\<close> come from their
  constructors, which set a help text and leave the name of the command empty.
\<close>

fun builtin_struct :: "builtin \<Rightarrow> command_struct" where
  "builtin_struct VersionCommand = versionCommand (embed_cmd ''version'' (newHelp
     ''prints the running meeseeks version'' [] zero_struct))"
| "builtin_struct GroupsCommand = groupsCommand (embed_cmd ''groups'' (newHelp
     ''prints the configured groups'' [] zero_struct))"
| "builtin_struct JobsCommand = jobsCommand (embed_cmd ''jobs'' (newHelp
     ''shows the last executed jobs for the calling user''
     [''-limit: how many jobs to show, 5 by default''] zero_struct))"
| "builtin_struct AuditCommand = auditCommand (embed_cmd ''audit'' (newHelp
     ''lists jobs from all users or a specific one (admin only)''
     [''-user: user to filter for'', ''-limit: how many jobs to show, 5 by default''] zero_struct))"
| "builtin_struct AuditJobCommand = auditJobCommand (embed_cmd ''auditjob'' (newHelp
     ''shows a command metadata by job ID (admin only)''
     [''-user: user to filter for'', ''job ID to look up for, mandatory''] zero_struct))"
| "builtin_struct AuditLogsCommand = auditLogsCommand (embed_cmd ''auditlogs'' (newHelp
     ''shows the logs of a job by ID (admin only)''
     [''job ID to look up for, mandatory''] zero_struct))"
| "builtin_struct LastCommand = lastCommand (embed_cmd ''last'' (newHelp
     ''shows the last job metadata executed by the current user'' [] zero_struct))"
| "builtin_struct FindJobCommand = findJobCommand (embed_cmd ''job'' (newHelp
     ''show metadata of one job by id'' [''job ID to look for, mandatory''] zero_struct))"
| "builtin_struct TailCommand = tailCommand (embed_cmd ''tail'' (newHelp
     ''returns the last lines of the last executed job, or one selected by job ID''
     [''-limit: how many lines to show'',
      ''job ID to look for, optional, if not provided the last executed one will be looked up''] zero_struct))"
| "builtin_struct HeadCommand = headCommand (embed_cmd ''head'' (newHelp
     ''returns the top N log lines of a command output or error''
     [''-limit: how many lines to show'',
      ''job ID to look for, optional, if not provided the last executed one will be looked up''] zero_struct))"
| "builtin_struct LogsCommand = logsCommand (embed_cmd ''logs'' (newHelp
     ''returns the full output of the job passed as argument''
     [''job ID to look for, mandatory''] zero_struct))"
| "builtin_struct NewAPITokenCommand = newAPITokenCommand (embed_cmd ''token-new'' (newHelp
     ''creates a new API token''
     [''user that will be impersonated by the api, mandatory'',
      ''channel that will be used as the one in which the job was called'',
      ''command the token will be calling'', ''arguments to pass to the command''] zero_struct))"
| "builtin_struct ListAPITokensCommand = listAPITokensCommand (embed_cmd ''tokens'' (newHelp
     ''lists the API tokens'' [] zero_struct))"
| "builtin_struct RevokeAPITokenCommand = revokeAPITokenCommand (embed_cmd ''token-revoke'' (newHelp
     ''revokes an API token'' [''api token to revoke, mandatory''] zero_struct))"
| "builtin_struct NewAliasCommand = newAliasCommand (embed_cmd ''alias'' (newHelp
     ''adds an alias for a command for the current user''
     [''alias itself, mandatory'', ''command to alias, mandatory'',
      ''arguments to pass to the command when invoking the alias, optional''] zero_struct))"
| "builtin_struct DeleteAliasCommand = deleteAliasCommand (embed_cmd ''unalias'' (newHelp
     ''deletes an alias'' [''alias to delete, mandatory''] zero_struct))"
| "builtin_struct GetAliasesCommand = getAliasesCommand (embed_cmd ''aliases'' (newHelp
     ''list all the aliases for the current user'' [] zero_struct))"
| "builtin_struct HelpCommand = helpCommand (embed_cmd ''help'' (newHelp
     ''shows the help for all the commands, or a single one''
     [''-all: includes the builtin commands in the list'',
      ''command, optional, shows the extended help for a single command''] zero_struct))"
| "builtin_struct CancelJobCommand = cancelJobCommand (newHelp
     ''sends a cancellation signal to a job owned by the current user''
     [''job ID to send the signal to''] zero_struct)"
| "builtin_struct KillJobCommand = killJobCommand (newHelp
     ''sends a cancellation signal to a job, admin only''
     [''job ID to send the signal to''] zero_struct)"

definition all_builtins :: "builtin list" where
  "all_builtins =
     [VersionCommand, GroupsCommand, JobsCommand, AuditCommand, AuditJobCommand, AuditLogsCommand,
      LastCommand, FindJobCommand, TailCommand, HeadCommand, LogsCommand, NewAPITokenCommand,
      ListAPITokensCommand, RevokeAPITokenCommand, NewAliasCommand, DeleteAliasCommand,
      GetAliasesCommand, HelpCommand, CancelJobCommand, KillJobCommand]"

section \<open>The commands of the registry\<close>

text \<open>
  The three implementations of \<^verbatim>\<open>Command\<close>: a shell command and a command of a remote agent, both with
  the options of \<^verbatim>\<open>CommandOpts\<close>, and the builtins.
\<close>

datatype command =
    ShellCommand command_opts
  | RemoteCommand command_opts string
  | BuiltinCommand builtin

definition opts_struct :: "command_opts \<Rightarrow> command_struct" where
  "opts_struct o1 = \<lparr>cs_GetCmd = opts_GetCmd o1, cs_GetHelp = opts_GetHelp o1,
     cs_HasHandshake = opts_HasHandshake o1, cs_MustRecord = opts_MustRecord o1,
     cs_GetAuthStrategy = opts_GetAuthStrategy o1, cs_GetAllowedGroups = opts_GetAllowedGroups o1,
     cs_GetChannelStrategy = opts_GetChannelStrategy o1, cs_GetAllowedChannels = opts_GetAllowedChannels o1,
     cs_GetArgs = opts_GetArgs o1, cs_GetTimeout = opts_GetTimeout o1\<rparr>"

fun getters :: "command \<Rightarrow> command_struct" where
  "getters (ShellCommand o1) = opts_struct o1"
| "getters (RemoteCommand o1 _) = opts_struct o1"
| "getters (BuiltinCommand b) = builtin_struct b"

definition authorization_of :: "command \<Rightarrow> authorization" where
  "authorization_of c = \<lparr>ca_AuthStrategy = cs_GetAuthStrategy (getters c),
     ca_AllowedGroups = cs_GetAllowedGroups (getters c),
     ca_ChannelStrategy = cs_GetChannelStrategy (getters c),
     ca_AllowedChannels = cs_GetAllowedChannels (getters c)\<rparr>"

definition LoadBuiltins :: "command registry \<Rightarrow> err option \<times> command registry" where
  "LoadBuiltins cmds =
     Register \<lparr>ra_Kind = KindBuiltinCommand, ra_Action = ActionRegister,
       ra_Commands = map (\<lambda>b. \<lparr>cr_Name = builtin_name b, cr_Cmd = Some (BuiltinCommand b)\<rparr>) all_builtins\<rparr> cmds"

section \<open>Arguments and filters\<close>

text \<open>\<^verbatim>\<open>err.Error()\<close> of the \<^verbatim>\<open>NumError\<close> that \<^verbatim>\<open>strconv.ParseUint\<close> returns.\<close>

fun num_error_text :: "num_error \<Rightarrow> string" where
  "num_error_text ErrSyntax = ''invalid syntax''"
| "num_error_text ErrRange = ''value out of range''"

definition parseJobID :: "string list \<Rightarrow> u64 result" where
  "parseJobID args =
     (case args of
        [] \<Rightarrow> Fails ErrNoJobIDAsArgument
      | a # _ \<Rightarrow>
          (case parse_uint a of
             Inl e \<Rightarrow> Fails (Errorf (''invalid job ID '' @ a @ '': strconv.ParseUint: parsing '' @
               go_quote a @ '': '' @ num_error_text e))
           | Inr i \<Rightarrow> Returns i))"

definition isUser :: "string \<Rightarrow> job \<Rightarrow> bool" where
  "isUser username j = (req_Username (job_Request j) = username)"

definition isJobID :: "u64 \<Rightarrow> job \<Rightarrow> bool" where
  "isJobID jobID j = (job_ID j = jobID)"

definition isStatusOrEmpty :: "string \<Rightarrow> job \<Rightarrow> bool" where
  "isStatusOrEmpty status j = (if status = [] then True else job_Status j = status)"

fun jobsMultiMatch :: "(job \<Rightarrow> bool) list \<Rightarrow> job \<Rightarrow> bool" where
  "jobsMultiMatch [] j = True"
| "jobsMultiMatch (m # ms) j = (if \<not> m j then False else jobsMultiMatch ms j)"

fun apiTokenMultiMatch :: "(api_token \<Rightarrow> bool) list \<Rightarrow> api_token \<Rightarrow> bool" where
  "apiTokenMultiMatch [] t = True"
| "apiTokenMultiMatch (m # ms) t = (if \<not> m t then False else apiTokenMultiMatch ms t)"

end
