(* ===== verification/Executions.thy ===== *)
theory Executions
  imports Builtins
begin

text \<open>
  \<open>Execute\<close> of every builtin command (\<^verbatim>\<open>commands/builtins/builtins.go\<close>) and the reply templates it
  renders. The result is the pair of output and error that Go returns, with the new state of the
  world; a panic is the error \<open>Panicking\<close>. The lemmas about the filters, the listings and the flags are
  what the properties of the commands rest on.
\<close>

section \<open>Surroundings\<close>

text \<open>
  \<open>be_humanize\<close> is \<^verbatim>\<open>humanize.Time\<close>, a library function of the time and the clock; \<open>be_version\<close> the
  name, version, commit and date of the build; \<open>be_cancel\<close> the function given to the constructors of
  \<^verbatim>\<open>cancel\<close> and \<^verbatim>\<open>kill\<close>.
\<close>

record 'w builtin_env =
  be_providers :: "'w providers"
  be_registry :: "command registry"
  be_auth :: auth_state
  be_humanize :: "time \<Rightarrow> string"
  be_version :: "string \<times> string \<times> string \<times> string"
  be_cancel :: "u64 \<Rightarrow> 'w \<Rightarrow> 'w"

type_synonym outcome = "string \<times> err option"
type_synonym 'w execution = "'w builtin_env \<Rightarrow> job \<Rightarrow> 'w \<Rightarrow> outcome \<times> 'w"

abbreviation failing :: "err \<Rightarrow> outcome" where "failing e \<equiv> ([], Some e)"
abbreviation printing :: "string \<Rightarrow> outcome" where "printing s \<equiv> (s, None)"

abbreviation newline :: string where "newline \<equiv> [CHR 0x0A]"

abbreviation args_of :: "job \<Rightarrow> string list" where "args_of j \<equiv> req_Args (job_Request j)"
abbreviation user_of :: "job \<Rightarrow> string" where "user_of j \<equiv> req_Username (job_Request j)"

section \<open>Templates\<close>

text \<open>A template that ranges over a map visits its keys in order.\<close>

definition in_key_order :: "(string, 'a) gomap \<Rightarrow> (string \<times> 'a) list" where
  "in_key_order m = sort_key fst m"

definition helpListTemplate :: "(string, command) gomap \<Rightarrow> string" where
  "helpListTemplate cmds = concat (map (\<lambda>(name, c).
     ''- '' @ name @ '': '' @ help_summary (cs_GetHelp (getters c)) @ newline) (in_key_order cmds))"

definition helpCommandTemplate :: "string \<Rightarrow> command_help \<Rightarrow> string" where
  "helpCommandTemplate name h =
     ''*'' @ name @ ''* - '' @ help_summary h @ newline @
     (if 0 < length (help_args h)
      then newline @ ''*Arguments*'' @ concat (map (\<lambda>a. newline @ ''- '' @ a) (help_args h))
      else []) @ newline"

definition groupsTemplate :: "(string, string list) gomap \<Rightarrow> string" where
  "groupsTemplate groups =
     concat (map (\<lambda>(grp, users).
       newline @ ''- '' @ grp @ '':'' @
       concat (map (\<lambda>(index, user). (if index \<noteq> 0 then '','' else []) @ '' '' @ user)
         (enumerate 0 users))) (in_key_order groups)) @ newline"

definition jobsTemplate :: "(time \<Rightarrow> string) \<Rightarrow> job list \<Rightarrow> string" where
  "jobsTemplate humanize jobs =
     (if length jobs = 0 then ''No jobs found'' @ newline
      else concat (map (\<lambda>j.
        ''*'' @ show_u64 (job_ID j) @ ''* - '' @ humanize (job_StartTime j) @
        '' - *'' @ req_Command (job_Request j) @ ''*'' @
        '' by *'' @ req_Username (job_Request j) @ ''*'' @
        '' in *'' @ (if req_IsIM (job_Request j) then ''DM'' else req_ChannelLink (job_Request j)) @ ''*'' @
        '' - *'' @ job_Status j @ ''*'' @ newline) jobs))"

definition jobTemplate :: "(time \<Rightarrow> string) \<Rightarrow> job \<Rightarrow> string" where
  "jobTemplate humanize j =
     (let r = job_Request j
      in ''* *ID* '' @ show_u64 (job_ID j) @ newline @
         ''* *Status* '' @ job_Status j @ newline @
         ''* *Command* '' @ req_Command r @
         (if req_Args r \<noteq> []
          then newline @ ''* *Args* '' @ [CHR 0x22] @
            strings_join ([CHR 0x22] @ '' '' @ [CHR 0x22]) (req_Args r) @ [CHR 0x22] @ '' ''
          else []) @ newline @
         ''* *Where* '' @ (if req_IsIM r then ''IM'' else req_ChannelLink r) @ newline @
         ''* *When* '' @ humanize (job_StartTime j) @ newline)"

definition listTokensTemplate :: "api_token list \<Rightarrow> string" where
  "listTokensTemplate ts =
     (if length ts = 0 then ''No tokens could be found''
      else concat (map (\<lambda>t.
        ''- *'' @ tok_TokenID t @ ''* '' @ tok_UserLink t @ '' at '' @ tok_ChannelLink t @
        '' _'' @ tok_Text t @ ''_'' @ newline) ts))"

definition getAliasesTemplate :: "command_alias list \<Rightarrow> string" where
  "getAliasesTemplate as =
     (if length as = 0 then ''No alias could be found''
      else concat (map (\<lambda>a.
        ''- *'' @ al_Alias a @ ''* - `'' @ al_Command a @
        concat (map (\<lambda>arg. '' '' @ arg) (al_Args a)) @ ''`'' @ newline) as))"

section \<open>General commands\<close>

definition versionCommand_Execute :: "'w execution" where
  "versionCommand_Execute E j w =
     (case be_version E of (name, version, revision, date) \<Rightarrow>
        (printing (name @ '' version '' @ version @ '', commit '' @ revision @ '', built on '' @ date), w))"

definition helpCommand_Execute :: "'w execution" where
  "helpCommand_Execute E j w =
     (case flags_parse [(''all'', FBool False)] (args_of j) of
        (flags, rest, _) \<Rightarrow>
          (case rest of
             [] \<Rightarrow>
               (let cmds = fold (\<lambda>(k, c) m.
                      if k \<in> builtin_name ` set all_builtins \<and> \<not> flag_bool flags ''all'' then m
                      else gomap_update k c m) (All (be_registry E)) []
                in (printing (helpListTemplate cmds), w))
           | [name] \<Rightarrow>
               (case map_of (All (be_registry E)) name of
                  Some c \<Rightarrow> (printing (helpCommandTemplate name (cs_GetHelp (getters c))), w)
                | None \<Rightarrow> (failing (Errorf (''could not find command '' @ name)), w))
           | _ \<Rightarrow> (failing (Errorf ''too many arguments''), w)))"

definition groupsCommand_Execute :: "'w execution" where
  "groupsCommand_Execute E j w =
     (case GetGroups (be_auth E) of
        Panic m \<Rightarrow> (failing (Panicking m), w)
      | Ret groups \<Rightarrow> (printing (groupsTemplate groups), w))"

section \<open>Cancelling\<close>

definition cancelJobCommand_Execute :: "'w execution" where
  "cancelJobCommand_Execute E j w =
     (case parseJobID (args_of j) of
        Inl e \<Rightarrow> (failing e, w)
      | Inr jobID \<Rightarrow>
          (case js_Get (pv_Jobs (be_providers E)) jobID w of
             (Inl e, w') \<Rightarrow> (failing e, w')
           | (Inr found, w') \<Rightarrow>
               (if user_of j \<noteq> user_of found then (failing ErrNoJobWithID, w')
                else (printing (''Issued command cancellation to job '' @ show_u64 jobID),
                      be_cancel E jobID w'))))"

definition killJobCommand_Execute :: "'w execution" where
  "killJobCommand_Execute E j w =
     (case parseJobID (args_of j) of
        Inl e \<Rightarrow> (failing e, w)
      | Inr jobID \<Rightarrow>
          (case js_Get (pv_Jobs (be_providers E)) jobID w of
             (Inl e, w') \<Rightarrow> (failing e, w')
           | (Inr _, w') \<Rightarrow>
               (printing (''Issued command cancellation to job '' @ show_u64 jobID), be_cancel E jobID w')))"

section \<open>Jobs\<close>

abbreviation find_jobs_in :: "'w builtin_env \<Rightarrow> int \<Rightarrow> (job \<Rightarrow> bool) \<Rightarrow> 'w \<Rightarrow> job list result \<times> 'w" where
  "find_jobs_in E limit match \<equiv>
     js_Find (pv_Jobs (be_providers E)) \<lparr>jf_Limit = limit, jf_Match = Some match\<rparr>"

definition jobsCommand_Execute :: "'w execution" where
  "jobsCommand_Execute E j w =
     (case flags_parse [(''limit'', FInt 5), (''status'', FString [])] (args_of j) of
        (_, _, Some e) \<Rightarrow> (failing e, w)
      | (flags, _, None) \<Rightarrow>
          (let callingUser = user_of j;
               requestedStatus = strings_title (flag_string flags ''status'')
           in case find_jobs_in E (flag_int flags ''limit'')
                  (jobsMultiMatch [isUser callingUser, isStatusOrEmpty requestedStatus]) w of
                (Inl e, w') \<Rightarrow> (failing e, w')
              | (Inr jobs, w') \<Rightarrow> (printing (jobsTemplate (be_humanize E) jobs), w')))"

definition auditCommand_Execute :: "'w execution" where
  "auditCommand_Execute E j w =
     (case flags_parse [(''limit'', FInt 5), (''user'', FString []), (''status'', FString [])] (args_of j) of
        (_, _, Some e) \<Rightarrow> (failing e, w)
      | (flags, _, None) \<Rightarrow>
          (let user = flag_string flags ''user'';
               requestedStatus = strings_title (flag_string flags ''status'')
           in case find_jobs_in E (flag_int flags ''limit'')
                  (jobsMultiMatch [isStatusOrEmpty requestedStatus,
                     \<lambda>x. if user = [] then True else user = user_of x]) w of
                (Inl e, w') \<Rightarrow> (failing e, w')
              | (Inr jobs, w') \<Rightarrow> (printing (jobsTemplate (be_humanize E) jobs), w')))"

definition lastCommand_Execute :: "'w execution" where
  "lastCommand_Execute E j w =
     (case find_jobs_in E 1 (isUser (user_of j)) w of
        (Inl e, w') \<Rightarrow> (failing (wrap_err ''failed to get the last job: '' e), w')
      | (Inr [], w') \<Rightarrow> (failing (Errorf ''no last command for current user''), w')
      | (Inr (x # _), w') \<Rightarrow> (printing (jobTemplate (be_humanize E) x), w'))"

definition findJobCommand_Execute :: "'w execution" where
  "findJobCommand_Execute E j w =
     (case parseJobID (args_of j) of
        Inl e \<Rightarrow> (failing e, w)
      | Inr jobID \<Rightarrow>
          (case find_jobs_in E 1 (jobsMultiMatch [isUser (user_of j), isJobID jobID]) w of
             (Inl e, w') \<Rightarrow> (failing (wrap_err ''failed to get the last job: '' e), w')
           | (Inr [], w') \<Rightarrow> (failing (Errorf ''no last command for current user''), w')
           | (Inr (x # _), w') \<Rightarrow> (printing (jobTemplate (be_humanize E) x), w')))"

definition auditJobCommand_Execute :: "'w execution" where
  "auditJobCommand_Execute E j w =
     (case parseJobID (args_of j) of
        Inl e \<Rightarrow> (failing e, w)
      | Inr jobID \<Rightarrow>
          (case find_jobs_in E 1 (isJobID jobID) w of
             (Inl e, w') \<Rightarrow>
               (failing (wrap_err (''failed to get job '' @ show_u64 (job_ID j) @ '': '') e), w')
           | (Inr [], w') \<Rightarrow> (failing (Errorf ''job not found''), w')
           | (Inr (x # _), w') \<Rightarrow> (printing (jobTemplate (be_humanize E) x), w')))"

section \<open>Logs\<close>

text \<open>The output and the error of a log that was read.\<close>

fun log_outcome :: "job_log result \<times> 'w \<Rightarrow> outcome \<times> 'w" where
  "log_outcome (Inl e, w) = (failing e, w)"
| "log_outcome (Inr l, w) = ((jl_Output l, GetError l), w)"

definition auditLogsCommand_Execute :: "'w execution" where
  "auditLogsCommand_Execute E j w =
     (case parseJobID (args_of j) of
        Inl e \<Rightarrow> (failing e, w)
      | Inr jobID \<Rightarrow>
          (case find_jobs_in E 1 (isJobID jobID) w of
             (Inl e, w') \<Rightarrow>
               (failing (wrap_err (''failed to find job with id '' @ show_u64 jobID @ '': '') e), w')
           | (Inr [], w') \<Rightarrow> (failing (Errorf (''there is no job '' @ show_u64 jobID)), w')
           | (Inr (x # _), w') \<Rightarrow> log_outcome (lr_Get (pv_LogReader (be_providers E)) (job_ID x) w')))"

definition findLastJobIDForUser :: "'w builtin_env \<Rightarrow> string \<Rightarrow> 'w \<Rightarrow> u64 result \<times> 'w" where
  "findLastJobIDForUser E callingUser w =
     (case find_jobs_in E 1 (isUser callingUser) w of
        (Inl e, w') \<Rightarrow> (Fails (wrap_err ''failed to get the last job: '' e), w')
      | (Inr [], w') \<Rightarrow> (Fails (Errorf ''no last command for current user''), w')
      | (Inr (x # _), w') \<Rightarrow> (Returns (job_ID x), w'))"

text \<open>The job ID of \<^verbatim>\<open>tail\<close> and \<^verbatim>\<open>head\<close>: the one given, or that of the last job of the user.\<close>

definition selected_job :: "'w builtin_env \<Rightarrow> job \<Rightarrow> string list \<Rightarrow> 'w \<Rightarrow> u64 result \<times> 'w" where
  "selected_job E j rest w =
     (case parseJobID rest of
        Inl e \<Rightarrow> (if e = ErrNoJobIDAsArgument then findLastJobIDForUser E (user_of j) w else (Fails e, w))
      | Inr jobID \<Rightarrow> (Returns jobID, w))"

definition tailCommand_Execute :: "'w execution" where
  "tailCommand_Execute E j w =
     (case flags_parse [(''limit'', FInt 5)] (args_of j) of
        (flags, rest, _) \<Rightarrow>
          (case selected_job E j rest w of
             (Inl e, w') \<Rightarrow> (failing e, w')
           | (Inr jobID, w') \<Rightarrow>
               log_outcome (lr_Tail (pv_LogReader (be_providers E)) jobID (flag_int flags ''limit'') w')))"

definition headCommand_Execute :: "'w execution" where
  "headCommand_Execute E j w =
     (case flags_parse [(''limit'', FInt 5)] (args_of j) of
        (flags, rest, _) \<Rightarrow>
          (case selected_job E j rest w of
             (Inl e, w') \<Rightarrow> (failing e, w')
           | (Inr jobID, w') \<Rightarrow>
               log_outcome (lr_Head (pv_LogReader (be_providers E)) jobID (flag_int flags ''limit'') w')))"

definition logsCommand_Execute :: "'w execution" where
  "logsCommand_Execute E j w =
     (case parseJobID (args_of j) of
        Inl e \<Rightarrow> (failing e, w)
      | Inr jobID \<Rightarrow>
          (case find_jobs_in E 1 (jobsMultiMatch [isUser (user_of j), isJobID jobID]) w of
             (Inl e, w') \<Rightarrow>
               (failing (wrap_err (''failed to find job with id '' @ show_u64 jobID @ '': '') e), w')
           | (Inr [], w') \<Rightarrow>
               (failing (Errorf (''no job with id '' @ show_u64 jobID @ '' for user '' @ user_of j)), w')
           | (Inr (x # _), w') \<Rightarrow> log_outcome (lr_Get (pv_LogReader (be_providers E)) (job_ID x) w')))"

section \<open>API tokens\<close>

definition newAPITokenCommand_Execute :: "'w execution" where
  "newAPITokenCommand_Execute E j w =
     (case args_of j of
        user # channel # c # cs \<Rightarrow>
          (case ts_Create (pv_APITokens (be_providers E)) user channel (strings_join '' '' (c # cs)) w of
             ((t, e), w') \<Rightarrow> ((''created token '' @ t, e), w'))
      | _ \<Rightarrow> (failing (Errorf ''not enough arguments passed in''), w))"

definition revokeAPITokenCommand_Execute :: "'w execution" where
  "revokeAPITokenCommand_Execute E j w =
     (case args_of j of
        [tokenID] \<Rightarrow>
          (case ts_Revoke (pv_APITokens (be_providers E)) tokenID w of
             (Inl e, w') \<Rightarrow> (failing e, w')
           | (Inr _, w') \<Rightarrow> (printing (''Token *'' @ tokenID @ ''* has been revoked''), w'))
      | _ \<Rightarrow> (failing (Errorf ''only one token ID should be passed as an argument''), w))"

definition token_matchers :: "flagset \<Rightarrow> (api_token \<Rightarrow> bool) list" where
  "token_matchers flags =
     (if flag_string flags ''user'' \<noteq> [] then [\<lambda>t. tok_UserLink t = flag_string flags ''user''] else []) @
     (if flag_string flags ''channel'' \<noteq> [] then [\<lambda>t. tok_ChannelLink t = flag_string flags ''channel''] else []) @
     (if flag_string flags ''command'' \<noteq> [] then [\<lambda>t. has_prefix (tok_Text t) (flag_string flags ''command'')] else [])"

definition listAPITokensCommand_Execute :: "'w execution" where
  "listAPITokensCommand_Execute E j w =
     (case flags_parse [(''limit'', FInt 5), (''user'', FString []), (''channel'', FString []),
          (''command'', FString [])] (args_of j) of
        (flags, _, _) \<Rightarrow>
          (case ts_Find (pv_APITokens (be_providers E))
               \<lparr>tf_Limit = flag_int flags ''limit'', tf_Match = Some (apiTokenMultiMatch (token_matchers flags))\<rparr> w of
             ((_, Some e), w') \<Rightarrow> (failing e, w')
           | ((t, None), w') \<Rightarrow> (printing (listTokensTemplate t), w')))"

section \<open>Aliases\<close>

definition newAliasCommand_Execute :: "'w execution" where
  "newAliasCommand_Execute E j w =
     (case args_of j of
        a # c # rest \<Rightarrow>
          (case as_Create (pv_Aliases (be_providers E)) (req_UserID (job_Request j)) a c rest w of
             (Inl e, w') \<Rightarrow> ((''failed to create the alias. Error: '' @ err_text e, Some e), w')
           | (Inr _, w') \<Rightarrow> (printing ''alias created successfully'', w'))
      | _ \<Rightarrow> (failing (Errorf ''an alias requires at least two arguments: the alias and the command''), w))"

definition deleteAliasCommand_Execute :: "'w execution" where
  "deleteAliasCommand_Execute E j w =
     (case args_of j of
        [a] \<Rightarrow>
          (case as_Remove (pv_Aliases (be_providers E)) (req_UserID (job_Request j)) a w of
             (Inl e, w') \<Rightarrow> ((''failed to delete the alias. Error: '' @ err_text e, Some e), w')
           | (Inr _, w') \<Rightarrow> (printing ''alias deleted successfully'', w'))
      | _ \<Rightarrow> (failing (Errorf ''unalias requires only one argument: the alias to delete''), w))"

definition getAliasesCommand_Execute :: "'w execution" where
  "getAliasesCommand_Execute E j w =
     (case as_List (pv_Aliases (be_providers E)) (req_UserID (job_Request j)) w of
        (Inl e, w') \<Rightarrow> ((''failed to load the aliases. Error: '' @ err_text e, Some e), w')
      | (Inr a, w') \<Rightarrow> (printing (getAliasesTemplate a), w'))"

section \<open>Dispatch\<close>

fun builtin_Execute :: "builtin \<Rightarrow> 'w execution" where
  "builtin_Execute VersionCommand = versionCommand_Execute"
| "builtin_Execute HelpCommand = helpCommand_Execute"
| "builtin_Execute GroupsCommand = groupsCommand_Execute"
| "builtin_Execute JobsCommand = jobsCommand_Execute"
| "builtin_Execute FindJobCommand = findJobCommand_Execute"
| "builtin_Execute AuditCommand = auditCommand_Execute"
| "builtin_Execute AuditJobCommand = auditJobCommand_Execute"
| "builtin_Execute AuditLogsCommand = auditLogsCommand_Execute"
| "builtin_Execute LastCommand = lastCommand_Execute"
| "builtin_Execute TailCommand = tailCommand_Execute"
| "builtin_Execute HeadCommand = headCommand_Execute"
| "builtin_Execute LogsCommand = logsCommand_Execute"
| "builtin_Execute CancelJobCommand = cancelJobCommand_Execute"
| "builtin_Execute KillJobCommand = killJobCommand_Execute"
| "builtin_Execute NewAPITokenCommand = newAPITokenCommand_Execute"
| "builtin_Execute ListAPITokensCommand = listAPITokensCommand_Execute"
| "builtin_Execute RevokeAPITokenCommand = revokeAPITokenCommand_Execute"
| "builtin_Execute NewAliasCommand = newAliasCommand_Execute"
| "builtin_Execute DeleteAliasCommand = deleteAliasCommand_Execute"
| "builtin_Execute GetAliasesCommand = getAliasesCommand_Execute"

end
