(* ===== verification/Ownership.thy ===== *)
theory Ownership
  imports Executions
begin

text \<open>
  What the builtin commands guarantee: which of them are for administrators, whose jobs and logs they
  show, which job they cancel, how job identifiers and limits are read, and what loading them leaves
  in the registry. The lemmas hold over any services that meet the contracts of \<open>Persistence\<close>; the
  examples run on the store \<open>ref_bolt\<close>.
\<close>

section \<open>Filters\<close>

lemma jobsMultiMatch_all: "jobsMultiMatch ms j \<longleftrightarrow> (\<forall>m \<in> set ms. m j)"
  by (induction ms) auto

lemma apiTokenMultiMatch_all: "apiTokenMultiMatch ms t \<longleftrightarrow> (\<forall>m \<in> set ms. m t)"
  by (induction ms) auto

lemmas job_filters = isUser_def isJobID_def jobsMultiMatch_all

text \<open>The jobs of a store that satisfy a condition.\<close>

definition jobs_where :: "(job \<Rightarrow> bool) \<Rightarrow> job_map \<Rightarrow> job_map" where
  "jobs_where P J = (\<lambda>i. case J i of None \<Rightarrow> None | Some j \<Rightarrow> if P j then Some j else None)"

abbreviation jobs_of :: "string \<Rightarrow> job_map \<Rightarrow> job_map" where
  "jobs_of u \<equiv> jobs_where (isUser u)"

lemma jobs_where_Some: "jobs_where P J i = Some j \<longleftrightarrow> J i = Some j \<and> P j"
  by (auto simp: jobs_where_def split: option.splits)

lemma filter_sorted_list_of_set:
  "finite A \<Longrightarrow> filter P (sorted_list_of_set A) = sorted_list_of_set {x \<in> A. P (x :: 'a::linorder)}"
  by (rule sym, rule sorted_list_of_set_eqI) (auto intro: sorted_wrt_filter)

lemma filter_jobs_newest_first: "filter P (jobs_newest_first J) = jobs_newest_first (jobs_where P J)"
proof -
  have d: "{i \<in> dom J. P (the (J i))} = dom (jobs_where P J)"
    by (auto simp: jobs_where_def split: option.splits if_splits)
  have v: "the (J i) = the (jobs_where P J i)" if "i \<in> dom (jobs_where P J)" for i
    using that by (auto simp: jobs_where_def split: option.splits if_splits)
  have "filter P (jobs_newest_first J) =
      map (\<lambda>i. the (J i)) (rev (filter (\<lambda>i. P (the (J i))) (sorted_list_of_set (dom J))))"
    by (simp add: jobs_newest_first_def filter_map o_def rev_filter)
  also have "\<dots> = map (\<lambda>i. the (J i)) (rev (sorted_list_of_set (dom (jobs_where P J))))"
    by (simp add: filter_sorted_list_of_set d)
  also have "\<dots> = jobs_newest_first (jobs_where P J)"
    unfolding jobs_newest_first_def by (rule map_cong) (auto simp: v)
  finally show ?thesis .
qed

lemma jobs_where_twice: "jobs_where P (jobs_where Q J) = jobs_where (\<lambda>j. Q j \<and> P j) J"
  by (rule ext) (auto simp: jobs_where_def split: option.splits)

lemma jobs_newest_first_single:
  assumes "\<And>i j. J i = Some j \<Longrightarrow> job_ID j = i"
  shows "jobs_newest_first (jobs_where (\<lambda>j. job_ID j = i \<and> P j) J) =
    (case J i of None \<Rightarrow> [] | Some j \<Rightarrow> if P j then [j] else [])"
proof (cases "\<exists>j. J i = Some j \<and> P j")
  case True
  then obtain j where j: "J i = Some j" "P j" by blast
  have "jobs_where (\<lambda>j. job_ID j = i \<and> P j) J = [i \<mapsto> j]"
    using assms j by (auto simp: jobs_where_def fun_eq_iff split: option.splits)
  with j show ?thesis by (simp add: jobs_newest_first_def)
next
  case False
  then have "jobs_where (\<lambda>j. job_ID j = i \<and> P j) J = Map.empty"
    using assms by (auto simp: jobs_where_def fun_eq_iff split: option.splits)
  with False show ?thesis by (auto simp: jobs_newest_first_def split: option.splits)
qed

context job_service
begin

lemma find_filtered:
  "holds w a \<Longrightarrow> js_Find S \<lparr>jf_Limit = n, jf_Match = Some P\<rparr> w =
     (Returns (take_int n (jobs_newest_first (jobs_where P (st_jobs a)))), w)"
  by (simp add: find_jobs filter_jobs_newest_first)

lemma find_by_id:
  assumes "holds w a"
  shows "js_Find S \<lparr>jf_Limit = 1, jf_Match = Some (isJobID i)\<rparr> w =
      (Returns (case st_jobs a i of None \<Rightarrow> [] | Some j \<Rightarrow> [j]), w)"
    and "js_Find S \<lparr>jf_Limit = 1, jf_Match = Some (jobsMultiMatch [isUser u, isJobID i])\<rparr> w =
      (Returns (case jobs_of u (st_jobs a) i of None \<Rightarrow> [] | Some j \<Rightarrow> [j]), w)"
proof -
  note ids = jobs_newest_first_single [of "st_jobs a" i, OF conjunct1 [OF job_ids [OF assms]]]
  have 1: "isJobID i = (\<lambda>j. job_ID j = i)" by (auto simp: isJobID_def)
  show "js_Find S \<lparr>jf_Limit = 1, jf_Match = Some (isJobID i)\<rparr> w =
      (Returns (case st_jobs a i of None \<Rightarrow> [] | Some j \<Rightarrow> [j]), w)"
    using ids [of "\<lambda>_. True"] by (simp add: find_filtered [OF assms] 1 take_int_def split: option.split)
  have one: "jobs_of u (st_jobs a) i = (case st_jobs a i of None \<Rightarrow> None | Some j \<Rightarrow> if isUser u j then Some j else None)"
    by (simp add: jobs_where_def)
  have 2: "jobsMultiMatch [isUser u, isJobID i] = (\<lambda>j. job_ID j = i \<and> isUser u j)"
    by (auto simp: job_filters)
  show "js_Find S \<lparr>jf_Limit = 1, jf_Match = Some (jobsMultiMatch [isUser u, isJobID i])\<rparr> w =
      (Returns (case jobs_of u (st_jobs a) i of None \<Rightarrow> [] | Some j \<Rightarrow> [j]), w)"
    using ids [of "isUser u"]
    by (simp add: find_filtered [OF assms] 2 take_int_def one split: option.split)
qed

lemma find_own:
  assumes "holds w a"
  shows "js_Find S \<lparr>jf_Limit = n, jf_Match = Some (isUser u)\<rparr> w =
      (Returns (take_int n (jobs_newest_first (jobs_of u (st_jobs a)))), w)"
    and "js_Find S \<lparr>jf_Limit = n, jf_Match = Some (jobsMultiMatch [isUser u, P])\<rparr> w =
      (Returns (take_int n (jobs_newest_first (jobs_where P (jobs_of u (st_jobs a))))), w)"
proof -
  have "jobsMultiMatch [isUser u, P] = (\<lambda>j. isUser u j \<and> P j)" by (auto simp: jobsMultiMatch_all)
  then show "js_Find S \<lparr>jf_Limit = n, jf_Match = Some (jobsMultiMatch [isUser u, P])\<rparr> w =
      (Returns (take_int n (jobs_newest_first (jobs_where P (jobs_of u (st_jobs a))))), w)"
    by (simp add: find_filtered [OF assms] jobs_where_twice)
qed (rule find_filtered [OF assms])

end

section \<open>What the commands show\<close>

text \<open>The log of a job as \<^verbatim>\<open>logs\<close> prints it.\<close>

definition log_printed :: "log_map \<Rightarrow> u64 \<Rightarrow> outcome" where
  "log_printed L i =
     (case L i of
        None \<Rightarrow> failing ErrNoLogsForJob
      | Some (lines, e) \<Rightarrow>
          (strings_join newline lines,
           case e of None \<Rightarrow> None | Some t \<Rightarrow> if t = [] then None else Some (Errorf t)))"

lemma log_outcome_Returns:
  "log_outcome (Returns \<lparr>jl_Error = e, jl_Output = s\<rparr>, w) =
     ((s, if e = [] then None else Some (Errorf e)), w)"
  by (simp add: GetError_def)

context services
begin

lemma last_shows:
  "be_providers E = P \<Longrightarrow> holds w a \<Longrightarrow> lastCommand_Execute E j w =
     (case jobs_newest_first (jobs_of (user_of j) (st_jobs a)) of
        [] \<Rightarrow> failing (Errorf ''no last command for current user'')
      | x # _ \<Rightarrow> printing (jobTemplate (be_humanize E) x), w)"
  by (simp add: lastCommand_Execute_def find_own take_int_def split: list.split)

lemma jobs_shows:
  "be_providers E = P \<Longrightarrow> holds w a \<Longrightarrow> jobsCommand_Execute E j w =
     (case flags_parse [(''limit'', FInt 5), (''status'', FString [])] (args_of j) of
        (flags, _, Some e) \<Rightarrow> failing e
      | (flags, _, None) \<Rightarrow> printing (jobsTemplate (be_humanize E) (take_int (flag_int flags ''limit'')
          (jobs_newest_first (jobs_where (isStatusOrEmpty (strings_title (flag_string flags ''status'')))
            (jobs_of (user_of j) (st_jobs a)))))), w)"
  by (auto simp: jobsCommand_Execute_def Let_def find_own split: prod.split option.split)

lemma job_shows:
  "be_providers E = P \<Longrightarrow> holds w a \<Longrightarrow> findJobCommand_Execute E j w =
     (case parseJobID (args_of j) of
        Inl e \<Rightarrow> failing e
      | Inr i \<Rightarrow> (case jobs_of (user_of j) (st_jobs a) i of
            None \<Rightarrow> failing (Errorf ''no last command for current user'')
          | Some x \<Rightarrow> printing (jobTemplate (be_humanize E) x)), w)"
  by (auto simp: findJobCommand_Execute_def find_by_id split: sum.split option.split)

lemma get_log_printed:
  "holds w a \<Longrightarrow> log_outcome (lr_Get (pv_LogReader P) i w) = (log_printed (st_logs a) i, w)"
  by (auto simp: get_log log_printed_def GetError_def split: option.split prod.split)

lemma own_job_ID: "holds w a \<Longrightarrow> jobs_where Q (st_jobs a) i = Some x \<Longrightarrow> job_ID x = i"
  using job_ids [of w a i x] by (simp add: jobs_where_Some)

lemma logs_shows:
  "be_providers E = P \<Longrightarrow> holds w a \<Longrightarrow> logsCommand_Execute E j w =
     (case parseJobID (args_of j) of
        Inl e \<Rightarrow> failing e
      | Inr i \<Rightarrow> (if i \<in> dom (jobs_of (user_of j) (st_jobs a)) then log_printed (st_logs a) i
          else failing (Errorf (''no job with id '' @ show_u64 i @ '' for user '' @ user_of j))), w)"
  by (auto simp: logsCommand_Execute_def find_by_id get_log_printed own_job_ID
      split: sum.split option.split)

lemma auditlogs_shows:
  "be_providers E = P \<Longrightarrow> holds w a \<Longrightarrow> auditLogsCommand_Execute E j w =
     (case parseJobID (args_of j) of
        Inl e \<Rightarrow> failing e
      | Inr i \<Rightarrow> (if i \<in> dom (st_jobs a) then log_printed (st_logs a) i
          else failing (Errorf (''there is no job '' @ show_u64 i))), w)"
  by (auto simp: auditLogsCommand_Execute_def find_by_id get_log_printed job_ids
      split: sum.split option.split)

lemma cancel_effect:
  "be_providers E = P \<Longrightarrow> holds w a \<Longrightarrow> cancelJobCommand_Execute E j w =
     (case parseJobID (args_of j) of
        Inl e \<Rightarrow> (failing e, w)
      | Inr i \<Rightarrow> (if i \<in> dom (jobs_of (user_of j) (st_jobs a))
          then (printing (''Issued command cancellation to job '' @ show_u64 i), be_cancel E i w)
          else (failing ErrNoJobWithID, w)))"
  by (auto simp: cancelJobCommand_Execute_def get_job jobs_where_def isUser_def
      split: sum.split option.split)

lemma kill_effect:
  "be_providers E = P \<Longrightarrow> holds w a \<Longrightarrow> killJobCommand_Execute E j w =
     (case parseJobID (args_of j) of
        Inl e \<Rightarrow> (failing e, w)
      | Inr i \<Rightarrow> (if i \<in> dom (st_jobs a)
          then (printing (''Issued command cancellation to job '' @ show_u64 i), be_cancel E i w)
          else (failing ErrNoJobWithID, w)))"
  by (auto simp: killJobCommand_Execute_def get_job split: sum.split option.split)

text \<open>The commands that show jobs and logs of the caller look at nothing else.\<close>

lemma own_jobs_only:
  assumes "be_providers E = P" and "holds w1 a1" and "holds w2 a2"
    and "jobs_of (user_of j) (st_jobs a1) = jobs_of (user_of j) (st_jobs a2)"
    and "\<And>i. i \<in> dom (jobs_of (user_of j) (st_jobs a1)) \<Longrightarrow> st_logs a1 i = st_logs a2 i"
    and "b \<in> {JobsCommand, FindJobCommand, LastCommand, LogsCommand}"
  shows "fst (builtin_Execute b E j w1) = fst (builtin_Execute b E j w2) \<and>
    snd (builtin_Execute b E j w1) = w1"
proof -
  have l: "log_printed (st_logs a1) i = log_printed (st_logs a2) i"
    if "i \<in> dom (jobs_of (user_of j) (st_jobs a1))" for i
    using assms(5) [OF that] by (simp add: log_printed_def)
  have "logsCommand_Execute E j w1 = (fst (logsCommand_Execute E j w2), w1)"
    using l by (auto simp: logs_shows [OF assms(1,2)] logs_shows [OF assms(1,3)] assms(4) split: sum.split)
  moreover have "jobsCommand_Execute E j w1 = (fst (jobsCommand_Execute E j w2), w1)"
    "lastCommand_Execute E j w1 = (fst (lastCommand_Execute E j w2), w1)"
    "findJobCommand_Execute E j w1 = (fst (findJobCommand_Execute E j w2), w1)"
    unfolding jobs_shows [OF assms(1,2)] jobs_shows [OF assms(1,3)] last_shows [OF assms(1,2)]
      last_shows [OF assms(1,3)] job_shows [OF assms(1,2)] job_shows [OF assms(1,3)] assms(4) by simp_all
  ultimately show ?thesis using assms(6) by auto
qed

end

section \<open>Who may run a builtin\<close>

definition admin_builtins :: "builtin set" where
  "admin_builtins =
     {GroupsCommand, KillJobCommand, AuditCommand, AuditJobCommand, NewAPITokenCommand, ListAPITokensCommand,
      RevokeAPITokenCommand}"

definition private_builtins :: "builtin set" where
  "private_builtins = {NewAPITokenCommand, ListAPITokensCommand, RevokeAPITokenCommand}"

definition is_admin :: "(string, string list) gomap \<Rightarrow> string \<Rightarrow> bool" where
  "is_admin cfg u \<longleftrightarrow> (\<exists>us. map_of cfg ''admin'' = Some us \<and> u \<in> set us)"

lemma builtin_authorization:
  "authorization_of (BuiltinCommand b) =
     \<lparr>ca_AuthStrategy = (if b \<in> admin_builtins then ''group'' else ''any''),
      ca_AllowedGroups = (if b \<in> admin_builtins then [''admin''] else []),
      ca_ChannelStrategy = (if b \<in> private_builtins then ''im_only'' else ''any''),
      ca_AllowedChannels = []\<rparr>"
  by (cases b) (simp_all add: authorization_of_def cmd_simps strategy_names AdminGroup_def admin_builtins_def
      private_builtins_def)

lemma builtin_getters:
  "cs_HasHandshake (builtin_struct b) = False" "cs_MustRecord (builtin_struct b) = False"
  "cs_GetArgs (builtin_struct b) = []" "cs_GetTimeout (builtin_struct b) = DefaultCommandTimeout"
  by (cases b; simp add: cmd_simps)+

lemma Check_builtin:
  "configured s cfg \<Longrightarrow> Check s req (authorization_of (BuiltinCommand b)) = Ret
     (if b \<in> admin_builtins \<and> \<not> is_admin cfg (req_Username req) then Some ErrUserNotAllowed
      else if b \<in> private_builtins \<and> \<not> req_IsIM req then Some ErrOnlyIMAllowed else None)"
  by (auto simp: Check_policy builtin_authorization policy_def user_allowed_def channel_error_def is_admin_def)

section \<open>The names\<close>

lemma all_builtins_UNIV [simp]: "set all_builtins = UNIV"
proof -
  have "b \<in> set all_builtins" for b by (cases b) (simp_all add: all_builtins_def)
  then show ?thesis by blast
qed

lemma builtin_name_inj: "builtin_name b = builtin_name c \<Longrightarrow> b = c"
proof -
  have "distinct (map builtin_name all_builtins)" by (simp add: all_builtins_def)
  then have "inj_on builtin_name (set all_builtins)" by (simp add: distinct_map)
  then show "builtin_name b = builtin_name c \<Longrightarrow> b = c" by (simp add: inj_eq)
qed

lemma builtin_name_not_blank: "trim_space (builtin_name b) \<noteq> []"
  by (cases b) (simp_all add: trim_space_id edge_byte_def)

section \<open>Arguments\<close>

lemma parse_uint_from_error: "parse_uint_from m s = Inl e \<Longrightarrow> parse_uint_from m (s @ t) = Inl e"
  by (induction s arbitrary: m) (auto split: if_splits)

lemma parse_uint_from_append:
  "parse_uint_from m s = Inr (of_nat n) \<Longrightarrow> n < 2 ^ 64 \<Longrightarrow> m < 2 ^ 64 \<Longrightarrow>
   parse_uint_from m (s @ t) = parse_uint_from n t"
proof (induction s arbitrary: m)
  case Nil
  then have "m = n" by (simp add: of_nat_inverse word_of_nat_eq_iff take_bit_nat_eq_self)
  then show ?case by simp
next
  case (Cons c s)
  then show ?case by (auto split: if_splits)
qed

lemma parse_uint_too_large: "2 ^ 64 \<le> n \<Longrightarrow> parse_uint_from 0 (show_nat n) = Inl ErrRange"
proof (induction n rule: show_nat.induct)
  case (1 n)
  then have n: "\<not> n < 10" by simp
  then have s: "show_nat n = show_nat (n div 10) @ [chr (48 + n mod 10)]" by (simp add: show_nat.simps [of n])
  show ?case
  proof (cases "2 ^ 64 \<le> n div 10")
    case True
    with "1.IH" [OF n] show ?thesis unfolding s by (intro parse_uint_from_error)
  next
    case False
    then have "parse_uint_from 0 (show_nat n) = parse_uint_from (n div 10) [chr (48 + n mod 10)]"
      unfolding s by (intro parse_uint_from_append parse_uint_show_nat) simp_all
    moreover have "10 * (n div 10) + n mod 10 = n" by simp
    ultimately show ?thesis using "1.prems" is_digit_chr [of "n mod 10"] by simp
  qed
qed

lemma parseJobID_show_nat:
  "parseJobID (show_nat n # rest) =
     (if n < 2 ^ 64 then Returns (of_nat n)
      else Fails (Errorf (''invalid job ID '' @ show_nat n @ '': strconv.ParseUint: parsing '' @
        go_quote (show_nat n) @ '': value out of range'')))"
  by (simp add: parseJobID_def parse_uint_def parse_uint_show_nat parse_uint_too_large)

lemma parseJobID_show_u64: "parseJobID (show_u64 i # rest) = Returns i"
  using unat_u64_less [of i] by (simp add: show_u64_def parseJobID_show_nat)

lemma flags_parse_show_u64: "flags_parse fs (show_u64 i # rest) = (fs, show_u64 i # rest, None)"
proof (rule flags_parse_no_flag)
  have "is_digit (hd (show_u64 i))" unfolding show_u64_def by (rule show_nat_digits [of _ "unat i"]) simp
  then show "show_u64 i # rest = [] \<or> length (hd (show_u64 i # rest)) < 2 \<or> hd (hd (show_u64 i # rest)) \<noteq> CHR ''-''"
    by (auto simp: is_digit_def)
qed

text \<open>The flag \<^verbatim>\<open>-limit\<close> of the listing commands.\<close>

lemma limit_flag:
  assumes "n < 2 ^ 63"
  shows "flags_parse ((''limit'', FInt 5) # fs) [''-limit'', show_nat n] = ((''limit'', FInt (int n)) # fs, [], None)"
  using flags_parse_int [of "(''limit'', FInt 5) # fs" "''limit''" 5 n "[]"] assms
  by (simp add: flags_parse_no_flag)

text \<open>Parsing keeps the names and the types of the flags.\<close>

definition same_kind :: "flag_value \<Rightarrow> flag_value \<Rightarrow> bool" where
  "same_kind v v' = (case (v, v') of
     (FBool _, FBool _) \<Rightarrow> True | (FInt _, FInt _) \<Rightarrow> True | (FString _, FString _) \<Rightarrow> True | _ \<Rightarrow> False)"

abbreviation same_flag :: "string \<times> flag_value \<Rightarrow> string \<times> flag_value \<Rightarrow> bool" where
  "same_flag f f' \<equiv> fst f = fst f' \<and> same_kind (snd f) (snd f')"

definition same_flags :: "flagset \<Rightarrow> flagset \<Rightarrow> bool" where
  "same_flags fs fs' \<longleftrightarrow> list_all2 same_flag fs fs'"

lemma same_kind_refl [simp]: "same_kind v v"
  by (simp add: same_kind_def split: flag_value.split)

lemma same_kind_trans: "same_kind u v \<Longrightarrow> same_kind v x \<Longrightarrow> same_kind u x"
  by (auto simp: same_kind_def split: flag_value.splits)

lemma same_flags_refl [simp]: "same_flags fs fs"
  by (auto simp: same_flags_def intro!: list.rel_refl)

lemma same_flags_trans: "same_flags fs gs \<Longrightarrow> same_flags gs hs \<Longrightarrow> same_flags fs hs"
  unfolding same_flags_def by (rule list_all2_trans [of same_flag same_flag]) (auto intro: same_kind_trans)

lemma same_flags_update:
  "map_of fs n = Some old \<Longrightarrow> same_kind old v \<Longrightarrow> same_flags fs (gomap_update n v fs)"
proof (induction fs)
  case (Cons f fs)
  have "list_all2 same_flag fs fs" by (rule list.rel_refl) simp
  with Cons show ?case by (cases f) (auto simp: same_flags_def)
qed simp

lemma flag_set_kind: "flag_set old s = (v, e) \<Longrightarrow> same_kind old v"
  by (cases old) (auto simp: same_kind_def split: prod.splits)

lemma flag_assign_kind:
  "map_of fs n = Some old \<Longrightarrow> flag_assign fs rest n old s what = Seen fs' r \<Longrightarrow> same_flags fs fs'"
  "map_of fs n = Some old \<Longrightarrow> flag_assign fs rest n old s what = Bad fs' r e \<Longrightarrow> same_flags fs fs'"
  by (auto simp: flag_assign_def split: prod.splits option.splits dest: flag_set_kind intro: same_flags_update)

lemma parse_one_kind:
  "parse_one fs args = Seen fs' r \<Longrightarrow> same_flags fs fs'"
  "parse_one fs args = Bad fs' r e \<Longrightarrow> same_flags fs fs'"
  by (auto simp: parse_one_def parse_flag_def Let_def split: list.splits if_splits prod.splits option.splits
      flag_value.splits dest: flag_assign_kind intro: same_flags_update simp: same_kind_def)

lemma flags_parse_kind: "flags_parse fs args = (fs', rest, e) \<Longrightarrow> same_flags fs fs'"
proof (induction fs args rule: flags_parse.induct)
  case (1 fs args)
  then show ?case
    by (auto simp: flags_parse.simps [of fs args] split: flag_step.splits
        dest: parse_one_kind intro: same_flags_trans)
qed

lemma parse_one_tail:
  "parse_one fs args = Seen fs' r \<Longrightarrow> \<exists>p. args = p @ r"
  "parse_one fs args = Bad fs' r e \<Longrightarrow> \<exists>p. args = p @ r"
  "parse_one fs args = Stop r \<Longrightarrow> \<exists>p. args = p @ r"
  by (auto simp: parse_one_def parse_flag_def flag_assign_def Let_def split: list.splits if_splits prod.splits
      option.splits flag_value.splits)

lemma flags_parse_tail: "flags_parse fs args = (fs', rest, e) \<Longrightarrow> \<exists>p. args = p @ rest"
proof (induction fs args rule: flags_parse.induct)
  case (1 fs args)
  show ?case
  proof (cases "parse_one fs args")
    case (Seen fs1 r)
    with 1 obtain p where "r = p @ rest" by (auto simp: flags_parse.simps [of fs args])
    with parse_one_tail(1) [OF Seen] show ?thesis by (metis append.assoc)
  qed (use "1.prems" in \<open>auto simp: flags_parse.simps [of fs args] dest: parse_one_tail\<close>)
qed

section \<open>Properties\<close>

text \<open>
  C24: the commands \<open>jobs\<close>, \<open>job\<close>, \<open>last\<close> and \<open>logs\<close> look at nothing but the jobs of the user who calls them and the
  logs of those jobs: two stores that agree on these give the same output and the same error for
  every argument, and the commands change nothing.
\<close>

theorem own_jobs_noninterference:
  assumes "services (be_providers E) holds room" and "holds w1 a1" and "holds w2 a2"
    and "jobs_of (user_of j) (st_jobs a1) = jobs_of (user_of j) (st_jobs a2)"
    and "\<And>i. i \<in> dom (jobs_of (user_of j) (st_jobs a1)) \<Longrightarrow> st_logs a1 i = st_logs a2 i"
    and "b \<in> {JobsCommand, FindJobCommand, LastCommand, LogsCommand}"
  shows "fst (builtin_Execute b E j w1) = fst (builtin_Execute b E j w2) \<and>
    snd (builtin_Execute b E j w1) = w1"
  by (rule services.own_jobs_only [OF assms(1) refl assms(2-6)])

definition ref_env :: "ref_db world builtin_env" where
  "ref_env = \<lparr>be_providers = local_providers ref_bolt ref_codec, be_registry = [],
     be_auth = Configure [(''admin'', [''root''])] auth_init, be_humanize = (\<lambda>t. ''now''),
     be_version = (''meeseeks-box'', ''1'', ''abc'', ''today''), be_cancel = (\<lambda>i w. w)\<rparr>"

definition request_of :: "string \<Rightarrow> string list \<Rightarrow> request" where
  "request_of u args = zero_request\<lparr>req_Username := u, req_Args := args\<rparr>"

definition call_of :: "string \<Rightarrow> string list \<Rightarrow> job" where
  "call_of u args = zero_job\<lparr>job_Request := request_of u args\<rparr>"

lemma call_of_simps [simp]: "user_of (call_of u args) = u" "args_of (call_of u args) = args"
  by (simp_all add: call_of_def request_of_def)

lemma ref_env_simps [simp]:
  "be_providers ref_env = local_providers ref_bolt ref_codec"
  "be_auth ref_env = Configure [(''admin'', [''root''])] auth_init" "be_humanize ref_env = (\<lambda>t. ''now'')"
  "be_cancel ref_env = (\<lambda>i w. w)"
  by (simp_all add: ref_env_def)

lemma ref_env_services: "services (be_providers ref_env) ref_holds (job_room ref_view)"
  using ref_stores.local_services.services_axioms by simp

lemma ref_created:
  obtains x w where "js_Create ref_jobs zero_request ref_world = (Returns x, w)"
    "ref_holds w (nothing_stored\<lparr>st_jobs := [job_ID x \<mapsto> x]\<rparr>)" "user_of x = []" "job_ID x \<noteq> 0"
proof -
  obtain x w where c: "js_Create ref_jobs zero_request ref_world = (Returns x, w)" using ref_create by blast
  from ref_stores.local_create_job [OF ref_world_holds ref_room json_zero_request c] that [OF c]
  show ?thesis by (simp add: nothing_stored_def zero_request_def)
qed

theorem own_jobs_noninterference_witness:
  "\<exists>x w. js_Create ref_jobs zero_request ref_world = (Returns x, w) \<and>
    fst (builtin_Execute LogsCommand ref_env (call_of ''bob'' [show_u64 1]) w) =
    fst (builtin_Execute LogsCommand ref_env (call_of ''bob'' [show_u64 1]) ref_world)"
proof (rule ref_created)
  fix x w assume x: "js_Create ref_jobs zero_request ref_world = (Returns x, w)" "user_of x = []"
    and h: "ref_holds w (nothing_stored\<lparr>st_jobs := [job_ID x \<mapsto> x]\<rparr>)"
  let ?j = "call_of ''bob'' [show_u64 1]"
  have own: "jobs_of (user_of ?j) [job_ID x \<mapsto> x] = Map.empty" "jobs_of (user_of ?j) Map.empty = Map.empty"
    using x(2) by (auto simp: jobs_where_def isUser_def)
  have "fst (builtin_Execute LogsCommand ref_env ?j w) = fst (builtin_Execute LogsCommand ref_env ?j ref_world)"
    using own_jobs_noninterference [OF ref_env_services h ref_world_holds, of ?j LogsCommand] own
    by (simp add: nothing_stored_def)
  with x(1) show ?thesis by blast
qed

text \<open>
  C25: \<open>cancel\<close> invokes the cancel function for a job of the calling user and for no other: the job of
  somebody else and the job that does not exist get the same error and leave everything alone,
  whereas \<open>kill\<close> cancels every stored job.
\<close>

theorem cancel_own_jobs_only:
  assumes "services (be_providers E) holds room" and "holds w a" and "args_of j = show_u64 i # rest"
  shows "builtin_Execute CancelJobCommand E j w =
      (if \<exists>x. st_jobs a i = Some x \<and> user_of x = user_of j
       then (printing (''Issued command cancellation to job '' @ show_u64 i), be_cancel E i w)
       else (failing ErrNoJobWithID, w)) \<and>
    builtin_Execute KillJobCommand E j w =
      (if st_jobs a i = None then (failing ErrNoJobWithID, w)
       else (printing (''Issued command cancellation to job '' @ show_u64 i), be_cancel E i w))"
proof -
  have "i \<in> dom (jobs_of (user_of j) (st_jobs a)) \<longleftrightarrow> (\<exists>x. st_jobs a i = Some x \<and> user_of x = user_of j)"
    by (auto simp: jobs_where_Some isUser_def)
  then show ?thesis
    by (auto simp: services.cancel_effect [OF assms(1) refl assms(2)] services.kill_effect [OF assms(1) refl assms(2)]
        assms(3) parseJobID_show_u64)
qed

theorem cancel_own_jobs_only_witness:
  "\<exists>x w. js_Create ref_jobs zero_request ref_world = (Returns x, w) \<and>
    fst (builtin_Execute CancelJobCommand ref_env (call_of ''bob'' [show_u64 (job_ID x)]) w) =
      failing ErrNoJobWithID \<and>
    fst (builtin_Execute KillJobCommand ref_env (call_of ''bob'' [show_u64 (job_ID x)]) w) =
      printing (''Issued command cancellation to job '' @ show_u64 (job_ID x))"
proof (rule ref_created)
  fix x w assume x: "js_Create ref_jobs zero_request ref_world = (Returns x, w)" "user_of x = []"
    and h: "ref_holds w (nothing_stored\<lparr>st_jobs := [job_ID x \<mapsto> x]\<rparr>)"
  let ?j = "call_of ''bob'' [show_u64 (job_ID x)]"
  have "args_of ?j = show_u64 (job_ID x) # []" by simp
  from cancel_own_jobs_only [OF ref_env_services h this]
  have "fst (builtin_Execute CancelJobCommand ref_env ?j w) = failing ErrNoJobWithID"
    "fst (builtin_Execute KillJobCommand ref_env ?j w) =
      printing (''Issued command cancellation to job '' @ show_u64 (job_ID x))"
    using x(2) by (simp_all del: builtin_Execute.simps)
  with x(1) show ?thesis by blast
qed

text \<open>
  After \<open>Configure\<close>, exactly seven builtins are kept for the users of the group \<open>admin\<close>, the three on API tokens
  among them only in a direct message, and every other builtin is open to everyone.
\<close>

theorem admin_builtins_checked:
  assumes "distinct (map fst cfg)"
  shows "Check (Configure cfg s) req (authorization_of (BuiltinCommand b)) = Ret
    (if b \<in> {GroupsCommand, KillJobCommand, AuditCommand, AuditJobCommand, NewAPITokenCommand,
          ListAPITokensCommand, RevokeAPITokenCommand} \<and>
        \<not> (\<exists>us. map_of cfg ''admin'' = Some us \<and> req_Username req \<in> set us) then Some ErrUserNotAllowed
     else if b \<in> {NewAPITokenCommand, ListAPITokensCommand, RevokeAPITokenCommand} \<and> \<not> req_IsIM req
       then Some ErrOnlyIMAllowed
     else None)"
  using Check_builtin [OF Configure_configured [OF assms], of s req b]
  unfolding admin_builtins_def private_builtins_def is_admin_def .

theorem admin_builtins_checked_witness:
  "Check (Configure [(''admin'', [''root''])] auth_init) (request_of ''bob'' [])
     (authorization_of (BuiltinCommand KillJobCommand)) = Ret (Some ErrUserNotAllowed) \<and>
   Check (Configure [(''admin'', [''root''])] auth_init) (request_of ''root'' [])
     (authorization_of (BuiltinCommand NewAPITokenCommand)) = Ret (Some ErrOnlyIMAllowed) \<and>
   Check (Configure [(''admin'', [''root''])] auth_init) (request_of ''bob'' [])
     (authorization_of (BuiltinCommand JobsCommand)) = Ret None"
  using admin_builtins_checked [of "[(''admin'', [''root''])]" auth_init]
  by (simp add: request_of_def zero_request_def)

text \<open>
  C26: the log of every job is open to every user. \<open>auditlogs\<close>, whose help says \<open>admin only\<close>, passes the check for
  everyone and prints the log of a job of any user; \<open>head\<close> with the identifier of a job prints its first
  lines without asking whose it is; \<open>logs\<close> refuses.
\<close>

theorem anyone_reads_any_log:
  assumes "services (be_providers E) holds room" and "holds w a"
    and "st_jobs a i = Some x" and "st_logs a i = Some (lines, None)" and "args_of j = [show_u64 i]"
    and "configured (be_auth E) cfg"
  shows "Check (be_auth E) (job_Request j) (authorization_of (BuiltinCommand AuditLogsCommand)) = Ret None \<and>
    builtin_Execute AuditLogsCommand E j w = (printing (strings_join newline lines), w) \<and>
    builtin_Execute HeadCommand E j w = (printing (strings_join newline (take 5 lines)), w) \<and>
    (user_of x \<noteq> user_of j \<longrightarrow> builtin_Execute LogsCommand E j w =
      (failing (Errorf (''no job with id '' @ show_u64 i @ '' for user '' @ user_of j)), w))"
proof -
  have p: "parseJobID (args_of j) = Returns i" using parseJobID_show_u64 [of i "[]"] by (simp add: assms(5))
  have f: "flags_parse fs (args_of j) = (fs, [show_u64 i], None)" for fs
    using flags_parse_show_u64 [of fs i "[]"] by (simp add: assms(5))
  have "log_service (pv_LogReader (be_providers E)) (pv_LogWriter (be_providers E)) holds"
    using assms(1) by (simp add: services_def)
  note head = log_service.head_log [OF this assms(2)]
  have "Check (be_auth E) (job_Request j) (authorization_of (BuiltinCommand AuditLogsCommand)) = Ret None"
    by (simp add: Check_builtin [OF assms(6)] admin_builtins_def private_builtins_def)
  moreover have "builtin_Execute AuditLogsCommand E j w = (printing (strings_join newline lines), w)"
    by (simp add: services.auditlogs_shows [OF assms(1) refl assms(2)] p dom_def assms(3,4) log_printed_def)
  moreover have "selected_job E j [show_u64 i] w = (Returns i, w)"
    using p by (simp add: selected_job_def assms(5))
  then have "builtin_Execute HeadCommand E j w = (printing (strings_join newline (take 5 lines)), w)"
    by (simp add: headCommand_Execute_def f head assms(4) GetError_def flag_int_def take_int_def)
  moreover have "i \<notin> dom (jobs_of (user_of j) (st_jobs a))" if "user_of x \<noteq> user_of j"
    using that by (auto simp: jobs_where_Some assms(3) isUser_def)
  then have "user_of x \<noteq> user_of j \<longrightarrow> builtin_Execute LogsCommand E j w =
      (failing (Errorf (''no job with id '' @ show_u64 i @ '' for user '' @ user_of j)), w)"
    by (simp add: services.logs_shows [OF assms(1) refl assms(2)] p)
  ultimately show ?thesis by blast
qed

lemma ref_logged:
  obtains x w where "ref_holds w (nothing_stored\<lparr>st_jobs := [job_ID x \<mapsto> x], st_logs := [job_ID x \<mapsto> ([''secret''], None)]\<rparr>)"
    "user_of x = []"
proof (rule ref_created)
  fix x w assume x: "user_of x = []" and h: "ref_holds w (nothing_stored\<lparr>st_jobs := [job_ID x \<mapsto> x]\<rparr>)"
  let ?a = "nothing_stored\<lparr>st_jobs := [job_ID x \<mapsto> x]\<rparr>"
  have l: "log_of (st_logs ?a) (job_ID x) = ([], None)" by (simp add: nothing_stored_def log_of_def)
  have room: "Suc (length (fst (log_of (st_logs ?a) (job_ID x)))) < max_lines" unfolding l by (simp add: max_lines_def)
  have v: "value_ok ''secret''" by (simp add: value_ok_def)
  from ref_stores.local_append_ok [OF h v room] obtain w' where
    "lw_Append (local_log_writer ref_bolt) (job_ID x) ''secret'' w = (Returns (), w')" by blast
  from ref_stores.local_append [OF h _ room this]
  have "ref_holds w' (?a\<lparr>st_logs := [job_ID x \<mapsto> ([''secret''], None)]\<rparr>)"
    unfolding l by (simp add: nothing_stored_def)
  with that [OF _ x] show ?thesis by simp
qed

theorem anyone_reads_any_log_witness:
  "\<exists>w j. user_of j = ''bob'' \<and>
    Check (be_auth ref_env) (job_Request j) (authorization_of (BuiltinCommand AuditLogsCommand)) = Ret None \<and>
    builtin_Execute AuditLogsCommand ref_env j w = (printing ''secret'', w) \<and>
    snd (fst (builtin_Execute LogsCommand ref_env j w)) \<noteq> None"
proof (rule ref_logged)
  fix x w assume x: "user_of x = []"
    and h: "ref_holds w (nothing_stored\<lparr>st_jobs := [job_ID x \<mapsto> x], st_logs := [job_ID x \<mapsto> ([''secret''], None)]\<rparr>)"
  let ?j = "call_of ''bob'' [show_u64 (job_ID x)]"
  have cfg: "configured (be_auth ref_env) [(''admin'', [''root''])]" by (simp add: Configure_configured)
  from anyone_reads_any_log [OF ref_env_services h _ _ _ cfg, of "job_ID x" x "[''secret'']" ?j] x
  have "Check (be_auth ref_env) (job_Request ?j) (authorization_of (BuiltinCommand AuditLogsCommand)) = Ret None"
    "builtin_Execute AuditLogsCommand ref_env ?j w = (printing ''secret'', w)"
    "snd (fst (builtin_Execute LogsCommand ref_env ?j w)) \<noteq> None"
    by (simp_all del: builtin_Execute.simps)
  then show ?thesis by (intro exI [of _ w] exI [of _ ?j]) simp
qed

text \<open>
  C27: a number in decimal is read as a job identifier exactly when it fits into 64 bits; every larger number
  is the error of \<open>strconv.ParseUint\<close> that the value is out of range, and never wraps around.
\<close>

theorem job_id_bounds:
  "parseJobID (show_nat n # rest) =
     (if n < 2 ^ 64 then Returns (of_nat n)
      else Fails (Errorf (''invalid job ID '' @ show_nat n @ '': strconv.ParseUint: parsing '' @
        go_quote (show_nat n) @ '': value out of range'')))"
  by (rule parseJobID_show_nat)

text \<open>
  \<open>jobs -limit n\<close> prints the \<open>n\<close> newest jobs of the calling user, newest first, and without arguments the five
  newest.
\<close>

theorem jobs_prints_newest:
  assumes "services (be_providers E) holds room" and "holds w a"
    and "args_of j = [] \<and> n = 5 \<or> args_of j = [''-limit'', show_nat n] \<and> n < 2 ^ 63"
  shows "builtin_Execute JobsCommand E j w =
    (printing (jobsTemplate (be_humanize E)
      (take n (filter (\<lambda>x. user_of x = user_of j) (jobs_newest_first (st_jobs a))))), w)"
proof -
  have f: "flags_parse [(''limit'', FInt 5), (''status'', FString [])] (args_of j) =
      ([(''limit'', FInt (int n)), (''status'', FString [])], [], None)"
    using assms(3) limit_flag [of n "[(''status'', FString [])]"] by (auto simp: flags_parse_no_flag)
  have all: "isStatusOrEmpty (strings_title []) = (\<lambda>x. True)"
    by (auto simp: isStatusOrEmpty_def strings_title_def)
  have "jobs_where (\<lambda>x. True) J = J" for J by (rule ext) (simp add: jobs_where_def split: option.split)
  then show ?thesis
    by (simp add: services.jobs_shows [OF assms(1) refl assms(2)] f flag_int_def flag_string_def all take_int_def
        filter_jobs_newest_first flip: isUser_def)
qed

theorem jobs_prints_newest_witness:
  "\<exists>x w. js_Create ref_jobs zero_request ref_world = (Returns x, w) \<and>
    builtin_Execute JobsCommand ref_env (call_of [] [''-limit'', show_nat 3]) w =
      (printing (jobsTemplate (\<lambda>t. ''now'') [x]), w)"
proof (rule ref_created)
  fix x w assume x: "js_Create ref_jobs zero_request ref_world = (Returns x, w)" "user_of x = []"
    and h: "ref_holds w (nothing_stored\<lparr>st_jobs := [job_ID x \<mapsto> x]\<rparr>)"
  have "jobs_newest_first [job_ID x \<mapsto> x] = [x]" by (simp add: jobs_newest_first_def)
  with jobs_prints_newest [OF ref_env_services h, of "call_of [] [''-limit'', show_nat 3]" 3] x show ?thesis
    by (intro exI [of _ x] exI [of _ w]) (simp del: builtin_Execute.simps)
qed

lemma LoadBuiltins_effect:
  assumes "registry_ok cmds"
    and "\<And>b h. map_of cmds (builtin_name b) = Some h \<Longrightarrow> hub_kind h = KindBuiltinCommand"
  shows "\<exists>cmds'. LoadBuiltins cmds = (None, cmds') \<and> registry_ok cmds' \<and>
    (\<forall>b. map_of cmds' (builtin_name b) = Some \<lparr>hub_kind = KindBuiltinCommand, hub_cmd = BuiltinCommand b\<rparr>) \<and>
    (\<forall>n. n \<notin> range builtin_name \<longrightarrow> map_of cmds' n = map_of cmds n) \<and>
    (\<forall>r c b. c \<in> set (ra_Commands r) \<longrightarrow> cr_Name c = builtin_name b \<longrightarrow> ra_Kind r \<noteq> KindBuiltinCommand \<longrightarrow>
      (\<exists>e. Register r cmds' = (Some e, cmds')))"
proof -
  let ?reg = "map (\<lambda>b. \<lparr>cr_Name = builtin_name b, cr_Cmd = Some (BuiltinCommand b)\<rparr>) all_builtins"
  let ?r = "\<lparr>ra_Kind = KindBuiltinCommand, ra_Action = ActionRegister, ra_Commands = ?reg\<rparr>"
  have "valid_registration cmds KindBuiltinCommand ActionRegister c" if "c \<in> set ?reg" for c
    using that assms(2) builtin_name_not_blank
    by (auto simp: valid_registration_def split: option.split)
  then have v: "registration_validate cmds ?r = None" by (simp add: registration_validate_None)
  then obtain cmds' where load: "LoadBuiltins cmds = (None, cmds')" and reg: "Register ?r cmds = (None, cmds')"
    by (simp add: LoadBuiltins_def Register_conv)
  then have cmds': "map_of cmds' = map_of cmds ++ new_hubs ?r"
    by (simp add: Register_conv registration_process_def map_of_registerCommands)
  have hub: "new_hubs ?r (builtin_name b) = Some \<lparr>hub_kind = KindBuiltinCommand, hub_cmd = BuiltinCommand b\<rparr>" for b
  proof -
    have "new_hubs ?r (builtin_name b) \<noteq> None"
      unfolding new_hubs_None by (simp add: image_image)
    then obtain h where h: "new_hubs ?r (builtin_name b) = Some h" by blast
    from new_hubs_Some [OF h] have "hub_kind h = KindBuiltinCommand" "hub_cmd h = BuiltinCommand b"
      by (auto dest: builtin_name_inj)
    with h show ?thesis by (cases h) simp
  qed
  have other: "new_hubs ?r n = None" if "n \<notin> range builtin_name" for n
    unfolding new_hubs_None using that by (simp add: image_image)
  have taken: "map_of cmds' (builtin_name b) = Some \<lparr>hub_kind = KindBuiltinCommand, hub_cmd = BuiltinCommand b\<rparr>" for b
    by (simp add: cmds' hub)
  have "\<exists>e. Register r cmds' = (Some e, cmds')"
    if "c \<in> set (ra_Commands r)" "cr_Name c = builtin_name b" "ra_Kind r \<noteq> KindBuiltinCommand" for r c b
  proof -
    have "\<not> valid_registration cmds' (ra_Kind r) (ra_Action r) c"
      using that(3) by (auto simp: valid_registration_def that(2) taken)
    then have "registration_validate cmds' r \<noteq> None" using that(1) by (auto simp: registration_validate_None)
    then show ?thesis by (auto simp: Register_def)
  qed
  moreover have "map_of cmds' n = map_of cmds n" if "n \<notin> range builtin_name" for n
    by (simp add: cmds' other [OF that] map_add_def)
  ultimately show ?thesis
    using load taken Register_ok [OF assms(1) reg] by blast
qed

text \<open>
  Loading the builtins into a registry that holds their names, if at all, as builtins succeeds: afterwards
  each of the twenty names stands for its command, every other name for what it stood for, and no
  local configuration and no remote agent can register a command under one of the names any more.
\<close>

theorem builtins_are_loaded:
  assumes "registry_ok cmds"
    and "\<And>b h. map_of cmds (builtin_name b) = Some h \<Longrightarrow> hub_kind h = KindBuiltinCommand"
  shows "\<exists>cmds'. LoadBuiltins cmds = (None, cmds') \<and> registry_ok cmds' \<and>
    (\<forall>b. map_of cmds' (builtin_name b) = Some \<lparr>hub_kind = KindBuiltinCommand, hub_cmd = BuiltinCommand b\<rparr>) \<and>
    (\<forall>n. n \<notin> range builtin_name \<longrightarrow> map_of cmds' n = map_of cmds n) \<and>
    (\<forall>r c b. c \<in> set (ra_Commands r) \<longrightarrow> cr_Name c = builtin_name b \<longrightarrow> ra_Kind r \<noteq> KindBuiltinCommand \<longrightarrow>
      (\<exists>e. Register r cmds' = (Some e, cmds')))"
  by (rule LoadBuiltins_effect [OF assms])

theorem builtins_are_loaded_witness:
  "\<exists>cmds. LoadBuiltins Reset = (None, cmds) \<and> (\<exists>h. map_of cmds ''kill'' = Some h \<and> hub_cmd h = BuiltinCommand KillJobCommand)"
proof -
  have ok: "registry_ok (Reset :: command registry)" by (simp add: registry_ok_def Reset_def)
  show ?thesis
  proof (rule exE [OF builtins_are_loaded [OF ok]])
    fix b h
    show "map_of (Reset :: command registry) (builtin_name b) = Some h \<Longrightarrow> hub_kind h = KindBuiltinCommand"
      by (simp add: Reset_def)
  next
    fix cmds
    assume l: "LoadBuiltins Reset = (None, cmds) \<and> registry_ok cmds \<and>
      (\<forall>b. map_of cmds (builtin_name b) = Some \<lparr>hub_kind = KindBuiltinCommand, hub_cmd = BuiltinCommand b\<rparr>) \<and>
      (\<forall>n. n \<notin> range builtin_name \<longrightarrow> map_of cmds n = map_of Reset n) \<and>
      (\<forall>r c b. c \<in> set (ra_Commands r) \<longrightarrow> cr_Name c = builtin_name b \<longrightarrow> ra_Kind r \<noteq> KindBuiltinCommand \<longrightarrow>
        (\<exists>e. Register r cmds = (Some e, cmds)))"
    then have "map_of cmds (builtin_name KillJobCommand) =
        Some \<lparr>hub_kind = KindBuiltinCommand, hub_cmd = BuiltinCommand KillJobCommand\<rparr>" by blast
    with l show ?thesis by auto
  qed
qed

end
