(* ===== verification/Replies.thy ===== *)
theory Replies
  imports Meeseeks
begin

text \<open>
  The replies to the chat: package \<^verbatim>\<open>text/template\<close> of the project (the messages and templates of a reply,
  their defaults, how a configuration overrides them, rendering) and package \<^verbatim>\<open>text/formatter\<close> (which
  action, style and color a reply has, and what its templates see).

  Parsing a template text is a parameter, as is the random choice among the messages of an action; what
  is known of the parser is how it reads the part of the template language that the default
  texts use (\<open>parse_template\<close>). The templates are trees of the constructs the project uses, executed as Go
  does: a missing or nil value prints as \<open><no value>\<close>, and \<^verbatim>\<open>with\<close> skips an empty one.
\<close>

section \<open>Templates of the library\<close>

datatype pvalue = PString string | PBool bool | PStrings "string list" | PError "err option"

type_synonym payload = "(string, pvalue) gomap"

datatype node =
    Text string
  | Field string
  | AnyValueOf string
  | WithField string "node list"

record template_engine =
  te_parse :: "string \<Rightarrow> string \<Rightarrow> node list result"
  te_choose :: "string list \<Rightarrow> string"
  te_locate :: "string \<Rightarrow> string \<Rightarrow> string"

fun print_value :: "pvalue option \<Rightarrow> string" where
  "print_value None = ''<no value>''"
| "print_value (Some (PString s)) = s"
| "print_value (Some (PBool b)) = (if b then ''true'' else ''false'')"
| "print_value (Some (PStrings ss)) = ''['' @ strings_join '' '' ss @ '']''"
| "print_value (Some (PError None)) = ''<no value>''"
| "print_value (Some (PError (Some e))) = err_text e"

fun is_true :: "pvalue option \<Rightarrow> bool" where
  "is_true None = False"
| "is_true (Some (PString s)) = (s \<noteq> [])"
| "is_true (Some (PBool b)) = b"
| "is_true (Some (PStrings ss)) = (ss \<noteq> [])"
| "is_true (Some (PError e)) = (e \<noteq> None)"

text \<open>\<^verbatim>\<open>rand.Intn(0)\<close> panics, so an action with no message at all does.\<close>

definition anyValue :: "template_engine \<Rightarrow> string \<Rightarrow> payload \<Rightarrow> string result" where
  "anyValue T key p =
     (case map_of p key of
        None \<Rightarrow> Fails (Errorf (key @ '' is not loaded in the payload''))
      | Some (PStrings vs) \<Rightarrow>
          (if vs = [] then Fails (Panicking ''invalid argument to Intn'') else Returns (te_choose T vs))
      | Some _ \<Rightarrow> Fails (Errorf (key @ '' is not a string slice'')))"

definition located :: "template_engine \<Rightarrow> string \<Rightarrow> 'a result \<Rightarrow> 'a result" where
  "located T name r =
     (case r of
        Inl (Panicking m) \<Rightarrow> Fails (Panicking m)
      | Inl e \<Rightarrow> Fails (Foreign (te_locate T name (err_text e)))
      | Inr x \<Rightarrow> Returns x)"

fun exec_nodes :: "template_engine \<Rightarrow> string \<Rightarrow> payload \<Rightarrow> node list \<Rightarrow> string result"
  and exec_node :: "template_engine \<Rightarrow> string \<Rightarrow> payload \<Rightarrow> node \<Rightarrow> string result" where
  "exec_nodes T name p [] = Returns []"
| "exec_nodes T name p (n # ns) =
     (case exec_node T name p n of
        Inl e \<Rightarrow> Fails e
      | Inr s \<Rightarrow> (case exec_nodes T name p ns of Inl e \<Rightarrow> Fails e | Inr t \<Rightarrow> Returns (s @ t)))"
| "exec_node T name p (Text s) = Returns s"
| "exec_node T name p (Field k) = Returns (print_value (map_of p k))"
| "exec_node T name p (AnyValueOf k) = located T name (anyValue T k p)"
| "exec_node T name p (WithField k body) =
     (if is_true (map_of p k) then exec_nodes T name p body else Returns [])"

section \<open>Package template\<close>

definition Handshake :: string where "Handshake = ''handshake''"
definition Success :: string where "Success = ''success''"
definition Failure :: string where "Failure = ''failure''"
definition UnknownCommand :: string where "UnknownCommand = ''unknowncommand''"
definition Unauthorized :: string where "Unauthorized = ''unauthorized''"

lemmas action_names =
  Handshake_def Success_def Failure_def UnknownCommand_def Unauthorized_def

definition any_value_text :: "string \<Rightarrow> string" where
  "any_value_text key = ''{{ AnyValue '' @ [CHR 0x22] @ key @ [CHR 0x22] @ '' . }}''"

definition with_output_text :: string where
  "with_output_text = ''{{ with $out := .output }}'' @ [CHR 0x0A] @ ''```'' @ [CHR 0x0A] @ ''{{ $out }}```{{ end }}''"

definition GetDefaultTemplates :: "(string, string) gomap" where
  "GetDefaultTemplates =
     [(Handshake, any_value_text Handshake),
      (Success, ''{{ .userlink }} '' @ any_value_text Success @ with_output_text),
      (Failure, ''{{ .userlink }} '' @ any_value_text Failure @ '' :disappointed: {{ .error }}'' @ with_output_text),
      (UnknownCommand, ''{{ .userlink }} '' @ any_value_text UnknownCommand @ '' {{ .command }}''),
      (Unauthorized, ''{{ .userlink }} '' @ any_value_text Unauthorized @ '' {{ .command }}: {{ .error }}'')]"

definition GetDefaultMessages :: "(string, string list) gomap" where
  "GetDefaultMessages =
     [(Handshake, [''I'' @ [CHR 0x27] @ ''m Mr Meeseeks! look at me!'', ''Mr Meeseeks!'', ''Ooh, yeah! Can do!'',
        ''Ooh, ok!'', ''Yes, siree!'', ''Ooh, I'' @ [CHR 0x27] @ ''m Mr. Meeseeks! Look at me!'']),
      (Success, [''All done!'', ''Mr Meeseeks'', ''Uuuuh, nice!'']),
      (Failure, [''Uuuh!, no, it failed'']),
      (UnknownCommand, [''Uuuh! no, I don'' @ [CHR 0x27] @ ''t know how to do'']),
      (Unauthorized, [''Uuuuh, yeah! you are not allowed to do''])]"

record renderer =
  rd_name :: string
  rd_nodes :: "node list"

record templates =
  tm_renderers :: "(string, renderer) gomap"
  tm_defaultPayload :: payload

record templates_builder =
  tb_messages :: "(string, string list) gomap"
  tb_templates :: "(string, string) gomap"

definition NewBuilder :: templates_builder where
  "NewBuilder = \<lparr>tb_messages = GetDefaultMessages, tb_templates = GetDefaultTemplates\<rparr>"

definition WithMessages :: "(string, string list) gomap \<Rightarrow> templates_builder \<Rightarrow> templates_builder" where
  "WithMessages messages b =
     b\<lparr>tb_messages := fold (\<lambda>(name, message). gomap_update name message) messages (tb_messages b)\<rparr>"

definition WithTemplates :: "(string, string) gomap \<Rightarrow> templates_builder \<Rightarrow> templates_builder" where
  "WithTemplates templates b =
     b\<lparr>tb_templates := fold (\<lambda>(name, template). gomap_update name template) templates (tb_templates b)\<rparr>"

definition Clone :: "templates_builder \<Rightarrow> templates_builder" where
  "Clone b = WithTemplates (tb_templates b) (WithMessages (tb_messages b) NewBuilder)"

definition New_renderer :: "template_engine \<Rightarrow> string \<Rightarrow> string \<Rightarrow> renderer result" where
  "New_renderer T name template =
     (case te_parse T name template of
        Inl e \<Rightarrow> Fails (wrap_err (''could not parse template '' @ name @ '': '') e)
      | Inr nodes \<Rightarrow> Returns \<lparr>rd_name = name, rd_nodes = nodes\<rparr>)"

text \<open>\<^verbatim>\<open>log.Fatalf\<close> ends the process: nothing is built then.\<close>

fun build_renderers :: "template_engine \<Rightarrow> (string, string) gomap \<Rightarrow> (string, renderer) gomap \<Rightarrow>
    (string, renderer) gomap run" where
  "build_renderers T [] rs = Ret rs"
| "build_renderers T ((name, template) # ts) rs =
     (case New_renderer T name template of
        Inl e \<Rightarrow> Panic (''could not parse '' @ name @ '' template: '' @ err_text e)
      | Inr r \<Rightarrow> build_renderers T ts (gomap_update name r rs))"

definition Build :: "template_engine \<Rightarrow> templates_builder \<Rightarrow> templates run" where
  "Build T b =
     (case build_renderers T (tb_templates b) [] of
        Panic m \<Rightarrow> Panic m
      | Ret renderers \<Rightarrow>
          Ret \<lparr>tm_renderers = renderers,
               tm_defaultPayload = fold (\<lambda>(k, v). gomap_update k (PStrings v)) (tb_messages b) []\<rparr>)"

definition newPayload :: "templates \<Rightarrow> payload" where
  "newPayload t = fold (\<lambda>(k, v). gomap_update k v) (tm_defaultPayload t) []"

text \<open>A panic while a template runs is no error value: it passes through both wrappers.\<close>

definition failed_template :: "string \<Rightarrow> err \<Rightarrow> err" where
  "failed_template name e =
     (case e of Panicking m \<Rightarrow> Panicking m | _ \<Rightarrow> wrap_err (''failed to execute template '' @ name @ '': '') e)"

definition renderer_Render :: "template_engine \<Rightarrow> renderer \<Rightarrow> payload \<Rightarrow> string result" where
  "renderer_Render T r data =
     (case exec_nodes T (rd_name r) data (rd_nodes r) of
        Inl e \<Rightarrow> Fails (failed_template (rd_name r) e)
      | Inr s \<Rightarrow> Returns s)"

definition templates_Render :: "template_engine \<Rightarrow> templates \<Rightarrow> string \<Rightarrow> payload \<Rightarrow> string result" where
  "templates_Render T t action payload =
     (let p = fold (\<lambda>(k, v). gomap_update k v) payload (newPayload t)
      in case map_of (tm_renderers t) action of
           None \<Rightarrow> Fails (Errorf (''could not find action '' @ action))
         | Some renderer \<Rightarrow>
             (case renderer_Render T renderer p of
                Inl e \<Rightarrow> Fails (failed_template (rd_name renderer) e)
              | Inr output \<Rightarrow> Returns output))"

section \<open>Package formatter\<close>

record message_colors =
  mc_Info :: string
  mc_Success :: string
  mc_Error :: string

record format_config =
  fc_Colors :: message_colors
  fc_ReplyStyle :: "(string, string) gomap"
  fc_Templates :: "(string, string) gomap"
  fc_Messages :: "(string, string list) gomap"

record formatter =
  fm_colors :: message_colors
  fm_templates :: templates_builder
  fm_replyStyle :: "(string, string) gomap"

record reply =
  rp_action :: string
  rp_request :: request
  rp_output :: string
  rp_err :: "err option"
  rp_colors :: message_colors
  rp_templates :: templates_builder
  rp_style :: string

definition Configure_formatter :: "format_config \<Rightarrow> formatter" where
  "Configure_formatter cnf =
     \<lparr>fm_colors = fc_Colors cnf,
      fm_templates = WithTemplates (fc_Templates cnf) (WithMessages (fc_Messages cnf) NewBuilder),
      fm_replyStyle = fc_ReplyStyle cnf\<rparr>"

definition replyStyle_Get :: "(string, string) gomap \<Rightarrow> string \<Rightarrow> string" where
  "replyStyle_Get styles mode =
     (if mode \<in> {Handshake, UnknownCommand, Unauthorized, Failure, Success}
      then (case map_of styles mode of Some style \<Rightarrow> style | None \<Rightarrow> [])
      else [])"

definition newReplier :: "formatter \<Rightarrow> string \<Rightarrow> request \<Rightarrow> reply" where
  "newReplier f action req =
     \<lparr>rp_action = action, rp_request = req, rp_output = [], rp_err = None, rp_colors = fm_colors f,
      rp_templates = Clone (fm_templates f), rp_style = replyStyle_Get (fm_replyStyle f) action\<rparr>"

definition WithOutput :: "string \<Rightarrow> reply \<Rightarrow> reply" where
  "WithOutput output r = r\<lparr>rp_output := output\<rparr>"

definition WithError :: "err option \<Rightarrow> reply \<Rightarrow> reply" where
  "WithError e r = r\<lparr>rp_err := e\<rparr>"

definition HandshakeReply :: "formatter \<Rightarrow> request \<Rightarrow> reply" where
  "HandshakeReply f req = newReplier f Handshake req"

definition UnknownCommandReply :: "formatter \<Rightarrow> request \<Rightarrow> reply" where
  "UnknownCommandReply f req = newReplier f UnknownCommand req"

definition UnauthorizedCommandReply :: "formatter \<Rightarrow> request \<Rightarrow> reply" where
  "UnauthorizedCommandReply f req = newReplier f Unauthorized req"

definition FailureReply :: "formatter \<Rightarrow> request \<Rightarrow> err \<Rightarrow> reply" where
  "FailureReply f req e = WithError (Some e) (newReplier f Failure req)"

definition SuccessReply :: "formatter \<Rightarrow> request \<Rightarrow> reply" where
  "SuccessReply f req = newReplier f Success req"

definition reply_payload :: "reply \<Rightarrow> payload" where
  "reply_payload r =
     (let q = rp_request r
      in [(''command'', PString (req_Command q)), (''args'', PString (strings_join '' '' (req_Args q))),
          (''user'', PString (req_Username q)), (''userlink'', PString (req_UserLink q)),
          (''userid'', PString (req_UserID q)), (''channel'', PString (req_Channel q)),
          (''channellink'', PString (req_ChannelLink q)), (''channelid'', PString (req_ChannelID q)),
          (''isim'', PBool (req_IsIM q)), (''error'', PError (rp_err r)), (''output'', PString (rp_output r))])"

definition reply_Render :: "template_engine \<Rightarrow> reply \<Rightarrow> string result run" where
  "reply_Render T r =
     (case Build T (rp_templates r) of
        Panic m \<Rightarrow> Panic m
      | Ret t \<Rightarrow> Ret (templates_Render T t (rp_action r) (reply_payload r)))"

definition reply_ChannelID :: "reply \<Rightarrow> string" where
  "reply_ChannelID r = req_ChannelID (rp_request r)"

definition reply_Color :: "reply \<Rightarrow> string" where
  "reply_Color r =
     (if rp_action r = Handshake then mc_Info (rp_colors r)
      else if rp_action r \<in> {UnknownCommand, Unauthorized, Failure} then mc_Error (rp_colors r)
      else mc_Success (rp_colors r))"

section \<open>Overriding\<close>

lemma map_of_fold_update_pairs:
  "map_of (fold (\<lambda>(k, v). gomap_update k v) kvs m) = map_of m ++ map_of (rev kvs)"
  by (induction kvs arbitrary: m) (auto simp: map_add_def fun_eq_iff split: option.split)

lemma fold_update_pairs_ok:
  "gomap_ok m \<Longrightarrow> gomap_ok (fold (\<lambda>(k, v). gomap_update k v) kvs m)"
  by (induction kvs arbitrary: m) (auto simp: distinct_update)

lemma defaults_ok [simp]: "gomap_ok GetDefaultTemplates" "gomap_ok GetDefaultMessages"
  by (simp_all add: GetDefaultTemplates_def GetDefaultMessages_def action_names)

definition builder_ok :: "templates_builder \<Rightarrow> bool" where
  "builder_ok b \<longleftrightarrow> gomap_ok (tb_messages b) \<and> gomap_ok (tb_templates b)"

lemma builder_ops:
  "map_of (tb_messages (WithMessages ms b)) = map_of (tb_messages b) ++ map_of (rev ms)"
  "map_of (tb_templates (WithTemplates ts b)) = map_of (tb_templates b) ++ map_of (rev ts)"
  "tb_templates (WithMessages ms b) = tb_templates b" "tb_messages (WithTemplates ts b) = tb_messages b"
  "builder_ok NewBuilder" "builder_ok b \<Longrightarrow> builder_ok (WithMessages ms b)" "builder_ok b \<Longrightarrow> builder_ok (WithTemplates ts b)"
  by (simp_all add: WithMessages_def WithTemplates_def map_of_fold_update_pairs builder_ok_def NewBuilder_def
      fold_update_pairs_ok)

text \<open>A clone of a builder that holds the defaults or more says the same.\<close>

lemma Clone_same:
  assumes "builder_ok b" and "map_of GetDefaultMessages \<subseteq>\<^sub>m map_of (tb_messages b) \<or> dom (map_of GetDefaultMessages) \<subseteq> dom (map_of (tb_messages b))"
    and "dom (map_of GetDefaultTemplates) \<subseteq> dom (map_of (tb_templates b))"
  shows "map_of (tb_messages (Clone b)) = map_of (tb_messages b)"
    and "map_of (tb_templates (Clone b)) = map_of (tb_templates b)"
proof -
  have ext: "m ++ n = n" if "dom m \<subseteq> dom n" for m n :: "'k \<Rightarrow> 'v option"
    using that by (auto simp: map_add_def fun_eq_iff domIff split: option.split)
  have "dom (map_of GetDefaultMessages) \<subseteq> dom (map_of (tb_messages b))"
    using assms(2) by (auto dest: map_le_implies_dom_le)
  then show "map_of (tb_messages (Clone b)) = map_of (tb_messages b)"
    using assms(1) by (simp add: Clone_def builder_ops NewBuilder_def map_of_rev_distinct builder_ok_def ext)
  show "map_of (tb_templates (Clone b)) = map_of (tb_templates b)"
    using assms(1,3) by (simp add: Clone_def builder_ops NewBuilder_def map_of_rev_distinct builder_ok_def ext)
qed

lemma Clone_ok: "builder_ok (Clone b)"
  by (simp add: Clone_def builder_ops)

text \<open>What the templates of a configured reply are.\<close>

lemma reply_templates:
  assumes "gomap_ok (fc_Messages cnf)" and "gomap_ok (fc_Templates cnf)"
  shows "map_of (tb_messages (rp_templates (newReplier (Configure_formatter cnf) action req))) =
      map_of GetDefaultMessages ++ map_of (fc_Messages cnf)"
    and "map_of (tb_templates (rp_templates (newReplier (Configure_formatter cnf) action req))) =
      map_of GetDefaultTemplates ++ map_of (fc_Templates cnf)"
proof -
  let ?b = "WithTemplates (fc_Templates cnf) (WithMessages (fc_Messages cnf) NewBuilder)"
  have "map_of (tb_messages ?b) = map_of GetDefaultMessages ++ map_of (fc_Messages cnf)"
    "map_of (tb_templates ?b) = map_of GetDefaultTemplates ++ map_of (fc_Templates cnf)"
    using assms by (simp_all add: builder_ops NewBuilder_def map_of_rev_distinct)
  moreover have "builder_ok ?b" by (simp add: builder_ops)
  ultimately show "map_of (tb_messages (rp_templates (newReplier (Configure_formatter cnf) action req))) =
      map_of GetDefaultMessages ++ map_of (fc_Messages cnf)"
    "map_of (tb_templates (rp_templates (newReplier (Configure_formatter cnf) action req))) =
      map_of GetDefaultTemplates ++ map_of (fc_Templates cnf)"
    using Clone_same [of ?b] by (simp_all add: newReplier_def Configure_formatter_def dom_map_add)
qed

section \<open>Rendering\<close>

lemma build_renderers_conv:
  assumes "\<And>name text. (name, text) \<in> set ts \<Longrightarrow> te_parse T name text = Returns (nodes name)"
  shows "build_renderers T ts rs =
    Ret (fold (\<lambda>(k, v). gomap_update k v) (map (\<lambda>(name, _). (name, \<lparr>rd_name = name, rd_nodes = nodes name\<rparr>)) ts) rs)"
  using assms
proof (induction ts arbitrary: rs)
  case (Cons t ts)
  then show ?case by (cases t) (simp add: New_renderer_def)
qed simp

definition payload_of :: "templates_builder \<Rightarrow> payload \<Rightarrow> payload" where
  "payload_of b p =
     fold (\<lambda>(k, v). gomap_update k v) p
       (fold (\<lambda>(k, v). gomap_update k v) (fold (\<lambda>(k, v). gomap_update k (PStrings v)) (tb_messages b) []) [])"

lemma fold_PStrings:
  "fold (\<lambda>(k, v). gomap_update k (PStrings v)) ms m =
   fold (\<lambda>(k, v). gomap_update k v) (map (\<lambda>(k, v). (k, PStrings v)) ms) m"
  by (induction ms arbitrary: m) auto

lemma map_of_payload:
  assumes "builder_ok b" and "gomap_ok p"
  shows "map_of (payload_of b p) = (map_option PStrings \<circ> map_of (tb_messages b)) ++ map_of p"
proof -
  let ?m = "fold (\<lambda>(k, v). gomap_update k (PStrings v)) (tb_messages b) []"
  let ?ms = "map (\<lambda>(k, v). (k, PStrings v)) (tb_messages b)"
  have "gomap_ok ?ms" using assms(1) by (simp add: builder_ok_def comp_def case_prod_unfold)
  then have m: "map_of ?m = map_option PStrings \<circ> map_of (tb_messages b)"
    unfolding fold_PStrings map_of_fold_update_pairs by (simp add: map_of_rev_distinct map_of_map)
  have "gomap_ok ?m" unfolding fold_PStrings by (rule fold_update_pairs_ok) simp
  then show ?thesis
    using assms(2) by (simp add: payload_of_def map_of_fold_update_pairs map_of_rev_distinct m)
qed

lemma reply_Render_conv:
  assumes "\<And>name text. (name, text) \<in> set (tb_templates (rp_templates r)) \<Longrightarrow> te_parse T name text = Returns (nodes name)"
    and "rp_action r \<in> fst ` set (tb_templates (rp_templates r))"
    and "exec_nodes T (rp_action r) (payload_of (rp_templates r) (reply_payload r)) (nodes (rp_action r)) = Returns s"
  shows "reply_Render T r = Ret (Returns s)"
proof -
  let ?ts = "tb_templates (rp_templates r)" and ?rd = "\<lambda>name. \<lparr>rd_name = name, rd_nodes = nodes name\<rparr>"
  let ?rs = "fold (\<lambda>(k, v). gomap_update k v) (map (\<lambda>(name, _). (name, ?rd name)) ?ts) []"
  have b: "build_renderers T ?ts [] = Ret ?rs" by (rule build_renderers_conv [OF assms(1)])
  let ?kvs = "rev (map (\<lambda>(name, _). (name, ?rd name)) ?ts)"
  have rs: "map_of ?rs = map_of ?kvs" by (simp add: map_of_fold_update_pairs)
  have "rp_action r \<in> fst ` set ?kvs" using assms(2) by force
  then have "map_of ?kvs (rp_action r) \<noteq> None" by (simp only: map_of_eq_None_iff not_not)
  then obtain x where x: "map_of ?kvs (rp_action r) = Some x" by blast
  then have "(rp_action r, x) \<in> set ?kvs" by (rule map_of_SomeD)
  then have "x = ?rd (rp_action r)" by auto
  with x b assms(3) rs show ?thesis
    by (simp add: reply_Render_def Build_def templates_Render_def newPayload_def renderer_Render_def payload_of_def Let_def)
qed

section \<open>The default texts\<close>

text \<open>
  The part of the template language that the default texts use: text, and between two braces a field of the payload,
  a choice among its messages, a \<^verbatim>\<open>with\<close> that names a field, the name inside it, and its end. Words are
  separated by blanks. Anything else is not read here, so that nothing is said of it.
\<close>

datatype piece = Plain string | Action "string list"

fun split_words :: "string \<Rightarrow> string \<Rightarrow> string list" where
  "split_words acc [] = (if acc = [] then [] else [acc])"
| "split_words acc (c # s) =
     (if c = CHR '' '' then (if acc = [] then [] else [acc]) @ split_words [] s else split_words (acc @ [c]) s)"

definition plain :: "string \<Rightarrow> piece list" where
  "plain s = (if s = [] then [] else [Plain s])"

fun scan_template :: "bool \<Rightarrow> string \<Rightarrow> string \<Rightarrow> piece list option" where
  "scan_template inside acc [] = (if inside then None else Some (plain acc))"
| "scan_template inside acc [c] = (if inside then None else Some (plain (acc @ [c])))"
| "scan_template inside acc (c # d # s) =
     (if \<not> inside \<and> c = CHR ''{'' \<and> d = CHR ''{'' then map_option (\<lambda>ps. plain acc @ ps) (scan_template True [] s)
      else if inside \<and> c = CHR ''}'' \<and> d = CHR ''}''
      then map_option (\<lambda>ps. Action (split_words [] acc) # ps) (scan_template False [] s)
      else scan_template inside (acc @ [c]) (d # s))"

definition letters :: "string \<Rightarrow> bool" where
  "letters s \<longleftrightarrow> s \<noteq> [] \<and> list_all (\<lambda>c. c \<in> set ''abcdefghijklmnopqrstuvwxyz'') s"

text \<open>A word that starts with a character and goes on with letters.\<close>

definition marked :: "char \<Rightarrow> string \<Rightarrow> string option" where
  "marked m w = (case w of [] \<Rightarrow> None | c # k \<Rightarrow> if c = m \<and> letters k then Some k else None)"

definition unquoted :: "string \<Rightarrow> string option" where
  "unquoted w =
     (case w of
        [] \<Rightarrow> None
      | c # k \<Rightarrow> if c = CHR 0x22 \<and> k \<noteq> [] \<and> last k = CHR 0x22 \<and> letters (butlast k) then Some (butlast k) else None)"

text \<open>The \<^verbatim>\<open>with\<close> that is open, if any: its variable, its field and its body so far.\<close>

fun read_pieces :: "node list \<Rightarrow> (string \<times> string \<times> node list) option \<Rightarrow> piece list \<Rightarrow> node list option" where
  "read_pieces ns None [] = Some ns"
| "read_pieces ns (Some _) [] = None"
| "read_pieces ns None (Plain t # ps) = read_pieces (ns @ [Text t]) None ps"
| "read_pieces ns (Some (v, f, body)) (Plain t # ps) = read_pieces ns (Some (v, f, body @ [Text t])) ps"
| "read_pieces ns None (Action ws # ps) =
     (case ws of
        [w] \<Rightarrow> (case marked (CHR ''.'') w of Some f \<Rightarrow> read_pieces (ns @ [Field f]) None ps | None \<Rightarrow> None)
      | [fn, q, d] \<Rightarrow>
          (case unquoted q of
             Some key \<Rightarrow> if fn = ''AnyValue'' \<and> d = ''.'' then read_pieces (ns @ [AnyValueOf key]) None ps else None
           | None \<Rightarrow> None)
      | [kw, v, eq, w] \<Rightarrow>
          (case (marked (CHR ''$'') v, marked (CHR ''.'') w) of
             (Some _, Some f) \<Rightarrow> if kw = ''with'' \<and> eq = '':='' then read_pieces ns (Some (v, f, [])) ps else None
           | _ \<Rightarrow> None)
      | _ \<Rightarrow> None)"
| "read_pieces ns (Some (v, f, body)) (Action ws # ps) =
     (if ws = [v] then read_pieces ns (Some (v, f, body @ [Field f])) ps
      else if ws = [''end''] then read_pieces (ns @ [WithField f body]) None ps
      else None)"

definition parse_template :: "string \<Rightarrow> node list option" where
  "parse_template text = (case scan_template False [] text of None \<Rightarrow> None | Some ps \<Rightarrow> read_pieces [] None ps)"

text \<open>
  The library reads templates in this language as it documents, whatever their name; and a choice is one of the
  messages.
\<close>

definition reads_templates :: "template_engine \<Rightarrow> bool" where
  "reads_templates T \<longleftrightarrow>
     (\<forall>name text nodes. parse_template text = Some nodes \<longrightarrow> te_parse T name text = Returns nodes) \<and>
     (\<forall>xs. xs \<noteq> [] \<longrightarrow> te_choose T xs \<in> set xs)"

text \<open>What the default texts are read as.\<close>

definition with_output :: "node list" where
  "with_output = [WithField ''output'' [Text ([CHR 0x0A] @ ''```'' @ [CHR 0x0A]), Field ''output'', Text ''```'']]"

definition default_nodes :: "string \<Rightarrow> node list" where
  "default_nodes name =
     (if name = Handshake then [AnyValueOf Handshake]
      else [Field ''userlink'', Text '' '', AnyValueOf name] @
        (if name = Success then with_output
         else if name = Failure then [Text '' :disappointed: '', Field ''error''] @ with_output
         else if name = UnknownCommand then [Text '' '', Field ''command'']
         else [Text '' '', Field ''command'', Text '': '', Field ''error'']))"

lemma default_texts:
  assumes "(name, text) \<in> set GetDefaultTemplates"
  shows "parse_template text = Some (default_nodes name)"
proof -
  have "list_all (\<lambda>(name, text). parse_template text = Some (default_nodes name)) GetDefaultTemplates" by code_simp
  with assms show ?thesis by (auto simp: list_all_iff)
qed

lemma reads_default_texts:
  "reads_templates T \<Longrightarrow> (name, text) \<in> set GetDefaultTemplates \<Longrightarrow> te_parse T name text = Returns (default_nodes name)"
  using default_texts by (simp add: reads_templates_def)

lemma reads_templates_choose: "reads_templates T \<Longrightarrow> xs \<noteq> [] \<Longrightarrow> te_choose T xs \<in> set xs"
  by (simp add: reads_templates_def)

definition no_overrides :: "format_config \<Rightarrow> bool" where
  "no_overrides cnf \<longleftrightarrow> fc_Templates cnf = [] \<and> fc_Messages cnf = []"

lemma default_reply:
  assumes T: "reads_templates T" and cnf: "no_overrides cnf"
    and r: "rp_templates r = rp_templates (newReplier (Configure_formatter cnf) a req)"
    and act: "rp_action r \<in> {Handshake, Success, Failure, UnknownCommand, Unauthorized}"
    and ex: "\<And>p. map_of p = (map_option PStrings \<circ> map_of GetDefaultMessages) ++ map_of (reply_payload r) \<Longrightarrow>
      exec_nodes T (rp_action r) p (default_nodes (rp_action r)) = Returns s"
  shows "reply_Render T r = Ret (Returns s)"
proof (rule reply_Render_conv)
  let ?b = "rp_templates r"
  have cs: "gomap_ok (fc_Messages cnf)" "gomap_ok (fc_Templates cnf)" using cnf by (simp_all add: no_overrides_def)
  have ts: "map_of (tb_templates ?b) = map_of GetDefaultTemplates"
    and ms: "map_of (tb_messages ?b) = map_of GetDefaultMessages"
    unfolding r reply_templates [OF cs] using cnf by (simp_all add: no_overrides_def)
  have ok: "builder_ok ?b" unfolding r by (simp add: newReplier_def Clone_ok)
  show "te_parse T name tx = Returns (default_nodes name)" if "(name, tx) \<in> set (tb_templates ?b)" for name tx
  proof -
    have "map_of (tb_templates ?b) name = Some tx" using ok that by (simp add: builder_ok_def)
    then have "(name, tx) \<in> set GetDefaultTemplates" unfolding ts by (rule map_of_SomeD)
    then show ?thesis by (rule reads_default_texts [OF T])
  qed
  have "map_of GetDefaultTemplates (rp_action r) \<noteq> None"
    using act by (auto simp: GetDefaultTemplates_def action_names)
  then show "rp_action r \<in> fst ` set (tb_templates ?b)"
    unfolding ts [symmetric] by (simp only: map_of_eq_None_iff not_not)
  have "gomap_ok (reply_payload r)" by (simp add: reply_payload_def Let_def)
  then show "exec_nodes T (rp_action r) (payload_of ?b (reply_payload r)) (default_nodes (rp_action r)) = Returns s"
    by (intro ex) (simp add: map_of_payload [OF ok] ms)
qed

lemma action_names_distinct [simp]:
  "Handshake \<noteq> Success" "Handshake \<noteq> Failure" "Handshake \<noteq> UnknownCommand" "Handshake \<noteq> Unauthorized"
  "Success \<noteq> Handshake" "Success \<noteq> Failure" "Success \<noteq> UnknownCommand" "Success \<noteq> Unauthorized"
  "Failure \<noteq> Handshake" "Failure \<noteq> Success" "Failure \<noteq> UnknownCommand" "Failure \<noteq> Unauthorized"
  "UnknownCommand \<noteq> Handshake" "UnknownCommand \<noteq> Success" "UnknownCommand \<noteq> Failure" "UnknownCommand \<noteq> Unauthorized"
  "Unauthorized \<noteq> Handshake" "Unauthorized \<noteq> Success" "Unauthorized \<noteq> Failure" "Unauthorized \<noteq> UnknownCommand"
  by (simp_all add: action_names)

text \<open>What the payload of a reply answers to the fields of the default templates.\<close>

lemma payload_fields:
  assumes "map_of p = (map_option PStrings \<circ> map_of GetDefaultMessages) ++ map_of (reply_payload r)"
  shows "map_of p ''userlink'' = Some (PString (req_UserLink (rp_request r)))"
    and "map_of p ''command'' = Some (PString (req_Command (rp_request r)))"
    and "map_of p ''error'' = Some (PError (rp_err r))" and "map_of p ''output'' = Some (PString (rp_output r))"
    and "k \<in> {Handshake, Success, Failure, UnknownCommand, Unauthorized} \<Longrightarrow>
      map_of p k = map_option PStrings (map_of GetDefaultMessages k)"
proof -
  have "map_of (reply_payload r) k = None" if "k \<in> {Handshake, Success, Failure, UnknownCommand, Unauthorized}"
    using that by (elim insertE) (simp_all add: reply_payload_def Let_def action_names)
  then show "k \<in> {Handshake, Success, Failure, UnknownCommand, Unauthorized} \<Longrightarrow>
      map_of p k = map_option PStrings (map_of GetDefaultMessages k)"
    by (simp only: assms map_add_def comp_apply option.case)
qed (simp_all add: assms map_add_def reply_payload_def Let_def)

lemma default_anyValue:
  assumes "map_of p = (map_option PStrings \<circ> map_of GetDefaultMessages) ++ map_of (reply_payload r)"
    and "reads_templates T" and "k \<in> {Handshake, Success, Failure, UnknownCommand, Unauthorized}"
  shows "\<exists>m ms. map_of GetDefaultMessages k = Some ms \<and> m \<in> set ms \<and> anyValue T k p = Returns m"
proof -
  obtain ms where ms: "map_of GetDefaultMessages k = Some ms" "ms \<noteq> []"
    using assms(3) by (auto simp: GetDefaultMessages_def action_names)
  with assms(2) have "te_choose T ms \<in> set ms" by (simp add: reads_templates_def)
  moreover have "anyValue T k p = Returns (te_choose T ms)"
    using payload_fields(5) [OF assms(1,3)] ms by (simp add: anyValue_def)
  ultimately show ?thesis using ms(1) by blast
qed

section \<open>Properties\<close>

text \<open>
  A user who is turned away never learns why. With the default texts the reply to an unauthorized request
  ends in \<open>: <no value>\<close>, because the reply is made without the error its template prints.
\<close>

theorem unauthorized_reply_has_no_reason:
  assumes "reads_templates T" and "no_overrides cnf"
  shows "reply_Render T (UnauthorizedCommandReply (Configure_formatter cnf) req) =
    Ret (Returns (req_UserLink req @ '' Uuuuh, yeah! you are not allowed to do '' @ req_Command req @ '': <no value>''))"
proof (rule default_reply [OF assms])
  let ?r = "UnauthorizedCommandReply (Configure_formatter cnf) req"
  show "rp_templates ?r = rp_templates (newReplier (Configure_formatter cnf) Unauthorized req)"
    by (simp add: UnauthorizedCommandReply_def)
  show "rp_action ?r \<in> {Handshake, Success, Failure, UnknownCommand, Unauthorized}"
    by (simp add: UnauthorizedCommandReply_def newReplier_def)
  fix p assume p: "map_of p = (map_option PStrings \<circ> map_of GetDefaultMessages) ++ map_of (reply_payload ?r)"
  have "anyValue T Unauthorized p = Returns ''Uuuuh, yeah! you are not allowed to do''"
    using default_anyValue [OF p assms(1), of Unauthorized]
    by (auto simp: GetDefaultMessages_def action_names)
  then show "exec_nodes T (rp_action ?r) p (default_nodes (rp_action ?r)) =
      Returns (req_UserLink req @ '' Uuuuh, yeah! you are not allowed to do '' @ req_Command req @ '': <no value>'')"
    using payload_fields [OF p] by (simp add: default_nodes_def located_def UnauthorizedCommandReply_def newReplier_def)
qed

definition ref_engine :: template_engine where
  "ref_engine = \<lparr>te_parse = (\<lambda>name tx. case parse_template tx of Some ns \<Rightarrow> Returns ns | None \<Rightarrow> Fails (Foreign ''not in the language'')), te_choose = hd, te_locate = (\<lambda>name e. e)\<rparr>"

definition default_format :: format_config where
  "default_format = \<lparr>fc_Colors = \<lparr>mc_Info = [], mc_Success = ''good'', mc_Error = ''danger''\<rparr>, fc_ReplyStyle = [],
     fc_Templates = [], fc_Messages = []\<rparr>"

lemma ref_engine_reads: "reads_templates ref_engine" "no_overrides default_format"
  by (auto simp: reads_templates_def ref_engine_def no_overrides_def default_format_def)

theorem unauthorized_reply_has_no_reason_witness:
  "reply_Render ref_engine (UnauthorizedCommandReply (Configure_formatter default_format)
      (zero_request\<lparr>req_UserLink := ''<@U1>'', req_Command := ''kill''\<rparr>)) =
    Ret (Returns ''<@U1> Uuuuh, yeah! you are not allowed to do kill: <no value>'')"
  using unauthorized_reply_has_no_reason [OF ref_engine_reads] by simp

definition output_block :: "string \<Rightarrow> string" where
  "output_block out = (if out = [] then [] else [CHR 0x0A] @ ''```'' @ [CHR 0x0A] @ out @ ''```'')"

lemma with_output_block:
  "map_of p ''output'' = Some (PString out) \<Longrightarrow> exec_nodes T name p with_output = Returns (output_block out)"
  by (simp add: with_output_def output_block_def)

lemma default_failure:
  assumes "reads_templates T" and "no_overrides cnf"
  shows "reply_Render T (WithOutput out (FailureReply (Configure_formatter cnf) req e)) =
      Ret (Returns (req_UserLink req @ '' Uuuh!, no, it failed :disappointed: '' @ err_text e @ output_block out))"
proof (rule default_reply [OF assms])
  let ?r = "WithOutput out (FailureReply (Configure_formatter cnf) req e)"
  show "rp_templates ?r = rp_templates (newReplier (Configure_formatter cnf) Failure req)"
    "rp_action ?r \<in> {Handshake, Success, Failure, UnknownCommand, Unauthorized}"
    by (simp_all add: FailureReply_def WithOutput_def WithError_def newReplier_def)
  fix p assume p: "map_of p = (map_option PStrings \<circ> map_of GetDefaultMessages) ++ map_of (reply_payload ?r)"
  have "anyValue T Failure p = Returns ''Uuuh!, no, it failed''"
    using default_anyValue [OF p assms(1), of Failure] by (auto simp: GetDefaultMessages_def action_names)
  then show "exec_nodes T (rp_action ?r) p (default_nodes (rp_action ?r)) =
      Returns (req_UserLink req @ '' Uuuh!, no, it failed :disappointed: '' @ err_text e @ output_block out)"
    using payload_fields [OF p] with_output_block [OF payload_fields(4) [OF p]]
    by (simp add: default_nodes_def located_def FailureReply_def WithOutput_def WithError_def newReplier_def)
qed

text \<open>
  C34: with the default texts, the reply to a failed command is the link of the user, the message of the action,
  the error, and the output in a code block when there is any; a successful reply is the link, one of
  the messages of success, and the output likewise. An output is never lost or altered.
\<close>

theorem replies_carry_output:
  assumes "reads_templates T" and "no_overrides cnf"
  shows "reply_Render T (WithOutput out (FailureReply (Configure_formatter cnf) req e)) =
      Ret (Returns (req_UserLink req @ '' Uuuh!, no, it failed :disappointed: '' @ err_text e @ output_block out)) \<and>
    (\<exists>m \<in> {''All done!'', ''Mr Meeseeks'', ''Uuuuh, nice!''}.
      reply_Render T (WithOutput out (SuccessReply (Configure_formatter cnf) req)) =
        Ret (Returns (req_UserLink req @ '' '' @ m @ output_block out)))"
proof (rule conjI [OF default_failure [OF assms]])
  let ?r = "WithOutput out (SuccessReply (Configure_formatter cnf) req)"
  let ?m = "te_choose T [''All done!'', ''Mr Meeseeks'', ''Uuuuh, nice!'']"
  have "?m \<in> set [''All done!'', ''Mr Meeseeks'', ''Uuuuh, nice!'']"
    by (rule reads_templates_choose [OF assms(1)]) simp
  then have "?m \<in> {''All done!'', ''Mr Meeseeks'', ''Uuuuh, nice!''}" by simp
  moreover have "reply_Render T ?r = Ret (Returns (req_UserLink req @ '' '' @ ?m @ output_block out))"
  proof (rule default_reply [OF assms])
    show "rp_templates ?r = rp_templates (newReplier (Configure_formatter cnf) Success req)"
      "rp_action ?r \<in> {Handshake, Success, Failure, UnknownCommand, Unauthorized}"
      by (simp_all add: SuccessReply_def WithOutput_def newReplier_def)
    fix p assume p: "map_of p = (map_option PStrings \<circ> map_of GetDefaultMessages) ++ map_of (reply_payload ?r)"
    have "map_of p Success = Some (PStrings [''All done!'', ''Mr Meeseeks'', ''Uuuuh, nice!''])"
      using payload_fields(5) [OF p, of Success] by (simp add: GetDefaultMessages_def action_names)
    then have "anyValue T Success p = Returns ?m" by (simp add: anyValue_def)
    then show "exec_nodes T (rp_action ?r) p (default_nodes (rp_action ?r)) =
        Returns (req_UserLink req @ '' '' @ ?m @ output_block out)"
      using payload_fields [OF p] with_output_block [OF payload_fields(4) [OF p]]
      by (simp add: default_nodes_def located_def SuccessReply_def WithOutput_def newReplier_def)
  qed
  ultimately show "\<exists>m \<in> {''All done!'', ''Mr Meeseeks'', ''Uuuuh, nice!''}. reply_Render T ?r =
      Ret (Returns (req_UserLink req @ '' '' @ m @ output_block out))" by blast
qed

theorem replies_carry_output_witness:
  "reply_Render ref_engine (WithOutput [] (FailureReply (Configure_formatter default_format)
      (zero_request\<lparr>req_UserLink := ''<@U1>''\<rparr>) (Errorf ''exit status 1''))) =
    Ret (Returns ''<@U1> Uuuh!, no, it failed :disappointed: exit status 1'')"
  using replies_carry_output [OF ref_engine_reads] by (simp add: output_block_def)

end
