(* ===== verification/Shell.thy ===== *)
theory Shell
  imports Executions
begin

text \<open>
  Shell commands (\<^verbatim>\<open>commands/shell/shell.go\<close>): the command line, the scanning of the output into lines, the
  lines and the error written to the log of the job, and the result. What the operating system does
  with the command is the parameter \<open>run\<close>, a function of the command, its arguments and the timeout.
  Scanner and reader are those of the library: the standard error comes after the standard output,
  lines lose a final carriage return, and a line that does not fit into 64 KiB ends the scan.
\<close>

section \<open>Processes\<close>

datatype process =
    NoStdout err
  | NoStderr err
  | NotStarted err
  | Interrupted string err
  | Finished string string "err option"

type_synonym runner = "string \<Rightarrow> string list \<Rightarrow> i64 \<Rightarrow> process"

definition MaxScanTokenSize :: nat where "MaxScanTokenSize = 64 * 1024"

definition drop_cr :: "string \<Rightarrow> string" where
  "drop_cr l = (if l \<noteq> [] \<and> last l = CHR 0x0D then butlast l else l)"

function scan_lines :: "string \<Rightarrow> string list" where
  "scan_lines s =
     (if s = [] then []
      else (let l = takeWhile (\<lambda>c. c \<noteq> CHR 0x0A) s
            in if MaxScanTokenSize \<le> length l then []
               else drop_cr l # scan_lines (drop (Suc (length l)) s)))"
  by pat_completeness auto
termination
  by (relation "measure length") auto

declare scan_lines.simps [simp del]

section \<open>Execution\<close>

text \<open>Errors of the log writer are only reported, never returned.\<close>

definition AppendLogs :: "'w log_writer \<Rightarrow> u64 \<Rightarrow> string \<Rightarrow> string \<times> 'w \<Rightarrow> string \<times> 'w" where
  "AppendLogs logW jobID line bw =
     (case bw of (outputBuffer, w) \<Rightarrow> (outputBuffer @ line @ newline, snd (lw_Append logW jobID line w)))"

definition shell_SetError :: "'w log_writer \<Rightarrow> u64 \<Rightarrow> err \<Rightarrow> 'w \<Rightarrow> outcome \<times> 'w" where
  "shell_SetError logW jobID e w = (failing e, snd (lw_SetError logW jobID (Some e) w))"

definition shellCommand_Execute :: "'w log_writer \<Rightarrow> runner \<Rightarrow> command_opts \<Rightarrow> job \<Rightarrow> 'w \<Rightarrow> outcome \<times> 'w" where
  "shellCommand_Execute logW run c j w =
     (let cmdArgs = opts_GetArgs c @ args_of j;
          scan = (\<lambda>s. fold (AppendLogs logW (job_ID j)) (scan_lines s) ([], w))
      in case run (opts_GetCmd c) cmdArgs (opts_GetTimeout c) of
           NoStdout e \<Rightarrow> shell_SetError logW (job_ID j) (wrap_err ''could not create stdout pipe: '' e) w
         | NoStderr e \<Rightarrow> shell_SetError logW (job_ID j) (wrap_err ''could not create stderr pipe: '' e) w
         | NotStarted e \<Rightarrow> shell_SetError logW (job_ID j) e w
         | Interrupted out e \<Rightarrow> (case scan out of (_, w') \<Rightarrow> shell_SetError logW (job_ID j) e w')
         | Finished out err_out e \<Rightarrow>
             (case scan (out @ err_out) of
                (outputBuffer, w') \<Rightarrow>
                  (case e of
                     Some x \<Rightarrow> shell_SetError logW (job_ID j) x w'
                   | None \<Rightarrow> (printing outputBuffer, w'))))"

section \<open>Lines\<close>

lemma scan_lines_Nil [simp]: "scan_lines [] = []"
  by (simp add: scan_lines.simps)

lemma scan_lines_line:
  assumes "CHR 0x0A \<notin> set l" and "length l < MaxScanTokenSize"
  shows "scan_lines (l @ CHR 0x0A # s) = drop_cr l # scan_lines s"
proof -
  have "takeWhile (\<lambda>c. c \<noteq> CHR 0x0A) (l @ CHR 0x0A # s) = l"
    using assms(1) by (subst takeWhile_append2) auto
  then show ?thesis using assms(2) by (simp add: scan_lines.simps [of "l @ CHR 0x0A # s"])
qed

lemma scan_lines_short: "l \<in> set (scan_lines s) \<Longrightarrow> length l < MaxScanTokenSize"
proof (induction s rule: scan_lines.induct)
  case (1 s)
  have drop: "length (drop_cr x) \<le> length x" for x by (simp add: drop_cr_def)
  show ?case
    using 1 drop [of "takeWhile (\<lambda>c. c \<noteq> CHR 0x0A) s"]
    by (auto simp: scan_lines.simps [of s] Let_def split: if_splits)
qed

text \<open>Text made of whole lines that fit is read back as these lines.\<close>

lemma scan_unlines:
  "list_all (\<lambda>l. CHR 0x0A \<notin> set l \<and> length l < MaxScanTokenSize \<and> drop_cr l = l) ls \<Longrightarrow>
   scan_lines (concat (map (\<lambda>l. l @ newline) ls) @ s) = ls @ scan_lines s"
  by (induction ls) (simp_all add: scan_lines_line)

lemma AppendLogs_fold:
  "fold (AppendLogs logW i) ls (b, w) =
     (b @ concat (map (\<lambda>l. l @ newline) ls), fold (\<lambda>l w. snd (lw_Append logW i l w)) ls w)"
  by (induction ls arbitrary: b w) (simp_all add: AppendLogs_def)

section \<open>The log of a run\<close>

text \<open>Two worlds that differ in the log of one job only.\<close>

definition same_but_log :: "u64 \<Rightarrow> stored \<Rightarrow> stored \<Rightarrow> bool" where
  "same_but_log i a a' \<longleftrightarrow> st_jobs a' = st_jobs a \<and> st_aliases a' = st_aliases a \<and> st_tokens a' = st_tokens a \<and>
     (\<forall>k. k \<noteq> i \<longrightarrow> st_logs a' k = st_logs a k)"

lemma same_but_log_refl [simp]: "same_but_log i a a"
  by (simp add: same_but_log_def)

lemma same_but_log_trans: "same_but_log i a b \<Longrightarrow> same_but_log i b c \<Longrightarrow> same_but_log i a c"
  by (simp add: same_but_log_def)

lemma same_but_log_upd [simp]: "same_but_log i a (a\<lparr>st_logs := (st_logs a)(i := x)\<rparr>)"
  by (simp add: same_but_log_def)

context reliable_stores
begin

lemma run_append:
  assumes "world_rel C view w a" and "length l < MaxScanTokenSize" and "Suc (length (fst (log_of (st_logs a) i))) < max_lines"
  shows "\<exists>a'. world_rel C view (snd (lw_Append (local_log_writer B) i l w)) a' \<and> same_but_log i a a' \<and>
    log_of (st_logs a') i = (fst (log_of (st_logs a) i) @ filter (\<lambda>l. l \<noteq> []) [l], snd (log_of (st_logs a) i))"
proof (cases "l = []")
  case True
  from local_log.append_nothing [OF assms(1), of i] obtain w' where
    "lw_Append (local_log_writer B) i [] w = (Returns (), w')" "world_rel C view w' a" by blast
  with True show ?thesis by (intro exI [of _ a]) simp
next
  case False
  have "value_ok l" using assms(2) by (simp add: value_ok_def MaxScanTokenSize_def)
  from local_append_ok [OF assms(1) this assms(3)] obtain w' where
    w': "lw_Append (local_log_writer B) i l w = (Returns (), w')" by blast
  from local_append [OF assms(1) False assms(3) w'] False w' show ?thesis
    by (intro exI [of _ "a\<lparr>st_logs := (st_logs a)(i \<mapsto> (fst (log_of (st_logs a) i) @ [l], snd (log_of (st_logs a) i)))\<rparr>"])
       (simp add: log_of_def)
qed

lemma run_append_all:
  assumes "world_rel C view w a" and "\<forall>l \<in> set ls. length l < MaxScanTokenSize"
    and "length (fst (log_of (st_logs a) i)) + length ls < max_lines"
  shows "\<exists>a'. world_rel C view (fold (\<lambda>l w. snd (lw_Append (local_log_writer B) i l w)) ls w) a' \<and> same_but_log i a a' \<and>
    log_of (st_logs a') i = (fst (log_of (st_logs a) i) @ filter (\<lambda>l. l \<noteq> []) ls, snd (log_of (st_logs a) i))"
  using assms
proof (induction ls arbitrary: w a)
  case Nil
  then show ?case by (intro exI [of _ a]) simp
next
  case (Cons l ls)
  from Cons.prems have "Suc (length (fst (log_of (st_logs a) i))) < max_lines" by simp
  with run_append [OF Cons.prems(1), of l i] Cons.prems(2) obtain a1 where
    a1: "world_rel C view (snd (lw_Append (local_log_writer B) i l w)) a1" "same_but_log i a a1"
    "log_of (st_logs a1) i = (fst (log_of (st_logs a) i) @ filter (\<lambda>l. l \<noteq> []) [l], snd (log_of (st_logs a) i))"
    by auto
  have "length (fst (log_of (st_logs a1) i)) + length ls < max_lines"
    using Cons.prems(3) by (auto simp: a1(3))
  with Cons.IH [OF a1(1)] Cons.prems(2) obtain a2 where
    a2: "world_rel C view (fold (\<lambda>l w. snd (lw_Append (local_log_writer B) i l w)) (l # ls) w) a2" "same_but_log i a1 a2"
    "log_of (st_logs a2) i = (fst (log_of (st_logs a1) i) @ filter (\<lambda>l. l \<noteq> []) ls, snd (log_of (st_logs a1) i))"
    by auto
  then show ?case
    using same_but_log_trans [OF a1(2) a2(2)] a1(3) by (intro exI [of _ a2]) simp
qed

lemma run_finished:
  assumes "world_rel C view w a" and "run (opts_GetCmd c) (opts_GetArgs c @ args_of j) (opts_GetTimeout c) = Finished out eo r"
    and "length (fst (log_of (st_logs a) (job_ID j))) + length (scan_lines (out @ eo)) < max_lines"
    and "case r of None \<Rightarrow> True | Some e \<Rightarrow> value_ok (err_text e)"
  shows "\<exists>w' a'. shellCommand_Execute (local_log_writer B) run c j w =
      ((case r of None \<Rightarrow> printing (concat (map (\<lambda>l. l @ newline) (scan_lines (out @ eo)))) | Some e \<Rightarrow> failing e), w') \<and>
    world_rel C view w' a' \<and> same_but_log (job_ID j) a a' \<and>
    log_of (st_logs a') (job_ID j) = (fst (log_of (st_logs a) (job_ID j)) @ filter (\<lambda>l. l \<noteq> []) (scan_lines (out @ eo)),
      case r of None \<Rightarrow> snd (log_of (st_logs a) (job_ID j)) | Some e \<Rightarrow> Some (err_text e))"
proof -
  let ?w = "fold (\<lambda>l w. snd (lw_Append (local_log_writer B) (job_ID j) l w)) (scan_lines (out @ eo)) w"
  obtain a1 where a1: "world_rel C view ?w a1" "same_but_log (job_ID j) a a1"
    "log_of (st_logs a1) (job_ID j) =
      (fst (log_of (st_logs a) (job_ID j)) @ filter (\<lambda>l. l \<noteq> []) (scan_lines (out @ eo)), snd (log_of (st_logs a) (job_ID j)))"
    using run_append_all [OF assms(1) _ assms(3)] scan_lines_short by blast
  show ?thesis
  proof (cases r)
    case None
    with a1 show ?thesis
      by (intro exI [of _ ?w] exI [of _ a1]) (simp add: shellCommand_Execute_def assms(2) AppendLogs_fold)
  next
    case (Some e)
    have "value_ok (err_text e)" using assms(4) Some by simp
    from local_set_error_ok [OF a1(1) this, of "job_ID j"] obtain w' where
      w': "lw_SetError (local_log_writer B) (job_ID j) (Some e) ?w = (Returns (), w')" by blast
    let ?a = "a1\<lparr>st_logs := (st_logs a1)(job_ID j \<mapsto> (fst (log_of (st_logs a1) (job_ID j)), Some (err_text e)))\<rparr>"
    have "world_rel C view w' ?a" by (rule local_set_error [OF a1(1) w'])
    moreover have "same_but_log (job_ID j) a ?a" by (rule same_but_log_trans [OF a1(2)]) simp
    moreover have "log_of (st_logs ?a) (job_ID j) = (fst (log_of (st_logs a1) (job_ID j)), Some (err_text e))"
      by (simp add: log_of_def)
    ultimately show ?thesis
      using Some w' a1(3)
      by (intro exI [of _ w'] exI [of _ ?a]) (simp add: shellCommand_Execute_def assms(2) AppendLogs_fold shell_SetError_def)
  qed
qed

end

section \<open>Properties\<close>

text \<open>
  C33: on a disk that takes the writes, running a shell command to its end gives its standard output followed by
  its standard error, line by line, and the log of its job gets exactly these lines, the empty ones
  left out; a command that fails gives its error and no output at all, but the log keeps the lines
  beside the error. Nothing else in the store changes.
\<close>

theorem shell_run_is_logged:
  assumes "reliable_stores B view C" and "world_rel C view w a"
    and "run (opts_GetCmd c) (opts_GetArgs c @ args_of j) (opts_GetTimeout c) = Finished out eo r"
    and "length (fst (log_of (st_logs a) (job_ID j))) + length (scan_lines (out @ eo)) < max_lines"
    and "case r of None \<Rightarrow> True | Some e \<Rightarrow> value_ok (err_text e)"
  shows "\<exists>w' a'. shellCommand_Execute (local_log_writer B) run c j w =
      ((case r of None \<Rightarrow> printing (concat (map (\<lambda>l. l @ newline) (scan_lines (out @ eo)))) | Some e \<Rightarrow> failing e), w') \<and>
    world_rel C view w' a' \<and>
    log_of (st_logs a') (job_ID j) = (fst (log_of (st_logs a) (job_ID j)) @ filter (\<lambda>l. l \<noteq> []) (scan_lines (out @ eo)),
      case r of None \<Rightarrow> snd (log_of (st_logs a) (job_ID j)) | Some e \<Rightarrow> Some (err_text e)) \<and>
    (\<forall>k. k \<noteq> job_ID j \<longrightarrow> st_logs a' k = st_logs a k) \<and>
    st_jobs a' = st_jobs a \<and> st_aliases a' = st_aliases a \<and> st_tokens a' = st_tokens a"
  using reliable_stores.run_finished [where run = run, OF assms] unfolding same_but_log_def by blast

lemma ref_scan:
  "scan_lines (''one'' @ newline @ newline @ ''two'') = [''one'', [], ''two'']"
  by (simp add: scan_lines.simps MaxScanTokenSize_def drop_cr_def)

theorem shell_run_is_logged_witness:
  "\<forall>c. \<exists>w' a'. shellCommand_Execute (local_log_writer ref_bolt)
      (\<lambda>cmd args t. Finished (''one'' @ newline @ newline) ''two'' (Some (Foreign ''exit status 1''))) c (zero_job\<lparr>job_ID := 1\<rparr>) ref_world =
      (failing (Foreign ''exit status 1''), w') \<and>
    ref_holds w' a' \<and> log_of (st_logs a') 1 = ([''one'', ''two''], Some ''exit status 1'')"
proof
  fix c
  let ?run = "\<lambda>cmd args t. Finished (''one'' @ newline @ newline) ''two'' (Some (Foreign ''exit status 1''))"
  have l: "log_of (st_logs nothing_stored) (job_ID (zero_job\<lparr>job_ID := 1\<rparr>)) = ([], None)"
    by (simp add: log_of_def nothing_stored_def)
  have s: "scan_lines ((''one'' @ newline @ newline) @ ''two'') = [''one'', [], ''two'']" using ref_scan by simp
  have v: "case Some (Foreign ''exit status 1'') of None \<Rightarrow> True | Some e \<Rightarrow> value_ok (err_text e)"
    by (simp add: value_ok_def)
  have "length (fst (log_of (st_logs nothing_stored) (job_ID (zero_job\<lparr>job_ID := 1\<rparr>)))) +
      length (scan_lines ((''one'' @ newline @ newline) @ ''two'')) < max_lines"
    unfolding l s by (simp add: max_lines_def)
  from shell_run_is_logged [where run = ?run and c = c, OF ref_stores.reliable_stores_axioms ref_world_holds refl this v]
  show "\<exists>w' a'. shellCommand_Execute (local_log_writer ref_bolt) ?run c (zero_job\<lparr>job_ID := 1\<rparr>) ref_world =
      (failing (Foreign ''exit status 1''), w') \<and>
    ref_holds w' a' \<and> log_of (st_logs a') 1 = ([''one'', ''two''], Some ''exit status 1'')"
    unfolding l s by (auto simp: zero_job_def)
qed

end
