(* ===== verification/Pipeline.thy ===== *)
theory Pipeline
  imports Executions "HOL-Library.Multiset"
begin

text \<open>
  The server's side of remote commands (\<^verbatim>\<open>remote/server/command_pipeline.go\<close>, \<^verbatim>\<open>log_writer.go\<close>) and the agent's
  description of its commands (\<^verbatim>\<open>remote/agent/agent_config.go\<close>): the messages of the protocol, the commands an
  agent registers, the table of running jobs with one channel per started job, and what becomes of
  the answers agents send.
\<close>

section \<open>Messages\<close>

record api_help =
  ah_Summary :: string
  ah_Args :: "string list"

record remote_command_msg =
  rc_Timeout :: i64
  rc_AuthStrategy :: string
  rc_AllowedGroups :: "string list"
  rc_ChannelStrategy :: string
  rc_AllowedChannels :: "string list"
  rc_HasHandshake :: bool
  rc_Help :: api_help

record agent_configuration =
  ac_Token :: string
  ac_Commands :: "(string, remote_command_msg) gomap"
  ac_Labels :: "(string, string) gomap"
  ac_AgentID :: string

record command_request =
  cq_Command :: string
  cq_Args :: "string list"
  cq_Username :: string
  cq_UserID :: string
  cq_UserLink :: string
  cq_Channel :: string
  cq_ChannelID :: string
  cq_ChannelLink :: string
  cq_IsIM :: bool
  cq_JobID :: u64

record command_finish =
  cf_AgentID :: string
  cf_JobID :: u64
  cf_Content :: string
  cf_Error :: string

section \<open>The commands of an agent\<close>

text \<open>
  \<open>createRemoteCommands\<close> sends timeouts in nanoseconds and leaves \<open>HasHandshake\<close> at its zero value; the
  server multiplies by \<^verbatim>\<open>time.Second\<close>, modulo 64 bits.
\<close>

definition createRemoteCommands :: "command registry \<Rightarrow> (string, remote_command_msg) gomap" where
  "createRemoteCommands cmds =
     fold (\<lambda>(name, c) m. gomap_update name
       \<lparr>rc_Timeout = cs_GetTimeout (getters c), rc_AuthStrategy = cs_GetAuthStrategy (getters c),
        rc_AllowedGroups = cs_GetAllowedGroups (getters c), rc_ChannelStrategy = cs_GetChannelStrategy (getters c),
        rc_AllowedChannels = cs_GetAllowedChannels (getters c), rc_HasHandshake = False,
        rc_Help = \<lparr>ah_Summary = help_summary (cs_GetHelp (getters c)), ah_Args = help_args (cs_GetHelp (getters c))\<rparr>\<rparr> m)
       (All cmds) []"

definition createAgentConfiguration :: "string \<Rightarrow> (string, string) gomap \<Rightarrow> string \<Rightarrow> command registry \<Rightarrow> agent_configuration" where
  "createAgentConfiguration token labels agentID cmds =
     \<lparr>ac_Token = token, ac_Commands = createRemoteCommands cmds, ac_Labels = labels, ac_AgentID = agentID\<rparr>"

text \<open>Protocol buffers do not distinguish a missing list from an empty one: it arrives as nil.\<close>

definition nil_if_empty :: "string list \<Rightarrow> string list option" where
  "nil_if_empty xs = (if xs = [] then None else Some xs)"

definition remote_opts :: "string \<Rightarrow> remote_command_msg \<Rightarrow> command_opts" where
  "remote_opts name m =
     \<lparr>opt_Cmd = name, opt_Args = None, opt_AllowedGroups = nil_if_empty (rc_AllowedGroups m),
      opt_AuthStrategy = rc_AuthStrategy m, opt_AllowedChannels = nil_if_empty (rc_AllowedChannels m),
      opt_ChannelStrategy = rc_ChannelStrategy m, opt_Handshake = rc_HasHandshake m,
      opt_Timeout = rc_Timeout m * second,
      opt_Help = NewHelp (ah_Summary (rc_Help m)) (ah_Args (rc_Help m))\<rparr>"

definition agent_registrations :: "agent_configuration \<Rightarrow> command CommandRegistration list" where
  "agent_registrations ac =
     map (\<lambda>(name, m). \<lparr>cr_Name = name, cr_Cmd = Some (RemoteCommand (remote_opts name m) (ac_AgentID ac))\<rparr>) (ac_Commands ac)"

definition registerAgent :: "agent_configuration \<Rightarrow> command registry \<Rightarrow> err option \<times> command registry" where
  "registerAgent ac cmds =
     (case Register \<lparr>ra_Kind = KindRemoteCommand, ra_Action = ActionRegister, ra_Commands = agent_registrations ac\<rparr> cmds of
        (Some e, cmds') \<Rightarrow> (Some (wrap_err ''failed to register remote commands: '' e), cmds')
      | (None, cmds') \<Rightarrow> (None, cmds'))"

text \<open>An error of the removal is only logged.\<close>

definition deRegisterAgentCommands :: "agent_configuration \<Rightarrow> command registry \<Rightarrow> command registry" where
  "deRegisterAgentCommands ac cmds =
     snd (Register \<lparr>ra_Kind = KindRemoteCommand, ra_Action = ActionUnregister, ra_Commands = agent_registrations ac\<rparr> cmds)"

section \<open>Running jobs\<close>

text \<open>
  Channels are numbered as they are made and unbuffered. An \<open>Execute\<close> first sends its request to the agent
  (\<open>Sending\<close>), then waits for the answer or the end of its context (\<open>Waiting\<close>), and is \<open>Gone\<close> once it has either.
  \<open>pl_jobs\<close> are the jobs that the \<open>Execute\<close>s run that made the channels.
  \<open>pl_sends\<close> are the answers whose sender waits for a receiver on the channel of the job; an answer is
  received by meeting an \<open>Execute\<close> that waits.
\<close>

record finished_job =
  fj_agentID :: string
  fj_jobID :: u64
  fj_content :: string
  fj_err :: string

definition finished_getError :: "finished_job \<Rightarrow> err option" where
  "finished_getError f = (if fj_err f \<noteq> [] then Some (Errorf (fj_err f)) else None)"

datatype receiver = Sending | Waiting | Gone

record pipeline =
  pl_runningJobs :: "(u64, nat) gomap"
  pl_receivers :: "receiver list"
  pl_jobs :: "u64 list"
  pl_sends :: "(nat \<times> finished_job) list"
  pl_received :: "(nat \<times> finished_job) list"

definition newCommandPipelineServer :: pipeline where
  "newCommandPipelineServer = \<lparr>pl_runningJobs = [], pl_receivers = [], pl_jobs = [], pl_sends = [], pl_received = []\<rparr>"

text \<open>\<open>StartJob\<close> makes the channel of the number given back.\<close>

definition StartJob :: "command_request \<Rightarrow> pipeline \<Rightarrow> nat \<times> pipeline" where
  "StartJob req p =
     (let c = length (pl_receivers p)
      in (c, p\<lparr>pl_runningJobs := gomap_update (cq_JobID req) c (pl_runningJobs p),
               pl_receivers := pl_receivers p @ [Sending], pl_jobs := pl_jobs p @ [cq_JobID req]\<rparr>))"

definition PopJob :: "u64 \<Rightarrow> pipeline \<Rightarrow> nat result \<times> pipeline" where
  "PopJob jobID p =
     (case map_of (pl_runningJobs p) jobID of
        None \<Rightarrow> (Fails (Errorf (''could not find job with ID '' @ show_u64 jobID @ '' in the running jobs list'')), p)
      | Some c \<Rightarrow> (Returns c, p\<lparr>pl_runningJobs := gomap_delete jobID (pl_runningJobs p)\<rparr>))"

text \<open>\<open>finishJob\<close> up to its send, over the pipeline and the world of the log writer.\<close>

definition finishJob :: "'w log_writer \<Rightarrow> finished_job \<Rightarrow> pipeline \<Rightarrow> 'w \<Rightarrow> err option \<times> pipeline \<times> 'w" where
  "finishJob logW f p w =
     (case PopJob (fj_jobID f) p of
        (Inl e, p') \<Rightarrow> (Some (wrap_err ''could not fetch command finish channel: '' e), p', w)
      | (Inr c, p') \<Rightarrow>
          (let w' = (if finished_getError f \<noteq> None then snd (lw_SetError logW (fj_jobID f) (finished_getError f) w) else w)
           in (None, p'\<lparr>pl_sends := pl_sends p' @ [(c, f)]\<rparr>, w')))"

definition Finish :: "'w log_writer \<Rightarrow> command_finish \<Rightarrow> pipeline \<Rightarrow> 'w \<Rightarrow> err option \<times> pipeline \<times> 'w" where
  "Finish logW fin =
     finishJob logW \<lparr>fj_agentID = cf_AgentID fin, fj_jobID = cf_JobID fin, fj_content = cf_Content fin, fj_err = cf_Error fin\<rparr>"

text \<open>The request \<open>Execute\<close> sends, and what it returns: the answer, or the error of its context.\<close>

definition remote_request :: "job \<Rightarrow> command_request" where
  "remote_request j =
     (let req = job_Request j
      in \<lparr>cq_Command = req_Command req, cq_Args = req_Args req, cq_Username = req_Username req,
          cq_UserID = req_UserID req, cq_UserLink = req_UserLink req, cq_Channel = req_Channel req,
          cq_ChannelID = req_ChannelID req, cq_ChannelLink = req_ChannelLink req, cq_IsIM = req_IsIM req,
          cq_JobID = job_ID j\<rparr>)"

datatype remote_end = Answered finished_job | ContextDone err

fun remoteCommand_Execute :: "remote_end \<Rightarrow> outcome" where
  "remoteCommand_Execute (Answered f) = (fj_content f, finished_getError f)"
| "remoteCommand_Execute (ContextDone e) = failing (wrap_err ''command failed because of context done: '' e)"

section \<open>Steps of the pipeline\<close>

text \<open>
  A job starts, its request is taken by the loop of its agent, the context of a waiting \<open>Execute\<close> ends, an
  agent sends an answer, and a waiting \<open>Execute\<close> meets an answer for its channel.
\<close>

datatype pipeline_event =
  JobStarted command_request | RequestTaken nat | GaveUp nat | Finishing finished_job | Met nat finished_job

inductive pipeline_step :: "'w log_writer \<Rightarrow> pipeline \<times> 'w \<Rightarrow> pipeline_event \<Rightarrow> pipeline \<times> 'w \<Rightarrow> bool" for logW where
  job_started: "pipeline_step logW (p, w) (JobStarted req) (snd (StartJob req p), w)"
| request_taken: "c < length (pl_receivers p) \<Longrightarrow> pl_receivers p ! c = Sending \<Longrightarrow>
    pipeline_step logW (p, w) (RequestTaken c) (p\<lparr>pl_receivers := (pl_receivers p)[c := Waiting]\<rparr>, w)"
| gave_up: "c < length (pl_receivers p) \<Longrightarrow> pl_receivers p ! c = Waiting \<Longrightarrow>
    pipeline_step logW (p, w) (GaveUp c) (p\<lparr>pl_receivers := (pl_receivers p)[c := Gone]\<rparr>, w)"
| finishing: "finishJob logW f p w = (e, p', w') \<Longrightarrow> pipeline_step logW (p, w) (Finishing f) (p', w')"
| met: "c < length (pl_receivers p) \<Longrightarrow> pl_receivers p ! c = Waiting \<Longrightarrow> (c, f) \<in> set (pl_sends p) \<Longrightarrow>
    pipeline_step logW (p, w) (Met c f)
      (p\<lparr>pl_receivers := (pl_receivers p)[c := Gone], pl_sends := remove1 (c, f) (pl_sends p),
         pl_received := pl_received p @ [(c, f)]\<rparr>, w)"

inductive pipeline_reaches :: "'w log_writer \<Rightarrow> pipeline \<times> 'w \<Rightarrow> pipeline \<times> 'w \<Rightarrow> bool" for logW s where
  here: "pipeline_reaches logW s s"
| next_step: "pipeline_reaches logW s s' \<Longrightarrow> pipeline_step logW s' ev s'' \<Longrightarrow> pipeline_reaches logW s s''"

inductive_cases pipeline_stepE: "pipeline_step logW s ev s'"

section \<open>The loop of an agent\<close>

text \<open>
  \<open>RegisterAgent\<close> runs two goroutines on the pipe of an agent: one sends the requests from the pipe to the
  agent until a send fails or the pipe is closed, the other closes the pipe when the context of the
  stream is done. Closing a closed channel panics. When the agent is gone, the first one answers the request
  itself, and its answer waits for a receiver as any other does: \<open>ln_finishing\<close> is the answer it waits with.
\<close>

record agent_link =
  ln_closed :: bool
  ln_sending :: bool
  ln_watching :: bool
  ln_finishing :: "(nat \<times> finished_job) option"

datatype send_result = SendOK | SendEOF | SendCancelled | SendFailed

definition open_link :: agent_link where
  "open_link = \<lparr>ln_closed = False, ln_sending = True, ln_watching = True, ln_finishing = None\<rparr>"

definition close_pipe :: "agent_link \<Rightarrow> agent_link run" where
  "close_pipe l = (if ln_closed l then Panic ''close of closed channel'' else Ret (l\<lparr>ln_closed := True\<rparr>))"

definition link_context_done :: "agent_link \<Rightarrow> agent_link run" where
  "link_context_done l = close_pipe (l\<lparr>ln_watching := False\<rparr>)"

text \<open>Leaving the loop after a failed send; after the loop the commands are unregistered.\<close>

definition link_quit :: "agent_configuration \<Rightarrow> agent_link \<Rightarrow> command registry \<Rightarrow> (agent_link \<times> command registry) run" where
  "link_quit ac l cmds =
     (case close_pipe l of
        Panic m \<Rightarrow> Panic m
      | Ret l' \<Rightarrow> Ret (l'\<lparr>ln_sending := False, ln_finishing := None\<rparr>, deRegisterAgentCommands ac cmds))"

definition gone_answer :: "agent_configuration \<Rightarrow> command_request \<Rightarrow> finished_job" where
  "gone_answer ac req =
     \<lparr>fj_agentID = ac_AgentID ac, fj_jobID = cq_JobID req, fj_content = [],
      fj_err = ''remote agent '' @ ac_AgentID ac @ '' erred out with EOF, it seems to be gone''\<rparr>"

text \<open>One request taken from the pipe and sent with a result. \<open>finishJob\<close> returns at once when it has no channel.\<close>

definition link_send :: "'w log_writer \<Rightarrow> agent_configuration \<Rightarrow> command_request \<Rightarrow> send_result \<Rightarrow> agent_link \<Rightarrow>
    pipeline \<times> 'w \<times> command registry \<Rightarrow> (agent_link \<times> pipeline \<times> 'w \<times> command registry) run" where
  "link_send logW ac req r l s =
     (case s of (p, w, cmds) \<Rightarrow>
        (let quit = (\<lambda>p w. case link_quit ac l cmds of
                 Panic m \<Rightarrow> Panic m
               | Ret (l', cmds') \<Rightarrow> Ret (l', p, w, cmds'))
         in case r of
              SendOK \<Rightarrow> Ret (l, p, w, cmds)
            | SendEOF \<Rightarrow>
                (case finishJob logW (gone_answer ac req) p w of
                   (Some e, p', w') \<Rightarrow> quit p' w'
                 | (None, p', w') \<Rightarrow> Ret (l\<lparr>ln_finishing := Some (last (pl_sends p'))\<rparr>, p', w', cmds))
            | SendCancelled \<Rightarrow> quit p w
            | SendFailed \<Rightarrow> quit p w))"

text \<open>The loop goes on once its answer has been received; until then it stays.\<close>

definition link_finished :: "agent_configuration \<Rightarrow> pipeline \<Rightarrow> agent_link \<Rightarrow> command registry \<Rightarrow>
    (agent_link \<times> command registry) run" where
  "link_finished ac p l cmds =
     (case ln_finishing l of
        None \<Rightarrow> Ret (l, cmds)
      | Some x \<Rightarrow> if x \<in> set (pl_sends p) then Ret (l, cmds) else link_quit ac l cmds)"

text \<open>The loop ends without a failure once the pipe is closed.\<close>

definition link_drained :: "agent_configuration \<Rightarrow> agent_link \<Rightarrow> command registry \<Rightarrow> agent_link \<times> command registry" where
  "link_drained ac l cmds =
     (if ln_closed l \<and> ln_finishing l = None then (l\<lparr>ln_sending := False\<rparr>, deRegisterAgentCommands ac cmds) else (l, cmds))"

section \<open>The log writer server\<close>

text \<open>What the server receives from the stream: an entry, or an end.\<close>

datatype log_received = LogEntry u64 string | LogEOF | LogStopped

fun logWriterServer_Append :: "'w log_writer \<Rightarrow> log_received \<Rightarrow> 'w \<Rightarrow> 'w" where
  "logWriterServer_Append logW (LogEntry jobID line) w = snd (lw_Append logW jobID line w)"
| "logWriterServer_Append logW LogEOF w = w"
| "logWriterServer_Append logW LogStopped w = w"

definition logWriterServer_SetError :: "'w log_writer \<Rightarrow> u64 \<Rightarrow> string \<Rightarrow> 'w \<Rightarrow> unit result \<times> 'w" where
  "logWriterServer_SetError logW jobID e = lw_SetError logW jobID (Some (Errorf e))"

section \<open>Answers\<close>

text \<open>The channels on which an answer waits or was received.\<close>

definition answered :: "pipeline \<Rightarrow> nat list" where
  "answered p = map fst (pl_sends p) @ map fst (pl_received p)"

definition pipeline_ok :: "pipeline \<Rightarrow> bool" where
  "pipeline_ok p \<longleftrightarrow>
     ran (map_of (pl_runningJobs p)) \<subseteq> {..<length (pl_receivers p)} \<and>
     inj_on (map_of (pl_runningJobs p)) (dom (map_of (pl_runningJobs p))) \<and>
     distinct (answered p) \<and>
     set (answered p) \<subseteq> {..<length (pl_receivers p)} - ran (map_of (pl_runningJobs p)) \<and>
     (\<forall>c \<in> fst ` set (pl_received p). pl_receivers p ! c = Gone)"

text \<open>Each channel belongs to one job: the table and the answers keep to it.\<close>

definition own_channels :: "pipeline \<Rightarrow> bool" where
  "own_channels p \<longleftrightarrow>
     length (pl_jobs p) = length (pl_receivers p) \<and>
     (\<forall>i c. map_of (pl_runningJobs p) i = Some c \<longrightarrow> c < length (pl_jobs p) \<and> pl_jobs p ! c = i) \<and>
     (\<forall>c f. (c, f) \<in> set (pl_sends p @ pl_received p) \<longrightarrow> c < length (pl_jobs p) \<and> pl_jobs p ! c = fj_jobID f)"

lemma own_channels_new: "own_channels newCommandPipelineServer"
  by (simp add: own_channels_def newCommandPipelineServer_def)

lemma finishJob_own:
  assumes "own_channels p" and "finishJob logW f p w = (e, p', w')"
  shows "own_channels p'"
  using assms by (auto simp: own_channels_def finishJob_def PopJob_def Let_def split: option.splits if_splits)

lemma pipeline_step_own:
  assumes "pipeline_step logW (p, w) ev (p', w')" and "own_channels p"
  shows "own_channels p'"
  using assms(1)
proof cases
  case (job_started req)
  with assms(2) show ?thesis by (fastforce simp: own_channels_def StartJob_def Let_def nth_append less_Suc_eq split: if_splits)
next
  case (finishing f e)
  from finishing(2) show ?thesis by (rule finishJob_own [OF assms(2)])
next
  case (met c f)
  with assms(2) show ?thesis by (auto simp: own_channels_def dest!: set_remove1_subset [THEN subsetD])
qed (use assms(2) in \<open>auto simp: own_channels_def\<close>)

lemma pipeline_reaches_own: "pipeline_reaches logW s s' \<Longrightarrow> own_channels (fst s) \<Longrightarrow> own_channels (fst s')"
  by (induction rule: pipeline_reaches.induct) (metis pipeline_step_own prod.collapse)+

lemma pipeline_ok_new: "pipeline_ok newCommandPipelineServer"
  by (simp add: pipeline_ok_def answered_def newCommandPipelineServer_def)

lemma ran_upd_subset: "ran (m(k \<mapsto> v)) \<subseteq> insert v (ran m)" "ran (m(k := None)) \<subseteq> ran m"
  by (auto simp: ran_def split: if_splits)

lemma inj_map_upd:
  "inj_on m (dom m) \<Longrightarrow> v \<notin> ran m \<Longrightarrow> inj_on (m(k \<mapsto> v)) (dom (m(k \<mapsto> v)))"
  "inj_on m (dom m) \<Longrightarrow> inj_on (m(k := None)) (dom (m(k := None)))"
  "inj_on m (dom m) \<Longrightarrow> m k = Some v \<Longrightarrow> v \<notin> ran (m(k := None))"
  by (fastforce simp: inj_on_def ran_def dom_def split: if_splits)+

lemma StartJob_ok:
  assumes "pipeline_ok p"
  shows "pipeline_ok (snd (StartJob req p))"
proof -
  let ?c = "length (pl_receivers p)" and ?m = "map_of (pl_runningJobs p)"
  have rc: "fst ` set (pl_received p) \<subseteq> set (answered p)" by (auto simp: answered_def)
  have new: "?c \<notin> ran ?m" "?c \<notin> set (answered p)" using assms by (auto simp: pipeline_ok_def)
  have "\<forall>c \<in> fst ` set (pl_received p). (pl_receivers p @ [Sending]) ! c = Gone"
  proof
    fix c assume c: "c \<in> fst ` set (pl_received p)"
    then have "c < ?c" "pl_receivers p ! c = Gone" using assms rc by (auto simp: pipeline_ok_def)
    then show "(pl_receivers p @ [Sending]) ! c = Gone" by (simp add: nth_append)
  qed
  moreover have "ran (?m(cq_JobID req \<mapsto> ?c)) \<subseteq> {..<Suc ?c}"
    "set (answered p) \<subseteq> {..<Suc ?c} - ran (?m(cq_JobID req \<mapsto> ?c))"
    using assms new ran_upd_subset(1) [of ?m "cq_JobID req" ?c] by (fastforce simp: pipeline_ok_def)+
  moreover have "inj_on (?m(cq_JobID req \<mapsto> ?c)) (dom (?m(cq_JobID req \<mapsto> ?c)))"
    using assms new by (intro inj_map_upd) (simp_all add: pipeline_ok_def)
  moreover have "answered (snd (StartJob req p)) = answered p" by (simp add: answered_def StartJob_def Let_def)
  moreover have "distinct (answered p)" using assms by (simp add: pipeline_ok_def)
  ultimately show ?thesis
    unfolding pipeline_ok_def [of "snd (StartJob req p)"] by (simp add: StartJob_def Let_def del: fun_upd_apply)
qed

lemma finishJob_ok:
  assumes "pipeline_ok p" and "finishJob logW f p w = (e, p', w')"
  shows "pipeline_ok p'"
proof (cases "map_of (pl_runningJobs p) (fj_jobID f)")
  case None
  with assms show ?thesis by (simp add: finishJob_def PopJob_def)
next
  case (Some c)
  let ?m = "map_of (pl_runningJobs p)"
  from Some assms(2) have p': "p' = p\<lparr>pl_runningJobs := gomap_delete (fj_jobID f) (pl_runningJobs p), pl_sends := pl_sends p @ [(c, f)]\<rparr>"
    by (auto simp: finishJob_def PopJob_def Let_def)
  have "c \<in> ran ?m" using Some by (rule ranI)
  with assms(1) have "c \<notin> set (answered p)" "c < length (pl_receivers p)" by (auto simp: pipeline_ok_def)
  moreover have "set (answered p') = insert c (set (answered p))" "distinct (answered p') \<longleftrightarrow> c \<notin> set (answered p) \<and> distinct (answered p)"
    by (auto simp: p' answered_def)
  moreover have inj: "inj_on ?m (dom ?m)" using assms(1) by (simp add: pipeline_ok_def)
  moreover note inj_map_upd(2) [OF inj, of "fj_jobID f"] inj_map_upd(3) [OF inj Some]
  moreover note ran_upd_subset(2) [of ?m "fj_jobID f"]
  ultimately show ?thesis
    using assms(1) unfolding pipeline_ok_def [of p'] by (auto simp: p' pipeline_ok_def simp del: fun_upd_apply)
qed

lemma receivers_upd_ok:
  assumes "pipeline_ok p" and "pl_receivers p ! c \<noteq> Gone"
  shows "pipeline_ok (p\<lparr>pl_receivers := (pl_receivers p)[c := r]\<rparr>)"
proof -
  have "c \<notin> fst ` set (pl_received p)" using assms by (auto simp: pipeline_ok_def)
  then have "\<forall>d \<in> fst ` set (pl_received p). (pl_receivers p)[c := r] ! d = Gone"
    using assms(1) by (metis nth_list_update_neq pipeline_ok_def)
  with assms(1) show ?thesis by (simp add: pipeline_ok_def answered_def)
qed

lemma met_ok:
  assumes "pipeline_ok p" and "c < length (pl_receivers p)" and "(c, f) \<in> set (pl_sends p)"
  shows "pipeline_ok (p\<lparr>pl_receivers := (pl_receivers p)[c := Gone], pl_sends := remove1 (c, f) (pl_sends p),
    pl_received := pl_received p @ [(c, f)]\<rparr>)"
proof -
  let ?p = "p\<lparr>pl_receivers := (pl_receivers p)[c := Gone], pl_sends := remove1 (c, f) (pl_sends p),
    pl_received := pl_received p @ [(c, f)]\<rparr>"
  have d: "distinct (answered p)" using assms(1) by (simp add: pipeline_ok_def)
  have "mset (answered ?p) = mset (answered p)"
  proof -
    have "c \<in># image_mset fst (mset (pl_sends p))" using assms(3) by force
    then show ?thesis using assms(3) by (simp add: answered_def image_mset_Diff)
  qed
  then have "distinct (answered ?p)" "set (answered ?p) = set (answered p)"
    using d by (metis mset_eq_imp_distinct_iff, metis mset_eq_setD)
  moreover have "\<forall>d \<in> fst ` set (pl_received ?p). pl_receivers ?p ! d = Gone"
    using assms(1,2) by (auto simp: pipeline_ok_def nth_list_update)
  ultimately show ?thesis using assms(1) by (simp add: pipeline_ok_def)
qed

lemma pipeline_step_ok:
  assumes "pipeline_step logW (p, w) ev (p', w')" and "pipeline_ok p"
  shows "pipeline_ok p'"
  using assms
proof cases
  case (job_started req)
  then show ?thesis using StartJob_ok [OF assms(2)] by simp
next
  case (finishing f e)
  from finishing(2) show ?thesis by (rule finishJob_ok [OF assms(2)])
next
  case (met c f)
  then show ?thesis using met_ok [OF assms(2)] by simp
qed (use receivers_upd_ok [OF assms(2)] in auto)

lemma pipeline_reaches_ok: "pipeline_reaches logW s s' \<Longrightarrow> pipeline_ok (fst s) \<Longrightarrow> pipeline_ok (fst s')"
  by (induction rule: pipeline_reaches.induct) (metis pipeline_step_ok prod.collapse)+

text \<open>An answer whose \<open>Execute\<close> is gone stays where it is.\<close>

lemma blocked_step:
  assumes "pipeline_step logW (p, w) ev (p', w')"
    and "c < length (pl_receivers p)" and "pl_receivers p ! c = Gone" and "(c, f) \<in> set (pl_sends p)"
  shows "c < length (pl_receivers p') \<and> pl_receivers p' ! c = Gone \<and> (c, f) \<in> set (pl_sends p')"
  using assms
proof cases
  case (finishing g e)
  with assms(2-4) show ?thesis
    by (auto simp: finishJob_def PopJob_def Let_def split: prod.splits sum.splits option.splits if_splits)
next
  case (met d g)
  then have "d \<noteq> c" using assms(3) by auto
  with met assms(2-4) show ?thesis by (auto simp: nth_list_update in_set_remove1)
qed (use assms(2-4) in \<open>auto simp: StartJob_def Let_def nth_append nth_list_update split: if_splits\<close>)

lemma blocked_forever:
  "pipeline_reaches logW s s' \<Longrightarrow> c < length (pl_receivers (fst s)) \<Longrightarrow> pl_receivers (fst s) ! c = Gone \<Longrightarrow>
   (c, f) \<in> set (pl_sends (fst s)) \<Longrightarrow>
   c < length (pl_receivers (fst s')) \<and> pl_receivers (fst s') ! c = Gone \<and> (c, f) \<in> set (pl_sends (fst s'))"
proof (induction rule: pipeline_reaches.induct)
  case (next_step s' ev s'')
  then show ?case by (metis blocked_step prod.collapse)
qed simp

section \<open>Registered commands\<close>

lemma map_of_All: "gomap_ok cmds \<Longrightarrow> map_of (All cmds) n = map_option hub_cmd (map_of cmds n)"
proof -
  assume ok: "gomap_ok cmds"
  have "All cmds = fold (\<lambda>x m. gomap_update (fst x) (hub_cmd (snd x)) m) cmds []"
    by (simp add: All_def case_prod_unfold)
  then have "map_of (All cmds) n = map_of (rev (map (\<lambda>x. (fst x, hub_cmd (snd x))) cmds)) n"
    by (simp add: fold_update_conv split: option.split)
  also have "\<dots> = map_of (map (\<lambda>x. (fst x, hub_cmd (snd x))) cmds) n"
    using ok by (simp add: map_of_rev_distinct comp_def)
  also have "\<dots> = map_option hub_cmd (map_of cmds n)"
    by (simp add: map_of_map [unfolded case_prod_unfold])
  finally show ?thesis .
qed

lemma All_distinct: "gomap_ok (All cmds)"
  unfolding All_def case_prod_unfold by (rule fold_update_distinct) simp

lemma strategies_nonempty: "cs_GetAuthStrategy (getters c) \<noteq> []" "cs_GetChannelStrategy (getters c) \<noteq> []"
proof -
  have "cs_GetAuthStrategy (builtin_struct b) \<noteq> [] \<and> cs_GetChannelStrategy (builtin_struct b) \<noteq> []" for b
    by (cases b) (simp_all add: cmd_simps strategy_names)
  then show "cs_GetAuthStrategy (getters c) \<noteq> []" "cs_GetChannelStrategy (getters c) \<noteq> []"
    by (cases c; simp add: opts_struct_def cmd_simps)+
qed

definition remote_msg :: "command \<Rightarrow> remote_command_msg" where
  "remote_msg c =
     \<lparr>rc_Timeout = cs_GetTimeout (getters c), rc_AuthStrategy = cs_GetAuthStrategy (getters c),
      rc_AllowedGroups = cs_GetAllowedGroups (getters c), rc_ChannelStrategy = cs_GetChannelStrategy (getters c),
      rc_AllowedChannels = cs_GetAllowedChannels (getters c), rc_HasHandshake = False,
      rc_Help = \<lparr>ah_Summary = help_summary (cs_GetHelp (getters c)), ah_Args = help_args (cs_GetHelp (getters c))\<rparr>\<rparr>"

lemma createRemoteCommands_fold:
  "createRemoteCommands cmds = fold (\<lambda>x m. gomap_update (fst x) (remote_msg (snd x)) m) (All cmds) []"
  by (simp add: createRemoteCommands_def remote_msg_def case_prod_unfold)

lemma map_of_createRemoteCommands:
  assumes "gomap_ok cmds"
  shows "map_of (createRemoteCommands cmds) n = map_option (\<lambda>h. remote_msg (hub_cmd h)) (map_of cmds n)"
proof -
  have "map_of (createRemoteCommands cmds) n =
      map_of (rev (map (\<lambda>x. (fst x, remote_msg (snd x))) (All cmds))) n"
    by (simp add: createRemoteCommands_fold fold_update_conv split: option.split)
  also have "\<dots> = map_of (map (\<lambda>x. (fst x, remote_msg (snd x))) (All cmds)) n"
    using All_distinct [of cmds] by (simp add: map_of_rev_distinct comp_def)
  also have "\<dots> = map_option remote_msg (map_of (All cmds) n)"
    by (simp add: map_of_map [unfolded case_prod_unfold])
  finally show ?thesis by (simp add: map_of_All [OF assms] option.map_comp comp_def)
qed

lemma createRemoteCommands_distinct: "gomap_ok (createRemoteCommands cmds)"
  unfolding createRemoteCommands_fold by (rule fold_update_distinct) simp

lemma remote_authorization:
  "authorization_of (RemoteCommand (remote_opts n (remote_msg c)) agentID) = authorization_of c"
  using strategies_nonempty [of c]
  by (auto simp: authorization_of_def opts_struct_def remote_opts_def remote_msg_def nil_if_empty_def cmd_simps)

section \<open>Properties\<close>

text \<open>
  C29: a remote agent cannot change who may run a command, but it loses two settings. When an agent registers,
  every command of its registry is found on the server under its name as a command of this agent with
  the same strategies, groups and channels; but its handshake is off, and its timeout, sent in
  nanoseconds and read as seconds, is multiplied by a thousand million modulo 64 bits.
\<close>

theorem agent_commands_registered:
  assumes "registry_ok acmds" and "map_of acmds name = Some h"
    and "registerAgent (createAgentConfiguration token labels agentID acmds) cmds = (None, cmds')"
  shows "\<exists>c. map_of cmds' name = Some \<lparr>hub_kind = KindRemoteCommand, hub_cmd = c\<rparr> \<and>
    authorization_of c = authorization_of (hub_cmd h) \<and> cs_HasHandshake (getters c) = False \<and>
    cs_GetHelp (getters c) = cs_GetHelp (getters (hub_cmd h)) \<and>
    (cs_GetTimeout (getters (hub_cmd h)) * second \<noteq> 0 \<longrightarrow>
      cs_GetTimeout (getters c) = cs_GetTimeout (getters (hub_cmd h)) * second)"
proof -
  let ?ac = "createAgentConfiguration token labels agentID acmds"
  let ?r = "\<lparr>ra_Kind = KindRemoteCommand, ra_Action = ActionRegister, ra_Commands = agent_registrations ?ac\<rparr>"
  let ?c = "RemoteCommand (remote_opts name (remote_msg (hub_cmd h))) agentID"
  have reg: "Register ?r cmds = (None, cmds')"
    using assms(3) by (auto simp: registerAgent_def split: prod.splits option.splits)
  have m: "map_of (createRemoteCommands acmds) name = Some (remote_msg (hub_cmd h))"
    using assms(1,2) by (simp add: map_of_createRemoteCommands registry_ok_def)
  have only: "cr_Cmd cr = Some ?c" if "cr \<in> set (agent_registrations ?ac)" "cr_Name cr = name" for cr
    using that map_of_SomeD [OF m] eq_key_imp_eq_value [OF createRemoteCommands_distinct]
    by (fastforce simp: agent_registrations_def createAgentConfiguration_def)
  have "name \<in> cr_Name ` set (agent_registrations ?ac)"
    using map_of_SomeD [OF m] by (force simp: agent_registrations_def createAgentConfiguration_def)
  then obtain hub where hub: "new_hubs ?r name = Some hub" using new_hubs_None [of ?r name] by auto
  from new_hubs_Some [OF hub] only have "hub = \<lparr>hub_kind = KindRemoteCommand, hub_cmd = ?c\<rparr>"
    by (cases hub) auto
  with hub have "map_of cmds' name = Some \<lparr>hub_kind = KindRemoteCommand, hub_cmd = ?c\<rparr>"
    by (simp add: Register_remote(1) [OF reg] map_add_def)
  moreover have "cs_HasHandshake (getters ?c) = False" "cs_GetHelp (getters ?c) = cs_GetHelp (getters (hub_cmd h))"
    "cs_GetTimeout (getters (hub_cmd h)) * second \<noteq> 0 \<longrightarrow>
      cs_GetTimeout (getters ?c) = cs_GetTimeout (getters (hub_cmd h)) * second"
    by (simp_all add: opts_struct_def remote_opts_def remote_msg_def cmd_simps NewHelp_def)
  ultimately show ?thesis using remote_authorization by blast
qed

definition deploy_opts :: command_opts where
  "deploy_opts = \<lparr>opt_Cmd = ''/bin/deploy'', opt_Args = None, opt_AllowedGroups = Some [''ops''], opt_AuthStrategy = ''group'',
     opt_AllowedChannels = None, opt_ChannelStrategy = [], opt_Handshake = True, opt_Timeout = 10 * second,
     opt_Help = NewHelp ''deploys'' []\<rparr>"

definition agent_registry :: "command registry" where
  "agent_registry = [(''deploy'', \<lparr>hub_kind = KindLocalCommand, hub_cmd = ShellCommand deploy_opts\<rparr>)]"

lemma agent_registry_ok: "registry_ok agent_registry"
  by (simp add: registry_ok_def agent_registry_def trim_space_id edge_byte_def)

theorem agent_commands_registered_witness:
  "\<exists>cmds' c. registerAgent (createAgentConfiguration [] [] ''agent'' agent_registry) [] = (None, cmds') \<and>
    map_of cmds' ''deploy'' = Some \<lparr>hub_kind = KindRemoteCommand, hub_cmd = c\<rparr> \<and>
    authorization_of c = authorization_of (ShellCommand deploy_opts) \<and>
    sint (cs_GetTimeout (getters c)) = - 8446744073709551616"
proof -
  have m: "map_of agent_registry ''deploy'' = Some \<lparr>hub_kind = KindLocalCommand, hub_cmd = ShellCommand deploy_opts\<rparr>"
    by (simp add: agent_registry_def)
  let ?ac = "createAgentConfiguration [] [] ''agent'' agent_registry"
  have "registration_validate [] \<lparr>ra_Kind = KindRemoteCommand, ra_Action = ActionRegister, ra_Commands = agent_registrations ?ac\<rparr> = None"
    by (simp add: registration_validate_None valid_registration_def agent_registrations_def createAgentConfiguration_def
        createRemoteCommands_def All_def agent_registry_def trim_space_id edge_byte_def)
  then obtain cmds' where r: "registerAgent ?ac [] = (None, cmds')"
    by (auto simp: registerAgent_def Register_def)
  from agent_commands_registered [OF agent_registry_ok m r] obtain c where
    c: "map_of cmds' ''deploy'' = Some \<lparr>hub_kind = KindRemoteCommand, hub_cmd = c\<rparr>"
    "authorization_of c = authorization_of (ShellCommand deploy_opts)"
    "cs_GetTimeout (getters (ShellCommand deploy_opts)) * second \<noteq> 0 \<longrightarrow>
      cs_GetTimeout (getters c) = cs_GetTimeout (getters (ShellCommand deploy_opts)) * second" by auto
  have "cs_GetTimeout (getters (ShellCommand deploy_opts)) = 10 * second"
    by (simp add: opts_struct_def cmd_simps deploy_opts_def second_def)
  moreover have "10 * second * second \<noteq> 0" "sint (10 * second * second) = - 8446744073709551616"
    by (simp_all add: second_def)
  ultimately have "sint (cs_GetTimeout (getters c)) = - 8446744073709551616" using c(3) by simp
  with r c(1,2) show ?thesis by blast
qed

text \<open>
  C30: in every state the pipeline can reach, a channel has at most one answer, waiting or received, and that answer
  is of the very job whose \<open>Execute\<close> made the channel; it is received by nobody else, since that \<open>Execute\<close> is
  then over. The table leads each job to a channel of its own that has no answer yet.
\<close>

theorem one_answer_per_job:
  assumes "pipeline_reaches logW (newCommandPipelineServer, w) (p, w')"
  shows "distinct (map fst (pl_sends p @ pl_received p)) \<and>
    (\<forall>c f. (c, f) \<in> set (pl_sends p @ pl_received p) \<longrightarrow> c < length (pl_jobs p) \<and> pl_jobs p ! c = fj_jobID f) \<and>
    (\<forall>c \<in> fst ` set (pl_received p). pl_receivers p ! c = Gone) \<and>
    (\<forall>i c. map_of (pl_runningJobs p) i = Some c \<longrightarrow> c < length (pl_jobs p) \<and> pl_jobs p ! c = i) \<and>
    inj_on (map_of (pl_runningJobs p)) (dom (map_of (pl_runningJobs p))) \<and>
    fst ` set (pl_sends p @ pl_received p) \<inter> ran (map_of (pl_runningJobs p)) = {}"
proof -
  have ok: "pipeline_ok p" using pipeline_reaches_ok [OF assms] pipeline_ok_new by simp
  have "own_channels p" using pipeline_reaches_own [OF assms] own_channels_new by simp
  then have "\<forall>(c, f) \<in> set (pl_sends p @ pl_received p). c < length (pl_jobs p) \<and> pl_jobs p ! c = fj_jobID f"
    "\<forall>i c. map_of (pl_runningJobs p) i = Some c \<longrightarrow> c < length (pl_jobs p) \<and> pl_jobs p ! c = i"
    unfolding own_channels_def by blast+
  with ok show ?thesis unfolding pipeline_ok_def answered_def by (auto simp only: map_append set_append image_Un set_map)
qed

text \<open>
  C31: an agent that answers after the context of the job has ended is never released. Once \<open>Execute\<close> has given
  up, the answer for its channel waits in every later state: the call of \<open>Finish\<close> does not return.
\<close>

theorem late_answer_blocks_forever:
  assumes "pipeline_reaches logW (newCommandPipelineServer, w) (p, w1)" and "(c, f) \<in> set (pl_sends p)"
    and "pl_receivers p ! c = Gone" and "pipeline_reaches logW (p, w1) (p', w2)"
  shows "(c, f) \<in> set (pl_sends p') \<and> pl_receivers p' ! c = Gone"
proof -
  have "pipeline_ok p" using pipeline_reaches_ok [OF assms(1)] pipeline_ok_new by simp
  then have "c < length (pl_receivers p)" using assms(2) by (force simp: pipeline_ok_def answered_def)
  with blocked_forever [OF assms(4), of c f] assms(2,3) show ?thesis by simp
qed

definition ref_request :: "u64 \<Rightarrow> command_request" where
  "ref_request i = remote_request (zero_job\<lparr>job_ID := i\<rparr>)"

definition ref_finished :: "u64 \<Rightarrow> finished_job" where
  "ref_finished i = \<lparr>fj_agentID = ''agent'', fj_jobID = i, fj_content = ''done'', fj_err = []\<rparr>"

text \<open>A job whose \<open>Execute\<close> has given up, before and after its late answer.\<close>

definition gone_pipeline :: pipeline where
  "gone_pipeline = \<lparr>pl_runningJobs = [(1, 0)], pl_receivers = [Gone], pl_jobs = [1], pl_sends = [], pl_received = []\<rparr>"

definition late_pipeline :: pipeline where
  "late_pipeline =
     \<lparr>pl_runningJobs = [], pl_receivers = [Gone], pl_jobs = [1], pl_sends = [(0, ref_finished 1)], pl_received = []\<rparr>"

lemma gone_pipeline_reached: "pipeline_reaches logW (newCommandPipelineServer, w) (gone_pipeline, w)"
proof -
  let ?p1 = "gone_pipeline\<lparr>pl_receivers := [Sending]\<rparr>" and ?p2 = "gone_pipeline\<lparr>pl_receivers := [Waiting]\<rparr>"
  have 1: "pipeline_step logW (newCommandPipelineServer, w) (JobStarted (ref_request 1)) (?p1, w)"
    using pipeline_step.job_started [of logW newCommandPipelineServer w "ref_request 1"]
    by (simp add: StartJob_def newCommandPipelineServer_def ref_request_def remote_request_def gone_pipeline_def Let_def)
  have 2: "pipeline_step logW (?p1, w) (RequestTaken 0) (?p2, w)"
    using pipeline_step.request_taken [of 0 ?p1 logW w] by (simp add: gone_pipeline_def)
  have 3: "pipeline_step logW (?p2, w) (GaveUp 0) (gone_pipeline, w)"
    using pipeline_step.gave_up [of 0 ?p2 logW w] by (simp add: gone_pipeline_def)
  note next_step = pipeline_reaches.next_step
  show ?thesis by (rule next_step [OF next_step [OF next_step [OF pipeline_reaches.here 1] 2] 3])
qed

lemma late_pipeline_reached: "pipeline_reaches logW (newCommandPipelineServer, w) (late_pipeline, w)"
proof -
  have "finishJob logW (ref_finished 1) gone_pipeline w = (None, late_pipeline, w)"
    by (simp add: finishJob_def PopJob_def ref_finished_def finished_getError_def late_pipeline_def gone_pipeline_def)
  from pipeline_reaches.next_step [OF gone_pipeline_reached pipeline_step.finishing [OF this]] show ?thesis .
qed

theorem one_answer_per_job_witness:
  "pipeline_reaches (local_log_writer ref_bolt) (newCommandPipelineServer, ref_world) (late_pipeline, ref_world) \<and>
    distinct (map fst (pl_sends late_pipeline @ pl_received late_pipeline)) \<and> pl_jobs late_pipeline ! 0 = 1"
proof -
  note r = late_pipeline_reached [where logW = "local_log_writer ref_bolt" and w = ref_world]
  have "(0, ref_finished 1) \<in> set (pl_sends late_pipeline @ pl_received late_pipeline)" by (simp add: late_pipeline_def)
  with one_answer_per_job [OF r] have "pl_jobs late_pipeline ! 0 = fj_jobID (ref_finished 1)" by blast
  with r one_answer_per_job [OF r] show ?thesis by (simp add: ref_finished_def)
qed

theorem late_answer_blocks_forever_witness:
  "(0, ref_finished 1) \<in> set (pl_sends late_pipeline) \<and> pl_receivers late_pipeline ! 0 = Gone"
proof (rule late_answer_blocks_forever [OF late_pipeline_reached _ _ pipeline_reaches.here])
  show "(0, ref_finished 1) \<in> set (pl_sends late_pipeline)" "pl_receivers late_pipeline ! 0 = Gone"
    by (simp_all add: late_pipeline_def)
qed

text \<open>
  C32: a request that cannot be sent to its agent brings the server down. When the loop leaves after a failed send it
  closes the pipe, and when the context of the stream ends, as it does when the call returns, the pipe
  is closed a second time, which panics. When the agent is gone and the job is still known, the loop first
  waits until the answer it makes up is received: if nobody waits for it any more, it stays for ever, with the
  pipe open and the commands registered; if the context ends meanwhile, the loop is the one that panics.
\<close>

theorem failed_send_panics_later:
  assumes "pipeline_reaches logW (newCommandPipelineServer, w0) (p, w)" and "r \<noteq> SendOK"
  shows "(case (if r = SendEOF then map_of (pl_runningJobs p) (cq_JobID req) else None) of
      None \<Rightarrow>
        (\<exists>l. link_send logW ac req r open_link (p, w, cmds) = Ret (l, p, w, deRegisterAgentCommands ac cmds) \<and>
           \<not> ln_sending l \<and> ln_watching l \<and> link_context_done l = Panic ''close of closed channel'')
    | Some c \<Rightarrow>
        (\<exists>l f p1 w1. link_send logW ac req r open_link (p, w, cmds) = Ret (l, p1, w1, cmds) \<and>
           \<not> ln_closed l \<and> ln_sending l \<and> fj_jobID f = cq_JobID req \<and> (c, f) \<in> set (pl_sends p1) \<and>
           (\<forall>p2 w2 cmds2. pipeline_reaches logW (p1, w1) (p2, w2) \<longrightarrow>
              (if (c, f) \<in> set (pl_sends p2) then link_finished ac p2 l cmds2 = Ret (l, cmds2)
               else \<exists>l2. link_finished ac p2 l cmds2 = Ret (l2, deRegisterAgentCommands ac cmds2) \<and>
                 ln_watching l2 \<and> link_context_done l2 = Panic ''close of closed channel'') \<and>
              (\<exists>l3. link_context_done l = Ret l3 \<and> ((c, f) \<notin> set (pl_sends p2) \<longrightarrow>
                 link_finished ac p2 l3 cmds2 = Panic ''close of closed channel'')) \<and>
              (pl_receivers p ! c = Gone \<longrightarrow> (c, f) \<in> set (pl_sends p2)))))"
proof (cases "if r = SendEOF then map_of (pl_runningJobs p) (cq_JobID req) else None")
  case None
  let ?l = "\<lparr>ln_closed = True, ln_sending = False, ln_watching = True, ln_finishing = None\<rparr>"
  have "link_send logW ac req r open_link (p, w, cmds) = Ret (?l, p, w, deRegisterAgentCommands ac cmds)"
    using None assms(2)
    by (cases r) (simp_all add: link_send_def link_quit_def open_link_def close_pipe_def finishJob_def PopJob_def gone_answer_def)
  with None show ?thesis by (simp add: link_context_done_def close_pipe_def)
next
  case (Some c)
  let ?f = "gone_answer ac req" and ?l = "open_link\<lparr>ln_finishing := Some (c, gone_answer ac req)\<rparr>"
  have r: "r = SendEOF" and c: "map_of (pl_runningJobs p) (cq_JobID req) = Some c" using Some by (simp_all split: if_splits)
  obtain p1 w1 where fin: "finishJob logW ?f p w = (None, p1, w1)"
    and p1: "p1 = p\<lparr>pl_runningJobs := gomap_delete (cq_JobID req) (pl_runningJobs p), pl_sends := pl_sends p @ [(c, ?f)]\<rparr>"
    using c by (auto simp: finishJob_def PopJob_def gone_answer_def Let_def)
  have send: "link_send logW ac req r open_link (p, w, cmds) = Ret (?l, p1, w1, cmds)"
    using fin by (simp add: link_send_def r p1)
  have "pipeline_ok p" using pipeline_reaches_ok [OF assms(1)] pipeline_ok_new by simp
  then have "c < length (pl_receivers p)" using c by (auto simp: pipeline_ok_def ran_def)
  then have stuck: "(c, ?f) \<in> set (pl_sends p2)"
    if "pipeline_reaches logW (p1, w1) (p2, w2)" "pl_receivers p ! c = Gone" for p2 w2
    using blocked_forever [OF that(1), of c ?f] that(2) by (simp add: p1)
  have fin: "(if (c, ?f) \<in> set (pl_sends p2) then link_finished ac p2 ?l cmds2 = Ret (?l, cmds2)
      else \<exists>l2. link_finished ac p2 ?l cmds2 = Ret (l2, deRegisterAgentCommands ac cmds2) \<and>
        ln_watching l2 \<and> link_context_done l2 = Panic ''close of closed channel'') \<and>
    (\<exists>l3. link_context_done ?l = Ret l3 \<and> ((c, ?f) \<notin> set (pl_sends p2) \<longrightarrow>
        link_finished ac p2 l3 cmds2 = Panic ''close of closed channel''))" for p2 cmds2
    by (simp add: link_finished_def link_quit_def open_link_def close_pipe_def link_context_done_def)
  have l: "\<not> ln_closed ?l" "ln_sending ?l" "fj_jobID ?f = cq_JobID req" "(c, ?f) \<in> set (pl_sends p1)"
    by (simp_all add: open_link_def gone_answer_def p1)
  show ?thesis
    unfolding Some option.case
    by (intro exI [of _ ?l] exI [of _ ?f] exI [of _ p1] exI [of _ w1] conjI send l) (use fin stuck in blast)
qed

theorem failed_send_panics_later_witness:
  "(\<exists>l. link_send (local_log_writer ref_bolt) (createAgentConfiguration [] [] ''agent'' agent_registry)
      (ref_request 1) SendCancelled open_link (newCommandPipelineServer, ref_world, []) =
        Ret (l, newCommandPipelineServer, ref_world, deRegisterAgentCommands (createAgentConfiguration [] [] ''agent'' agent_registry) []) \<and>
      link_context_done l = Panic ''close of closed channel'') \<and>
   (\<exists>l p1 w1. link_send (local_log_writer ref_bolt) (createAgentConfiguration [] [] ''agent'' agent_registry)
      (ref_request 1) SendEOF open_link (gone_pipeline, ref_world, []) = Ret (l, p1, w1, []) \<and>
      link_finished (createAgentConfiguration [] [] ''agent'' agent_registry) p1 l [] = Ret (l, []))"
proof
  let ?W = "local_log_writer ref_bolt" and ?ac = "createAgentConfiguration [] [] ''agent'' agent_registry"
  show "\<exists>l. link_send ?W ?ac (ref_request 1) SendCancelled open_link (newCommandPipelineServer, ref_world, []) =
        Ret (l, newCommandPipelineServer, ref_world, deRegisterAgentCommands ?ac []) \<and>
      link_context_done l = Panic ''close of closed channel''"
    using failed_send_panics_later [OF pipeline_reaches.here, where logW = ?W and w = ref_world and r = SendCancelled
        and req = "ref_request 1" and ac = ?ac and cmds = "[]"] by auto
  have "map_of (pl_runningJobs gone_pipeline) (cq_JobID (ref_request 1)) = Some 0"
    by (simp add: gone_pipeline_def ref_request_def remote_request_def Let_def)
  with failed_send_panics_later [OF gone_pipeline_reached, where logW = ?W and w = ref_world and r = SendEOF
      and req = "ref_request 1" and ac = ?ac and cmds = "[]"]
  obtain l f p1 w1 where s: "link_send ?W ?ac (ref_request 1) SendEOF open_link (gone_pipeline, ref_world, []) = Ret (l, p1, w1, [])"
    "(0, f) \<in> set (pl_sends p1)"
    "\<forall>p2 w2 cmds2. pipeline_reaches ?W (p1, w1) (p2, w2) \<longrightarrow>
      (if (0, f) \<in> set (pl_sends p2) then link_finished ?ac p2 l cmds2 = Ret (l, cmds2) else True)"
    by auto
  with s(3) [rule_format, OF pipeline_reaches.here, of "[]"]
  show "\<exists>l p1 w1. link_send ?W ?ac (ref_request 1) SendEOF open_link (gone_pipeline, ref_world, []) = Ret (l, p1, w1, []) \<and>
      link_finished ?ac p1 l [] = Ret (l, [])"
    by auto
qed

end
