(* ===== verification/Executor.thy ===== *)
theory Executor
  imports Ownership Replies Shell Pipeline
begin

text \<open>
  The executor (\<^verbatim>\<open>meeseeks/executor/executor.go\<close>): requests are looked up, checked and turned into tasks, tasks
  go through a bounded channel to goroutines that run the commands, reply and record the end of the
  job, and active commands can be cancelled by job identifier. The goroutines interleave: a state
  machine takes one step of one of them at a time. What \<open>Run\<close> does with a request until it has a task or
  has replied is one step; counting the task and sending it are further steps, and so are the return of
  the wait of \<open>Shutdown\<close> and the closing of the channel.
\<close>

section \<open>Active commands\<close>

text \<open>
  The world of the executor adds the contexts to that of the services. A context is a number;
  \<open>ew_active\<close> maps job identifiers to the contexts whose cancel functions are kept, \<open>ew_cancelled\<close> is the set of
  contexts whose cancel function was invoked, \<open>ew_contexts\<close> the number of contexts made.
\<close>

record 'v exec_world =
  ew_store :: 'v
  ew_active :: "(u64, nat) gomap"
  ew_cancelled :: "nat set"
  ew_contexts :: nat

definition activeCommands_Add :: "u64 \<Rightarrow> 'v exec_world \<Rightarrow> nat \<times> 'v exec_world" where
  "activeCommands_Add jobID w =
     (ew_contexts w, w\<lparr>ew_active := gomap_update jobID (ew_contexts w) (ew_active w), ew_contexts := Suc (ew_contexts w)\<rparr>)"

definition activeCommands_Cancel :: "u64 \<Rightarrow> 'v exec_world \<Rightarrow> 'v exec_world" where
  "activeCommands_Cancel jobID w =
     (case map_of (ew_active w) jobID of
        None \<Rightarrow> w
      | Some cancel \<Rightarrow> w\<lparr>ew_active := gomap_delete jobID (ew_active w), ew_cancelled := insert cancel (ew_cancelled w)\<rparr>)"

section \<open>The services in this world\<close>

definition in_store :: "('v \<Rightarrow> 'a \<times> 'v) \<Rightarrow> 'v exec_world \<Rightarrow> 'a \<times> 'v exec_world" where
  "in_store f w = (case f (ew_store w) of (r, v) \<Rightarrow> (r, w\<lparr>ew_store := v\<rparr>))"

definition exec_jobs :: "'v jobs_service \<Rightarrow> 'v exec_world jobs_service" where
  "exec_jobs S = \<lparr>js_Get = (\<lambda>i. in_store (js_Get S i)), js_Null = (\<lambda>r. in_store (js_Null S r)),
     js_Create = (\<lambda>r. in_store (js_Create S r)), js_Fail = (\<lambda>i. in_store (js_Fail S i)),
     js_Succeed = (\<lambda>i. in_store (js_Succeed S i)), js_Find = (\<lambda>f. in_store (js_Find S f)),
     js_FailRunningJobs = in_store (js_FailRunningJobs S)\<rparr>"

definition exec_reader :: "'v log_reader \<Rightarrow> 'v exec_world log_reader" where
  "exec_reader R = \<lparr>lr_Get = (\<lambda>i. in_store (lr_Get R i)), lr_Head = (\<lambda>i n. in_store (lr_Head R i n)),
     lr_Tail = (\<lambda>i n. in_store (lr_Tail R i n))\<rparr>"

definition exec_writer :: "'v log_writer \<Rightarrow> 'v exec_world log_writer" where
  "exec_writer W = \<lparr>lw_Append = (\<lambda>i c. in_store (lw_Append W i c)), lw_SetError = (\<lambda>i e. in_store (lw_SetError W i e))\<rparr>"

definition exec_aliases :: "'v aliases_service \<Rightarrow> 'v exec_world aliases_service" where
  "exec_aliases S = \<lparr>as_Get = (\<lambda>u n. in_store (as_Get S u n)), as_List = (\<lambda>u. in_store (as_List S u)),
     as_Create = (\<lambda>u n c a. in_store (as_Create S u n c a)), as_Remove = (\<lambda>u n. in_store (as_Remove S u n))\<rparr>"

definition exec_tokens :: "'v tokens_service \<Rightarrow> 'v exec_world tokens_service" where
  "exec_tokens S = \<lparr>ts_Create = (\<lambda>u c x. in_store (ts_Create S u c x)), ts_Get = (\<lambda>i. in_store (ts_Get S i)),
     ts_Revoke = (\<lambda>i. in_store (ts_Revoke S i)), ts_Find = (\<lambda>f. in_store (ts_Find S f))\<rparr>"

definition exec_providers :: "'v providers \<Rightarrow> 'v exec_world providers" where
  "exec_providers P = \<lparr>pv_Aliases = exec_aliases (pv_Aliases P), pv_Jobs = exec_jobs (pv_Jobs P),
     pv_APITokens = exec_tokens (pv_APITokens P), pv_LogReader = exec_reader (pv_LogReader P),
     pv_LogWriter = exec_writer (pv_LogWriter P)\<rparr>"

lemmas exec_services =
  exec_jobs_def exec_reader_def exec_writer_def exec_aliases_def exec_tokens_def exec_providers_def

text \<open>
  The operations of the services change the store of a world and leave its contexts alone: the view of
  a world fixes them.
\<close>

definition contexts_of :: "'v exec_world \<Rightarrow> (u64, nat) gomap \<times> nat set \<times> nat" where
  "contexts_of w = (ew_active w, ew_cancelled w, ew_contexts w)"

lemma contexts_of_store [simp]: "contexts_of (w\<lparr>ew_store := v\<rparr>) = contexts_of w"
  by (simp add: contexts_of_def)

abbreviation ew_holds :: "('v \<Rightarrow> stored \<Rightarrow> bool) \<Rightarrow> (u64, nat) gomap \<times> nat set \<times> nat \<Rightarrow> 'v exec_world \<Rightarrow> stored \<Rightarrow> bool" where
  "ew_holds holds k \<equiv> \<lambda>w a. holds (ew_store w) a \<and> contexts_of w = k"

abbreviation ew_room :: "('v \<Rightarrow> bool) \<Rightarrow> 'v exec_world \<Rightarrow> bool" where
  "ew_room room \<equiv> \<lambda>w. room (ew_store w)"

lemma in_store_eq: "in_store f w = (r, w') \<longleftrightarrow> (\<exists>v. f (ew_store w) = (r, v) \<and> w' = w\<lparr>ew_store := v\<rparr>)"
  by (auto simp: in_store_def split: prod.splits)

lemma in_store_same: "f (ew_store w) = (r, ew_store w) \<Longrightarrow> in_store f w = (r, w)"
  by (simp add: in_store_def)

text \<open>The laws of the services hold in the larger world.\<close>

context job_service
begin

lemma exec_job: "job_service (exec_jobs S) (ew_holds holds k) (ew_room room)"
proof (unfold_locales, goal_cases)
  case (1 w a i)
  then show ?case by (auto simp: exec_jobs_def in_store_def get_job)
next
  case (2 w a r j w')
  then show ?case by (auto simp: exec_jobs_def in_store_eq dest: null_job)
next
  case (3 w a r j w')
  then show ?case by (auto simp: exec_jobs_def in_store_eq dest!: create_job [OF conjunct1 [OF 3(1)] 3(2,3)])
next
  case (4 w a r e w')
  then show ?case by (auto simp: exec_jobs_def in_store_eq intro: create_fails)
next
  case (5 w a i u w')
  then show ?case by (auto simp: exec_jobs_def in_store_eq dest!: succeed_job [OF conjunct1 [OF 5(1)]])
next
  case (6 w a i u w')
  then show ?case by (auto simp: exec_jobs_def in_store_eq dest!: fail_job [OF conjunct1 [OF 6(1)]])
next
  case (7 w a i e w')
  then show ?case by (auto simp: exec_jobs_def in_store_eq intro: finish_fails)
next
  case (8 w a i e w')
  then show ?case by (auto simp: exec_jobs_def in_store_eq intro: finish_fails)
next
  case (9 w a i)
  then show ?case using finish_rejected(1) [of "ew_store w" a i] by (fastforce simp: exec_jobs_def in_store_eq)
next
  case (10 w a i)
  then show ?case using finish_rejected(2) [of "ew_store w" a i] by (fastforce simp: exec_jobs_def in_store_eq)
next
  case (11 w a f)
  then show ?case by (auto simp: exec_jobs_def in_store_def find_jobs)
next
  case (12 w a u w')
  then show ?case by (auto simp: exec_jobs_def in_store_eq dest!: kill_running [OF conjunct1 [OF 12(1)]])
next
  case (13 w a e w')
  then show ?case by (auto simp: exec_jobs_def in_store_eq intro: kill_fails)
next
  case (14 w a i j)
  then show ?case using job_ids by blast
qed

end

context log_service
begin

lemma exec_log: "log_service (exec_reader R) (exec_writer W) (ew_holds holds k)"
proof (unfold_locales, goal_cases)
  case (5 w a i)
  then show ?case using append_nothing [of "ew_store w" a i] by (fastforce simp: exec_writer_def in_store_eq)
next
  case (8 w a i)
  then show ?case using set_no_error [of "ew_store w" a i] by (fastforce simp: exec_writer_def in_store_eq)
qed (auto simp: exec_reader_def exec_writer_def in_store_eq intro!: in_store_same
    dest: append_log append_fails set_error set_error_fails simp: get_log head_log tail_log)

end

context alias_service
begin

lemma exec_alias: "alias_service (exec_aliases S) (ew_holds holds k)"
  by unfold_locales (auto simp: exec_aliases_def in_store_eq
    dest: get_alias get_alias_fails list_aliases list_aliases_fails create_alias create_alias_fails
      remove_alias remove_alias_fails)

end

context token_service
begin

lemma exec_token: "token_service (exec_tokens S) (ew_holds holds k)"
proof (unfold_locales, goal_cases)
  case (1 w a u c x i w')
  then show ?case by (auto simp: exec_tokens_def in_store_eq dest!: create_token [OF conjunct1 [OF 1(1)] 1(2)])
qed (auto simp: exec_tokens_def in_store_eq get_token find_tokens intro!: in_store_same
    intro: create_token_fails revoke_token revoke_token_fails)

end

lemma exec_services_ok:
  "services P holds room \<Longrightarrow> services (exec_providers P) (ew_holds holds k) (ew_room room)"
  by (simp add: services_def exec_providers_def job_service.exec_job log_service.exec_log alias_service.exec_alias
      token_service.exec_token)

section \<open>Tasks and the state of the executor\<close>

record task =
  tk_job :: job
  tk_cmd :: command

text \<open>
  The goroutine of a task has been launched, runs its command in a context, or has ended and is about
  to release its context.
\<close>

datatype phase = Launched | RunningIn nat | Releasing

text \<open>
  \<open>ex_sending\<close> is the task that \<open>Run\<close> has made and sends into the channel, \<open>ex_counted\<close> says that the wait group
  counts it already, \<open>ex_queue\<close> is the buffer of the channel, \<open>ex_goroutines\<close> are the goroutines of the tasks taken from
  it, \<open>ex_wg\<close> is the counter of the wait group, \<open>ex_replies\<close> what the chat client was sent; \<open>ex_waited\<close> says that the wait
  of \<open>Shutdown\<close> has returned and \<open>ex_closed\<close> that it has closed the channel.
\<close>

record 'v executor =
  ex_world :: "'v exec_world"
  ex_sending :: "task option"
  ex_counted :: bool
  ex_queue :: "task list"
  ex_goroutines :: "(task \<times> phase) list"
  ex_wg :: nat
  ex_replies :: "reply list"
  ex_waited :: bool
  ex_closed :: bool

record 'v executor_env =
  xe_providers :: "'v providers"
  xe_registry :: "command registry"
  xe_auth :: auth_state
  xe_humanize :: "time \<Rightarrow> string"
  xe_version :: "string \<times> string \<times> string \<times> string"
  xe_formatter :: formatter
  xe_capacity :: nat

definition New_executor :: "'v \<Rightarrow> 'v executor" where
  "New_executor v =
     \<lparr>ex_world = \<lparr>ew_store = v, ew_active = [], ew_cancelled = {}, ew_contexts = 0\<rparr>, ex_sending = None, ex_counted = False,
      ex_queue = [], ex_goroutines = [], ex_wg = 0, ex_replies = [], ex_waited = False, ex_closed = False\<rparr>"

abbreviation xe_services :: "'v executor_env \<Rightarrow> 'v exec_world providers" where
  "xe_services E \<equiv> exec_providers (xe_providers E)"

text \<open>The surroundings of the builtins: \<open>cancel\<close> and \<open>kill\<close> get the cancel function of the active commands.\<close>

definition builtins_env :: "'v executor_env \<Rightarrow> 'v exec_world builtin_env" where
  "builtins_env E =
     \<lparr>be_providers = xe_services E, be_registry = xe_registry E, be_auth = xe_auth E, be_humanize = xe_humanize E,
      be_version = xe_version E, be_cancel = activeCommands_Cancel\<rparr>"

definition Reply :: "reply \<Rightarrow> 'v executor \<Rightarrow> 'v executor" where
  "Reply r s = s\<lparr>ex_replies := ex_replies s @ [r]\<rparr>"

section \<open>The loops\<close>

definition createTask :: "'v executor_env \<Rightarrow> request \<Rightarrow> command \<Rightarrow> 'v exec_world \<Rightarrow> task result \<times> 'v exec_world" where
  "createTask E req c w =
     (if \<not> cs_MustRecord (getters c)
      then (case js_Null (pv_Jobs (xe_services E)) req w of (j, w') \<Rightarrow> (Returns \<lparr>tk_job = j, tk_cmd = c\<rparr>, w'))
      else (case js_Create (pv_Jobs (xe_services E)) req w of
              (Inl e, w') \<Rightarrow> (Fails e, w')
            | (Inr j, w') \<Rightarrow> (Returns \<lparr>tk_job = j, tk_cmd = c\<rparr>, w')))"

text \<open>One request in \<open>Run\<close>, up to the task that is then counted and sent into the channel.\<close>

definition run_request :: "'v executor_env \<Rightarrow> request \<Rightarrow> 'v executor \<Rightarrow> 'v executor run" where
  "run_request E req s =
     (case Find (pv_Aliases (xe_services E)) (xe_registry E) req (ex_world s) of
        ((None, req'), w) \<Rightarrow> Ret (Reply (UnknownCommandReply (xe_formatter E) req') (s\<lparr>ex_world := w\<rparr>))
      | ((Some c, req'), w) \<Rightarrow>
          (case Check (xe_auth E) req' (authorization_of c) of
             Panic m \<Rightarrow> Panic m
           | Ret (Some e) \<Rightarrow> Ret (Reply (UnauthorizedCommandReply (xe_formatter E) req') (s\<lparr>ex_world := w\<rparr>))
           | Ret None \<Rightarrow>
               (case createTask E req' c w of
                  (Inl e, w') \<Rightarrow>
                    Ret (Reply (FailureReply (xe_formatter E) req' (wrap_err ''could not create task: '' e))
                      (s\<lparr>ex_world := w'\<rparr>))
                | (Inr t, w') \<Rightarrow> Ret (s\<lparr>ex_world := w', ex_sending := Some t, ex_counted := False\<rparr>))))"

text \<open>The goroutine of a task: the handshake and the context; the command, the reply and the end of the job;
  and the deferred cancellation.\<close>

definition begin_task :: "'v executor_env \<Rightarrow> nat \<Rightarrow> task \<Rightarrow> 'v executor \<Rightarrow> 'v executor" where
  "begin_task E k t s =
     (let s1 = (if cs_HasHandshake (getters (tk_cmd t))
                then Reply (HandshakeReply (xe_formatter E) (job_Request (tk_job t))) s else s)
      in case activeCommands_Add (job_ID (tk_job t)) (ex_world s1) of
           (ctx, w) \<Rightarrow> s1\<lparr>ex_world := w, ex_goroutines := (ex_goroutines s1)[k := (t, RunningIn ctx)]\<rparr>)"

text \<open>What the surroundings answer: how a process runs, and how a remote command ends.\<close>

type_synonym answers = "runner \<times> remote_end"

fun command_Execute :: "'v executor_env \<Rightarrow> answers \<Rightarrow> command \<Rightarrow> job \<Rightarrow> 'v exec_world \<Rightarrow> outcome \<times> 'v exec_world" where
  "command_Execute E ans (BuiltinCommand b) j w = builtin_Execute b (builtins_env E) j w"
| "command_Execute E ans (ShellCommand o1) j w =
     shellCommand_Execute (pv_LogWriter (xe_services E)) (fst ans) o1 j w"
| "command_Execute E ans (RemoteCommand o1 agentID) j w = (remoteCommand_Execute (snd ans), w)"

definition end_task :: "'v executor_env \<Rightarrow> answers \<Rightarrow> nat \<Rightarrow> task \<Rightarrow> 'v executor \<Rightarrow> 'v executor run" where
  "end_task E ans k t s =
     (let j = tk_job t; req = job_Request j;
          ended = (\<lambda>r w. Ret ((Reply r s)\<lparr>ex_world := w, ex_wg := ex_wg s - 1,
                     ex_goroutines := (ex_goroutines s)[k := (t, Releasing)]\<rparr>))
      in case command_Execute E ans (tk_cmd t) j (ex_world s) of
           ((out, Some e), w) \<Rightarrow>
             (case e of
                Panicking m \<Rightarrow> Panic m
              | _ \<Rightarrow> ended (WithOutput out (FailureReply (xe_formatter E) req e))
                      (snd (js_Fail (pv_Jobs (xe_services E)) (job_ID j) w)))
         | ((out, None), w) \<Rightarrow>
             ended (WithOutput out (SuccessReply (xe_formatter E) req))
               (snd (js_Succeed (pv_Jobs (xe_services E)) (job_ID j) w)))"

definition release_task :: "nat \<Rightarrow> task \<Rightarrow> 'v executor \<Rightarrow> 'v executor" where
  "release_task k t s =
     s\<lparr>ex_world := activeCommands_Cancel (job_ID (tk_job t)) (ex_world s),
       ex_goroutines := take k (ex_goroutines s) @ drop (Suc k) (ex_goroutines s)\<rparr>"

section \<open>Steps\<close>

text \<open>
  \<open>Run\<close> handles a request, having none in hand; it adds its task to the wait group and sends it, which panics on a
  closed channel; a task is taken and its goroutine launched; a goroutine begins, ends and releases; the wait of
  \<open>Shutdown\<close> returns, and later it closes the channel; a remote agent writes a line to a log.
\<close>

datatype exec_event =
    Received request | TaskCounted | TaskSent | TaskTaken | Began nat | Ended nat answers | Released nat
  | WaitReturned | ShutDown | RemoteLog log_received

inductive exec_step :: "'v executor_env \<Rightarrow> 'v executor \<Rightarrow> exec_event \<Rightarrow> 'v executor run \<Rightarrow> bool" for E where
  received: "ex_sending s = None \<Longrightarrow> exec_step E s (Received req) (run_request E req s)"
| task_counted: "ex_sending s = Some t \<Longrightarrow> \<not> ex_counted s \<Longrightarrow>
    exec_step E s TaskCounted (Ret (s\<lparr>ex_wg := Suc (ex_wg s), ex_counted := True\<rparr>))"
| task_sent: "ex_sending s = Some t \<Longrightarrow> ex_counted s \<Longrightarrow> \<not> ex_closed s \<Longrightarrow> length (ex_queue s) < xe_capacity E \<Longrightarrow>
    exec_step E s TaskSent (Ret (s\<lparr>ex_sending := None, ex_queue := ex_queue s @ [t]\<rparr>))"
| send_on_closed: "ex_sending s = Some t \<Longrightarrow> ex_counted s \<Longrightarrow> ex_closed s \<Longrightarrow>
    exec_step E s TaskSent (Panic ''send on closed channel'')"
| task_taken: "ex_queue s = t # q \<Longrightarrow>
    exec_step E s TaskTaken (Ret (s\<lparr>ex_queue := q, ex_goroutines := ex_goroutines s @ [(t, Launched)]\<rparr>))"
| began: "k < length (ex_goroutines s) \<Longrightarrow> ex_goroutines s ! k = (t, Launched) \<Longrightarrow>
    exec_step E s (Began k) (Ret (begin_task E k t s))"
| ended: "k < length (ex_goroutines s) \<Longrightarrow> ex_goroutines s ! k = (t, RunningIn c) \<Longrightarrow>
    exec_step E s (Ended k ans) (end_task E ans k t s)"
| released: "k < length (ex_goroutines s) \<Longrightarrow> ex_goroutines s ! k = (t, Releasing) \<Longrightarrow>
    exec_step E s (Released k) (Ret (release_task k t s))"
| wait_returned: "ex_wg s = 0 \<Longrightarrow> \<not> ex_waited s \<Longrightarrow> exec_step E s WaitReturned (Ret (s\<lparr>ex_waited := True\<rparr>))"
| shut_down: "ex_waited s \<Longrightarrow> \<not> ex_closed s \<Longrightarrow> exec_step E s ShutDown (Ret (s\<lparr>ex_closed := True\<rparr>))"
| remote_log: "exec_step E s (RemoteLog x)
    (Ret (s\<lparr>ex_world := logWriterServer_Append (pv_LogWriter (xe_services E)) x (ex_world s)\<rparr>))"

inductive_cases exec_stepE: "exec_step E s ev r"

text \<open>Runs of which every step meets a condition.\<close>

inductive exec_trace :: "'v executor_env \<Rightarrow> ('v executor \<Rightarrow> exec_event \<Rightarrow> bool) \<Rightarrow> 'v executor \<Rightarrow> exec_event list \<Rightarrow>
    'v executor \<Rightarrow> bool" for E Q s where
  no_step: "exec_trace E Q s [] s"
| one_more: "exec_trace E Q s evs s' \<Longrightarrow> exec_step E s' ev (Ret s'') \<Longrightarrow> Q s' ev \<Longrightarrow> exec_trace E Q s (evs @ [ev]) s''"

end
