(* ===== verification/Tasks.thy ===== *)
theory Tasks
  imports Executor
begin

text \<open>
  What the executor does with the requests it receives: the counter of the wait group, one final reply
  to each request, that every accepted task comes to its end, and what happens after \<open>Shutdown\<close>.
\<close>

section \<open>Counting\<close>

lemma length_filter_update:
  "k < length xs \<Longrightarrow> length (filter P (xs[k := y])) + (if P (xs ! k) then 1 else 0) =
     length (filter P xs) + (if P y then 1 else 0)"
proof (induction xs arbitrary: k)
  case (Cons x xs)
  then show ?case by (cases k) auto
qed simp

lemma length_filter_remove:
  "k < length xs \<Longrightarrow> length (filter P (take k xs @ drop (Suc k) xs)) + (if P (xs ! k) then 1 else 0) = length (filter P xs)"
proof -
  assume k: "k < length xs"
  have "length (filter P xs) = length (filter P (take k xs @ xs ! k # drop (Suc k) xs))"
    using id_take_nth_drop [OF k] by simp
  then show ?thesis by simp
qed

definition active :: "task \<times> phase \<Rightarrow> bool" where
  "active g \<longleftrightarrow> snd g \<noteq> Releasing"

definition open_tasks :: "'v executor \<Rightarrow> nat" where
  "open_tasks s = (if ex_sending s = None then 0 else 1) + length (ex_queue s) + length (filter active (ex_goroutines s))"

text \<open>A task that \<open>Run\<close> has made and not yet added to the wait group.\<close>

definition uncounted :: "'v executor \<Rightarrow> nat" where
  "uncounted s = (if ex_sending s \<noteq> None \<and> \<not> ex_counted s then 1 else 0)"

definition final_reply :: "reply \<Rightarrow> bool" where
  "final_reply r \<longleftrightarrow> rp_action r \<noteq> Handshake"

definition final_replies :: "'v executor \<Rightarrow> nat" where
  "final_replies s = length (filter final_reply (ex_replies s))"

fun is_request :: "exec_event \<Rightarrow> bool" where
  "is_request (Received _) = True"
| "is_request _ = False"

lemma reply_kinds [simp]:
  "final_reply (UnknownCommandReply f r)" "final_reply (UnauthorizedCommandReply f r)"
  "final_reply (WithOutput out (FailureReply f r e))" "final_reply (FailureReply f r e)"
  "final_reply (WithOutput out (SuccessReply f r))" "\<not> final_reply (HandshakeReply f r)"
  by (simp_all add: final_reply_def UnknownCommandReply_def UnauthorizedCommandReply_def WithOutput_def FailureReply_def
      SuccessReply_def HandshakeReply_def WithError_def newReplier_def)

lemma reply_fields [simp]:
  "rp_action (UnknownCommandReply f r) = UnknownCommand" "rp_action (UnauthorizedCommandReply f r) = Unauthorized"
  "rp_action (FailureReply f r e) = Failure" "rp_action (SuccessReply f r) = Success"
  "rp_action (HandshakeReply f r) = Handshake" "rp_action (WithOutput out x) = rp_action x"
  "rp_request (UnknownCommandReply f r) = r" "rp_request (UnauthorizedCommandReply f r) = r"
  "rp_request (FailureReply f r e) = r" "rp_request (SuccessReply f r) = r"
  "rp_request (HandshakeReply f r) = r" "rp_request (WithOutput out x) = rp_request x"
  by (simp_all add: UnknownCommandReply_def UnauthorizedCommandReply_def WithOutput_def FailureReply_def
      SuccessReply_def HandshakeReply_def WithError_def newReplier_def)

lemma Reply_simps [simp]:
  "ex_world (Reply r s) = ex_world s" "ex_sending (Reply r s) = ex_sending s" "ex_queue (Reply r s) = ex_queue s"
  "ex_goroutines (Reply r s) = ex_goroutines s" "ex_wg (Reply r s) = ex_wg s" "ex_closed (Reply r s) = ex_closed s"
  "ex_counted (Reply r s) = ex_counted s" "ex_waited (Reply r s) = ex_waited s"
  "ex_replies (Reply r s) = ex_replies s @ [r]"
  by (simp_all add: Reply_def)

text \<open>What one request does to the state: a reply, or one more task on its way.\<close>

lemma run_request_cases:
  assumes "run_request E req s = Ret s'"
  obtains (replied) f req' w0 r w where "Find (pv_Aliases (xe_services E)) (xe_registry E) req (ex_world s) = ((f, req'), w0)"
      "w = w0 \<or> (\<exists>c e. createTask E req' c w0 = (Fails e, w))" "final_reply r" "s' = Reply r (s\<lparr>ex_world := w\<rparr>)" "rp_request r = req'"
  | (accepted) c req' w t w' where "Find (pv_Aliases (xe_services E)) (xe_registry E) req (ex_world s) = ((Some c, req'), w)"
      "Check (xe_auth E) req' (authorization_of c) = Ret None" "createTask E req' c w = (Returns t, w')"
      "s' = s\<lparr>ex_world := w', ex_sending := Some t, ex_counted := False\<rparr>"
proof -
  obtain f req' w where find: "Find (pv_Aliases (xe_services E)) (xe_registry E) req (ex_world s) = ((f, req'), w)"
    by (metis prod.exhaust)
  show thesis
  proof (cases f)
    case None
    with assms find have "s' = Reply (UnknownCommandReply (xe_formatter E) req') (s\<lparr>ex_world := w\<rparr>)"
      by (simp add: run_request_def)
    with find show thesis by (intro replied) auto
  next
    case (Some c)
    show thesis
    proof (cases "Check (xe_auth E) req' (authorization_of c)")
      case (Panic m)
      with assms find Some show thesis by (simp add: run_request_def)
    next
      case (Ret v)
      show thesis
      proof (cases v)
        case None
        obtain t w' where task: "createTask E req' c w = (t, w')" by (metis prod.exhaust)
        show thesis
        proof (cases t)
          case (Inl e)
          with assms find Some Ret None task
          have "s' = Reply (FailureReply (xe_formatter E) req' (wrap_err ''could not create task: '' e)) (s\<lparr>ex_world := w'\<rparr>)"
            by (simp add: run_request_def)
          with find task Inl show thesis by (intro replied [of f req' w w']) auto
        next
          case (Inr t')
          with assms find Some Ret None task show thesis
            by (intro accepted [of c req' w t' w']) (simp_all add: run_request_def)
        qed
      next
        case (Some e)
        with assms find \<open>f = Some c\<close> Ret
        have "s' = Reply (UnauthorizedCommandReply (xe_formatter E) req') (s\<lparr>ex_world := w\<rparr>)"
          by (simp add: run_request_def)
        with find show thesis by (intro replied) auto
      qed
    qed
  qed
qed

lemma end_task_cases:
  assumes "end_task E ans k t s = Ret s'"
  obtains (failed) out e w where "command_Execute E ans (tk_cmd t) (tk_job t) (ex_world s) = ((out, Some e), w)"
      "s' = (Reply (WithOutput out (FailureReply (xe_formatter E) (job_Request (tk_job t)) e)) s)
        \<lparr>ex_world := snd (js_Fail (pv_Jobs (xe_services E)) (job_ID (tk_job t)) w), ex_wg := ex_wg s - 1,
         ex_goroutines := (ex_goroutines s)[k := (t, Releasing)]\<rparr>"
  | (succeeded) out w where "command_Execute E ans (tk_cmd t) (tk_job t) (ex_world s) = ((out, None), w)"
      "s' = (Reply (WithOutput out (SuccessReply (xe_formatter E) (job_Request (tk_job t)))) s)
        \<lparr>ex_world := snd (js_Succeed (pv_Jobs (xe_services E)) (job_ID (tk_job t)) w), ex_wg := ex_wg s - 1,
         ex_goroutines := (ex_goroutines s)[k := (t, Releasing)]\<rparr>"
proof -
  obtain out e w where run: "command_Execute E ans (tk_cmd t) (tk_job t) (ex_world s) = ((out, e), w)"
    by (metis prod.exhaust)
  show thesis
  proof (cases e)
    case None
    with assms run show thesis by (intro succeeded [of out w]) (simp_all add: end_task_def Let_def)
  next
    case (Some x)
    with assms run show thesis
      by (intro failed [of out x w]) (simp_all add: end_task_def Let_def split: err.splits)
  qed
qed

lemma begin_task_conv:
  "begin_task E k t s = s\<lparr>ex_world := snd (activeCommands_Add (job_ID (tk_job t)) (ex_world s)),
     ex_goroutines := (ex_goroutines s)[k := (t, RunningIn (ew_contexts (ex_world s)))],
     ex_replies := ex_replies s @ (if cs_HasHandshake (getters (tk_cmd t))
       then [HandshakeReply (xe_formatter E) (job_Request (tk_job t))] else [])\<rparr>"
  by (simp add: begin_task_def activeCommands_Add_def Reply_def Let_def)

lemma step_counts:
  assumes "exec_step E s ev (Ret s')" and "ex_wg s + uncounted s = open_tasks s"
  shows "ex_wg s' + uncounted s' = open_tasks s'"
    and "final_replies s' + open_tasks s' = final_replies s + open_tasks s + (if is_request ev then 1 else 0)"
proof -
  have "ex_wg s' + uncounted s' = open_tasks s' \<and>
    final_replies s' + open_tasks s' = final_replies s + open_tasks s + (if is_request ev then 1 else 0)"
    using assms(1)
  proof cases
    case (received req)
    from received(2) [symmetric] show ?thesis
      by (cases rule: run_request_cases) (use assms(2) received in \<open>auto simp: open_tasks_def uncounted_def final_replies_def\<close>)
  next
    case (began k t)
    then have "length (filter active ((ex_goroutines s)[k := (t, RunningIn c)])) = length (filter active (ex_goroutines s))" for c
      using length_filter_update [of k "ex_goroutines s" active "(t, RunningIn c)"] by (simp add: active_def)
    with began assms(2) show ?thesis
      by (auto simp: begin_task_conv open_tasks_def uncounted_def final_replies_def)
  next
    case (ended k t c ans)
    then have "Suc (length (filter active ((ex_goroutines s)[k := (t, Releasing)]))) = length (filter active (ex_goroutines s))"
      using length_filter_update [of k "ex_goroutines s" active "(t, Releasing)"] by (simp add: active_def)
    note less = this
    have "end_task E ans k t s = Ret s'" using ended by simp
    then show ?thesis
      by (cases rule: end_task_cases) (use assms(2) ended less in \<open>auto simp: open_tasks_def uncounted_def final_replies_def\<close>)
  next
    case (released k t)
    then have "length (filter active (take k (ex_goroutines s) @ drop (Suc k) (ex_goroutines s))) = length (filter active (ex_goroutines s))"
      using length_filter_remove [of k "ex_goroutines s" active] by (simp add: active_def)
    with released assms(2) show ?thesis by (auto simp: release_task_def open_tasks_def uncounted_def final_replies_def)
  qed (use assms(2) in \<open>auto simp: open_tasks_def uncounted_def final_replies_def active_def\<close>)
  then show "ex_wg s' + uncounted s' = open_tasks s'"
    and "final_replies s' + open_tasks s' = final_replies s + open_tasks s + (if is_request ev then 1 else 0)" by auto
qed

lemma trace_counts:
  "exec_trace E Q (New_executor v) evs s \<Longrightarrow>
   ex_wg s + uncounted s = open_tasks s \<and> final_replies s + open_tasks s = length (filter is_request evs)"
proof (induction rule: exec_trace.induct)
  case no_step
  then show ?case by (simp add: New_executor_def open_tasks_def uncounted_def final_replies_def)
next
  case (one_more evs s' ev s'')
  then show ?case using step_counts [OF one_more.hyps(2)] by auto
qed

section \<open>Coming to an end\<close>

fun phase_work :: "phase \<Rightarrow> nat" where
  "phase_work Launched = 3"
| "phase_work (RunningIn c) = 2"
| "phase_work Releasing = 1"

definition work :: "'v executor \<Rightarrow> nat" where
  "work s = (if ex_sending s = None then 0 else 5 + uncounted s) + 4 * length (ex_queue s) +
     sum_list (map (phase_work \<circ> snd) (ex_goroutines s))"

fun internal :: "exec_event \<Rightarrow> bool" where
  "internal TaskCounted = True"
| "internal TaskSent = True"
| "internal TaskTaken = True"
| "internal (Began k) = True"
| "internal (Ended k ans) = True"
| "internal (Released k) = True"
| "internal _ = False"

lemma sum_list_update_less:
  "k < length xs \<Longrightarrow> f y < (f (xs ! k) :: nat) \<Longrightarrow> sum_list (map f (xs[k := y])) < sum_list (map f xs)"
proof (induction xs arbitrary: k)
  case (Cons x xs)
  then show ?case by (cases k) auto
qed simp

lemma sum_list_remove:
  "k < length xs \<Longrightarrow> sum_list (map f xs) = f (xs ! k) + sum_list (map f (take k xs @ drop (Suc k) xs))"
  for f :: "'a \<Rightarrow> nat"
proof -
  assume k: "k < length xs"
  have "sum_list (map f xs) = sum_list (map f (take k xs @ xs ! k # drop (Suc k) xs))"
    using id_take_nth_drop [OF k] by simp
  then show ?thesis by simp
qed

lemma internal_step_works:
  assumes "exec_step E s ev (Ret s')" and "internal ev"
  shows "work s' < work s"
  using assms(1)
proof cases
  case (began k t)
  then have "sum_list (map (phase_work \<circ> snd) ((ex_goroutines s)[k := (t, RunningIn c)])) <
      sum_list (map (phase_work \<circ> snd) (ex_goroutines s))" for c
    by (intro sum_list_update_less) simp_all
  with began show ?thesis by (simp add: begin_task_conv work_def uncounted_def)
next
  case (ended k t c ans)
  then have "sum_list (map (phase_work \<circ> snd) ((ex_goroutines s)[k := (t, Releasing)])) <
      sum_list (map (phase_work \<circ> snd) (ex_goroutines s))"
    by (intro sum_list_update_less) simp_all
  note less = this
  have "end_task E ans k t s = Ret s'" using ended by simp
  then show ?thesis by (cases rule: end_task_cases) (use less in \<open>simp_all add: work_def uncounted_def\<close>)
next
  case (released k t)
  then show ?thesis
    using sum_list_remove [of k "ex_goroutines s" "phase_work \<circ> snd"] by (simp add: release_task_def work_def uncounted_def)
qed (use assms(2) in \<open>auto simp: work_def uncounted_def\<close>)

lemma internal_trace_works: "exec_trace E (\<lambda>_. internal) s evs s' \<Longrightarrow> length evs + work s' \<le> work s"
proof (induction rule: exec_trace.induct)
  case (one_more evs s' ev s'')
  then show ?case using internal_step_works [OF one_more.hyps(2,3)] by simp
qed simp

lemma stuck_is_done:
  assumes "0 < xe_capacity E" and "\<And>ev r. internal ev \<Longrightarrow> \<not> exec_step E s ev r"
  shows "ex_sending s = None \<and> ex_queue s = [] \<and> ex_goroutines s = []"
proof -
  have q: "ex_queue s = []"
  proof (rule ccontr)
    assume "ex_queue s \<noteq> []"
    then obtain t q where "ex_queue s = t # q" by (cases "ex_queue s") auto
    from exec_step.task_taken [OF this] assms(2) [of TaskTaken] show False by auto
  qed
  moreover have "ex_sending s = None"
  proof (rule ccontr)
    assume "ex_sending s \<noteq> None"
    then obtain t where "ex_sending s = Some t" by blast
    with q assms exec_step.task_counted [of s t E] exec_step.task_sent [of s t E] exec_step.send_on_closed [of s t E] show False
      by (cases "ex_counted s"; cases "ex_closed s") fastforce+
  qed
  moreover have "ex_goroutines s = []"
  proof (rule ccontr)
    assume "ex_goroutines s \<noteq> []"
    then have k: "0 < length (ex_goroutines s)" by simp
    obtain t p where g: "ex_goroutines s ! 0 = (t, p)" by fastforce
    show False
    proof (cases p)
      case Launched
      with exec_step.began [OF k] g assms(2) [of "Began 0"] show False by auto
    next
      case (RunningIn c)
      with g have "ex_goroutines s ! 0 = (t, RunningIn c)" by simp
      from exec_step.ended [OF k this] assms(2) show False by (metis internal.simps(5))
    next
      case Releasing
      with exec_step.released [OF k] g assms(2) [of "Released 0"] show False by auto
    qed
  qed
  ultimately show ?thesis by blast
qed

section \<open>A configuration\<close>

context alias_service
begin

lemma find_without_alias:
  assumes "holds w a" and "st_aliases a (req_UserID req) (req_Command req) = None" and "map_of cmds [] = None"
  obtains w' where "Find S cmds req w = ((map_option hub_cmd (map_of cmds (req_Command req)), req), w')" "holds w' a"
proof -
  obtain r w' where g: "as_Get S (req_UserID req) (req_Command req) w = (r, w')" by fastforce
  show thesis
  proof (cases r)
    case (Inl e)
    with g get_alias_fails [OF assms(1)] assms(3) show thesis by (intro that [of w']) (auto simp: Find_def)
  next
    case (Inr x)
    with g get_alias [OF assms(1), of _ _ "fst x" "snd x"] assms(2) show thesis by fastforce
  qed
qed

end

definition builtin_hub :: "builtin \<Rightarrow> command commandHub" where
  "builtin_hub b = \<lparr>hub_kind = KindBuiltinCommand, hub_cmd = BuiltinCommand b\<rparr>"

definition sleep_opts :: command_opts where
  "sleep_opts = deploy_opts\<lparr>opt_Cmd := ''/bin/sleep'', opt_AuthStrategy := AuthStrategyAny, opt_AllowedGroups := None\<rparr>"

definition ref_executor :: "ref_db world executor_env" where
  "ref_executor = \<lparr>xe_providers = local_providers ref_bolt ref_codec,
     xe_registry = [(''version'', builtin_hub VersionCommand), (''cancel'', builtin_hub CancelJobCommand),
       (''kill'', builtin_hub KillJobCommand),
       (''sleep'', \<lparr>hub_kind = KindLocalCommand, hub_cmd = ShellCommand sleep_opts\<rparr>)],
     xe_auth = Configure [(''admin'', [''root''])] auth_init, xe_humanize = (\<lambda>t. ''now''),
     xe_version = (''meeseeks-box'', ''1'', ''abc'', ''today''), xe_formatter = Configure_formatter default_format,
     xe_capacity = 1\<rparr>"

lemma ref_executor_simps [simp]:
  "xe_providers ref_executor = local_providers ref_bolt ref_codec" "xe_capacity ref_executor = 1"
  "xe_auth ref_executor = Configure [(''admin'', [''root''])] auth_init"
  by (simp_all add: ref_executor_def)

lemma ref_exec_services: "services (xe_services ref_executor) (ew_holds ref_holds k) (ew_room (job_room ref_view))"
  using exec_services_ok [OF ref_env_services] by simp

interpretation ref_exec: services "xe_services ref_executor" "ew_holds ref_holds ([], {}, 0)" "ew_room (job_room ref_view)"
  by (rule ref_exec_services)

lemma ref_registry: "map_of (xe_registry ref_executor) ''version'' = Some (builtin_hub VersionCommand)"
  "map_of (xe_registry ref_executor) [] = None"
  by (simp_all add: ref_executor_def)

definition version_request :: request where
  "version_request = zero_request\<lparr>req_Username := ''bob'', req_Command := ''version''\<rparr>"

text \<open>\<open>version\<close> is accepted.\<close>

lemma ref_accepts:
  assumes "ref_holds (ew_store (ex_world s)) nothing_stored" and "contexts_of (ex_world s) = ([], {}, 0)"
    and "ex_sending s = None"
  obtains w t where "exec_step ref_executor s (Received version_request)
      (Ret (s\<lparr>ex_world := w, ex_sending := Some t, ex_counted := False\<rparr>))"
    "tk_cmd t = BuiltinCommand VersionCommand"
proof -
  let ?E = ref_executor
  have h: "ew_holds ref_holds ([], {}, 0) (ex_world s) nothing_stored" using assms by simp
  obtain w where f: "Find (pv_Aliases (xe_services ?E)) (xe_registry ?E) version_request (ex_world s) =
      ((map_option hub_cmd (map_of (xe_registry ?E) (req_Command version_request)), version_request), w)"
    by (rule ref_exec.find_without_alias [OF h _ ref_registry(2)]) (auto simp: nothing_stored_def)
  have c: "Check (xe_auth ?E) version_request (authorization_of (BuiltinCommand VersionCommand)) = Ret None"
    by (simp add: Check_builtin [OF Configure_configured] admin_builtins_def private_builtins_def)
  obtain j w' where n: "js_Null (pv_Jobs (xe_services ?E)) version_request w = (j, w')" by fastforce
  have "run_request ?E version_request s =
      Ret (s\<lparr>ex_world := w', ex_sending := Some \<lparr>tk_job = j, tk_cmd = BuiltinCommand VersionCommand\<rparr>, ex_counted := False\<rparr>)"
    using f c n by (simp add: run_request_def ref_registry version_request_def builtin_hub_def createTask_def builtin_getters
      del: ref_executor_simps builtin_struct.simps)
  with exec_step.received [OF assms(3), of ?E version_request] that show thesis by simp
qed

lemma New_executor_ok [simp]:
  "ex_world (New_executor v) = \<lparr>ew_store = v, ew_active = [], ew_cancelled = {}, ew_contexts = 0\<rparr>"
  "ex_sending (New_executor v) = None" "ex_queue (New_executor v) = []" "ex_goroutines (New_executor v) = []"
  "ex_wg (New_executor v) = 0" "ex_replies (New_executor v) = []" "\<not> ex_closed (New_executor v)"
  "\<not> ex_waited (New_executor v)" "\<not> ex_counted (New_executor v)"
  by (simp_all add: New_executor_def)

text \<open>A run of one command, from the request to the end of its goroutine.\<close>

definition no_answers :: answers where
  "no_answers = ((\<lambda>_ _ _. NotStarted (Errorf [])), ContextDone (Errorf []))"

definition one_command :: "exec_event list" where
  "one_command = [TaskCounted, TaskSent, TaskTaken, Began 0, Ended 0 no_answers, Released 0]"

lemma exec_trace_Cons:
  "exec_trace E Q s' evs s'' \<Longrightarrow> exec_step E s ev (Ret s') \<Longrightarrow> Q s ev \<Longrightarrow> exec_trace E Q s (ev # evs) s''"
proof (induction rule: exec_trace.induct)
  case no_step
  then show ?case using exec_trace.one_more [OF exec_trace.no_step, of E s ev s' Q] by simp
next
  case (one_more evs t ev' t')
  then show ?case using exec_trace.one_more [of E Q s "ev # evs" t ev' t'] by simp
qed

lemma exec_trace_append: "exec_trace E Q s' evs' s'' \<Longrightarrow> exec_trace E Q s evs s' \<Longrightarrow> exec_trace E Q s (evs @ evs') s''"
proof (induction rule: exec_trace.induct)
  case (one_more evs' t ev t')
  then show ?case using exec_trace.one_more [of E Q s "evs @ evs'" t ev t'] by simp
qed simp

lemma exec_trace_mono: "exec_trace E Q s evs s' \<Longrightarrow> (\<And>s ev. Q s ev \<Longrightarrow> R s ev) \<Longrightarrow> exec_trace E R s evs s'"
  by (induction rule: exec_trace.induct) (auto intro: exec_trace.intros)

lemma ref_one_command:
  assumes "ex_sending s = Some t" and "tk_cmd t = BuiltinCommand VersionCommand" and "ex_queue s = []"
    and "ex_goroutines s = []" and "\<not> ex_closed s" and "\<not> ex_counted s"
  obtains s' r where "exec_trace ref_executor (\<lambda>_. internal) s one_command s'" "ex_replies s' = ex_replies s @ [r]"
proof -
  let ?E = ref_executor
  define s0 where "s0 = s\<lparr>ex_wg := Suc (ex_wg s), ex_counted := True\<rparr>"
  define s1 where "s1 = s0\<lparr>ex_sending := None, ex_queue := [t]\<rparr>"
  define s2 where "s2 = s1\<lparr>ex_queue := [], ex_goroutines := [(t, Launched)]\<rparr>"
  define s3 where "s3 = begin_task ?E 0 t s2"
  obtain c where s3: "ex_goroutines s3 = [(t, RunningIn c)]" "ex_replies s3 = ex_replies s"
    by (simp add: s3_def s2_def s1_def s0_def begin_task_conv assms(2) builtin_getters del: builtin_struct.simps)
  have "\<exists>out. versionCommand_Execute (builtins_env ?E) (tk_job t) (ex_world s3) = (printing out, ex_world s3)"
    by (cases "be_version (builtins_env ?E)") (simp add: versionCommand_Execute_def)
  then obtain out where out: "versionCommand_Execute (builtins_env ?E) (tk_job t) (ex_world s3) = (printing out, ex_world s3)"
    by blast
  define s4 where "s4 = (Reply (WithOutput out (SuccessReply (xe_formatter ?E) (job_Request (tk_job t)))) s3)
    \<lparr>ex_world := snd (js_Succeed (pv_Jobs (xe_services ?E)) (job_ID (tk_job t)) (ex_world s3)), ex_wg := ex_wg s3 - 1,
     ex_goroutines := [(t, Releasing)]\<rparr>"
  have e: "end_task ?E no_answers 0 t s3 = Ret s4"
    by (simp add: end_task_def Let_def assms(2) out s3 s4_def)
  have "exec_step ?E s TaskCounted (Ret s0)"
    using exec_step.task_counted [of s t ?E] assms by (simp add: s0_def)
  moreover have "exec_step ?E s0 TaskSent (Ret s1)"
    using exec_step.task_sent [of s0 t ?E] assms by (simp add: s1_def s0_def)
  moreover have "exec_step ?E s1 TaskTaken (Ret s2)"
    using exec_step.task_taken [of s1 t "[]" ?E] assms by (simp add: s2_def s1_def s0_def)
  moreover have "exec_step ?E s2 (Began 0) (Ret s3)"
    using exec_step.began [of 0 s2 t ?E] by (simp add: s3_def s2_def)
  moreover have "exec_step ?E s3 (Ended 0 no_answers) (Ret s4)"
    using exec_step.ended [of 0 s3 t c ?E no_answers] s3 e by simp
  moreover have "exec_step ?E s4 (Released 0) (Ret (release_task 0 t s4))"
    by (rule exec_step.released) (simp_all add: s4_def)
  ultimately have "exec_trace ?E (\<lambda>_. internal) s one_command (release_task 0 t s4)"
    unfolding one_command_def by (intro exec_trace_Cons [rotated]) (auto intro: exec_trace.no_step)
  with that show thesis by (simp add: release_task_def s4_def s3)
qed

lemma ref_start:
  obtains s t where "exec_step ref_executor (New_executor ref_world) (Received version_request) (Ret s)"
    "ex_sending s = Some t" "tk_cmd t = BuiltinCommand VersionCommand" "ex_queue s = []" "ex_goroutines s = []"
    "ex_replies s = []" "\<not> ex_closed s" "\<not> ex_counted s"
proof -
  obtain w t where "exec_step ref_executor (New_executor ref_world) (Received version_request)
      (Ret ((New_executor ref_world)\<lparr>ex_world := w, ex_sending := Some t, ex_counted := False\<rparr>))"
    "tk_cmd t = BuiltinCommand VersionCommand"
    by (rule ref_accepts [of "New_executor ref_world"]) (simp_all add: ref_world_holds contexts_of_def)
  with that show thesis by simp
qed

section \<open>Properties\<close>

text \<open>
  C6: every request is answered exactly once. In every state the executor reaches, the replies it has sent, the
  handshakes aside, the tasks it counts in its wait group and a task just made that it is about to add
  there make up the requests it has received; and the wait group counts exactly the tasks that, once
  added, are being sent, queued or run.
\<close>

theorem one_reply_per_request:
  assumes "exec_trace E (\<lambda>_ _. True) (New_executor v) evs s"
  shows "length (filter (\<lambda>r. rp_action r \<noteq> Handshake) (ex_replies s)) + ex_wg s +
      (if ex_sending s \<noteq> None \<and> \<not> ex_counted s then 1 else 0) = length (filter is_request evs) \<and>
    ex_wg s = (if ex_sending s \<noteq> None \<and> ex_counted s then 1 else 0) + length (ex_queue s) +
      length (filter (\<lambda>(t, p). p \<noteq> Releasing) (ex_goroutines s))"
  using trace_counts [OF assms]
  by (auto simp: final_replies_def final_reply_def [abs_def] open_tasks_def uncounted_def active_def [abs_def] case_prod_unfold
      split: if_splits)

theorem one_reply_per_request_witness:
  "\<exists>s. exec_trace ref_executor (\<lambda>_ _. True) (New_executor ref_world) (Received version_request # one_command) s \<and>
    length (filter (\<lambda>r. rp_action r \<noteq> Handshake) (ex_replies s)) + ex_wg s +
      (if ex_sending s \<noteq> None \<and> \<not> ex_counted s then 1 else 0) = 1"
proof (rule ref_start)
  fix s t assume s: "exec_step ref_executor (New_executor ref_world) (Received version_request) (Ret s)"
    "ex_sending s = Some t" "tk_cmd t = BuiltinCommand VersionCommand" "ex_queue s = []" "ex_goroutines s = []"
    "\<not> ex_closed s" "\<not> ex_counted s"
  then obtain s' where "exec_trace ref_executor (\<lambda>_. internal) s one_command s'"
    using ref_one_command [of s t] by metis
  then have "exec_trace ref_executor (\<lambda>_ _. True) s one_command s'" by (rule exec_trace_mono) simp
  from exec_trace_Cons [OF this s(1)]
  have t: "exec_trace ref_executor (\<lambda>_ _. True) (New_executor ref_world) (Received version_request # one_command) s'"
    by simp
  have "length (filter is_request (Received version_request # one_command)) = 1" by (simp add: one_command_def)
  with one_reply_per_request [OF t] t show ?thesis by metis
qed

text \<open>
  C7: the executor always comes to an end with what it has accepted. From any state, the steps of \<open>Run\<close> with its task, of
  the dispatcher and of the goroutines are at most \<open>work\<close> many before a new request is needed, and when
  none of them is possible any more, nothing is left: no task is being sent, queued or run, the wait
  group is at zero and \<open>Shutdown\<close> does not wait.
\<close>

theorem executor_drains:
  assumes "exec_trace E (\<lambda>_ _. True) (New_executor v) evs s" and "0 < xe_capacity E"
    and "exec_trace E (\<lambda>_. internal) s evs' s'"
  shows "length evs' \<le> work s \<and>
    ((\<forall>ev r. internal ev \<longrightarrow> \<not> exec_step E s' ev r) \<longrightarrow>
      ex_sending s' = None \<and> ex_queue s' = [] \<and> ex_goroutines s' = [] \<and> ex_wg s' = 0)"
proof -
  have count: "ex_wg s' + uncounted s' = open_tasks s'" using assms(3)
  proof (induction rule: exec_trace.induct)
    case no_step
    then show ?case using trace_counts [OF assms(1)] by blast
  next
    case (one_more evs s' ev s'')
    then show ?case using step_counts(1) [OF one_more.hyps(2)] by blast
  qed
  show ?thesis
    using internal_trace_works [OF assms(3)] stuck_is_done [OF assms(2), of s'] count
    by (auto simp: open_tasks_def uncounted_def)
qed

theorem executor_drains_witness:
  "\<exists>s s'. exec_trace ref_executor (\<lambda>_ _. True) (New_executor ref_world) [Received version_request] s \<and>
    exec_trace ref_executor (\<lambda>_. internal) s one_command s' \<and> length one_command \<le> work s \<and> work s = 6"
proof (rule ref_start)
  fix s t assume s: "exec_step ref_executor (New_executor ref_world) (Received version_request) (Ret s)"
    "ex_sending s = Some t" "tk_cmd t = BuiltinCommand VersionCommand" "ex_queue s = []" "ex_goroutines s = []"
    "\<not> ex_closed s" "\<not> ex_counted s"
  then obtain s' where i: "exec_trace ref_executor (\<lambda>_. internal) s one_command s'"
    using ref_one_command [of s t] by metis
  have t: "exec_trace ref_executor (\<lambda>_ _. True) (New_executor ref_world) [Received version_request] s"
    using exec_trace_Cons [OF exec_trace.no_step s(1)] by simp
  have "work s = 6" using s by (simp add: work_def uncounted_def)
  with executor_drains [OF t _ i] t i show ?thesis by auto
qed

text \<open>
  C28: a request accepted after \<open>Shutdown\<close> brings the process down: \<open>Shutdown\<close> closes the channel but leaves the
  listeners and \<open>Run\<close> running, so \<open>Run\<close> accepts the request, takes no other before it has sent the task, and once
  it has counted the task, the only way on from there is to panic on the send.
\<close>

theorem accepted_after_shutdown_panics:
  assumes "exec_step E s ShutDown (Ret s1)" and "exec_step E s1 (Received req) (Ret s2)" and "ex_sending s2 = Some t"
  shows "\<exists>s3. (\<forall>r. exec_step E s2 TaskCounted r \<longleftrightarrow> r = Ret s3) \<and> (\<forall>r. \<not> exec_step E s2 TaskSent r) \<and>
    (\<forall>r. exec_step E s3 TaskSent r \<longleftrightarrow> r = Panic ''send on closed channel'') \<and>
    (\<forall>req' r. \<not> exec_step E s2 (Received req') r \<and> \<not> exec_step E s3 (Received req') r)"
proof -
  have "ex_closed s1" using assms(1) by cases auto
  moreover have "ex_closed s2 = ex_closed s1 \<and> \<not> ex_counted s2"
    using assms(2)
  proof cases
    case received
    from received(1) [symmetric] show ?thesis
      by (cases rule: run_request_cases) (use assms(3) received in simp_all)
  qed
  ultimately have closed: "ex_closed s2" "\<not> ex_counted s2" by simp_all
  let ?s3 = "s2\<lparr>ex_wg := Suc (ex_wg s2), ex_counted := True\<rparr>"
  have "exec_step E s2 TaskCounted r \<longleftrightarrow> r = Ret ?s3" for r
    using exec_step.task_counted [OF assms(3) closed(2)] by (auto elim: exec_stepE)
  moreover have "exec_step E ?s3 TaskSent r \<longleftrightarrow> r = Panic ''send on closed channel''" for r
    using exec_step.send_on_closed [of ?s3 t E] assms(3) closed(1) by (auto elim: exec_stepE)
  moreover have "\<not> exec_step E s2 TaskSent r" "\<not> exec_step E s2 (Received req') r" "\<not> exec_step E ?s3 (Received req') r" for r req'
    by (rule notI, erule exec_stepE, simp_all add: assms(3) closed(2))+
  ultimately show ?thesis by (intro exI [of _ ?s3]) simp
qed

theorem accepted_after_shutdown_panics_witness:
  "\<exists>s0 s1 s2 s3. exec_step ref_executor (New_executor ref_world) WaitReturned (Ret s0) \<and>
    exec_step ref_executor s0 ShutDown (Ret s1) \<and> exec_step ref_executor s1 (Received version_request) (Ret s2) \<and>
    exec_step ref_executor s2 TaskCounted (Ret s3) \<and> exec_step ref_executor s3 TaskSent (Panic ''send on closed channel'')"
proof -
  define s0 where "s0 = (New_executor ref_world)\<lparr>ex_waited := True\<rparr>"
  define s1 where "s1 = s0\<lparr>ex_closed := True\<rparr>"
  have w: "exec_step ref_executor (New_executor ref_world) WaitReturned (Ret s0)"
    unfolding s0_def by (rule exec_step.wait_returned) simp_all
  have a: "exec_step ref_executor s0 ShutDown (Ret s1)"
    unfolding s1_def by (rule exec_step.shut_down) (simp_all add: s0_def)
  obtain w t where b: "exec_step ref_executor s1 (Received version_request)
      (Ret (s1\<lparr>ex_world := w, ex_sending := Some t, ex_counted := False\<rparr>))"
    by (rule ref_accepts [of s1]) (simp_all add: s1_def s0_def ref_world_holds contexts_of_def)
  from accepted_after_shutdown_panics [OF a b, of t] obtain s3 where
    "exec_step ref_executor (s1\<lparr>ex_world := w, ex_sending := Some t, ex_counted := False\<rparr>) TaskCounted (Ret s3)"
    "exec_step ref_executor s3 TaskSent (Panic ''send on closed channel'')" by auto
  with w a b show ?thesis by blast
qed

end
