(* ===== verification/Cancelling.thy ===== *)
theory Cancelling
  imports Tasks "HOL-Library.Multiset"
begin

text \<open>
  Whose commands can be cancelled, and by whom: what a command leaves of the store, the invariant that ties
  the running tasks to the stored jobs and to the active commands, and that a running job is
  cancelled by its owner or an administrator and by nobody else, in every interleaving.
\<close>

section \<open>What a command leaves of the jobs\<close>

lemma valid_utf8_join: "valid_utf8 sep \<Longrightarrow> list_all valid_utf8 xs \<Longrightarrow> valid_utf8 (strings_join sep xs)"
  by (induction sep xs rule: strings_join.induct) (auto intro!: valid_utf8_append)

lemma snd_result: "snd (case x of (Inl e, w) \<Rightarrow> (f e w, w) | (Inr y, w) \<Rightarrow> (g y w, w)) = snd x"
  by (simp split: prod.split sum.split)

lemma alias_commands_world:
  "snd (newAliasCommand_Execute E j w) = (case args_of j of
     n # c # rest \<Rightarrow> snd (as_Create (pv_Aliases (be_providers E)) (req_UserID (job_Request j)) n c rest w) | _ \<Rightarrow> w)"
  "snd (deleteAliasCommand_Execute E j w) = (case args_of j of
     [n] \<Rightarrow> snd (as_Remove (pv_Aliases (be_providers E)) (req_UserID (job_Request j)) n w) | _ \<Rightarrow> w)"
  "snd (getAliasesCommand_Execute E j w) = snd (as_List (pv_Aliases (be_providers E)) (req_UserID (job_Request j)) w)"
  by (simp_all add: newAliasCommand_Execute_def deleteAliasCommand_Execute_def getAliasesCommand_Execute_def snd_result
      split: list.split)

lemma token_commands_world:
  "snd (newAPITokenCommand_Execute E j w) = (case args_of j of
     u # c # x # xs \<Rightarrow> snd (ts_Create (pv_APITokens (be_providers E)) u c (strings_join '' '' (x # xs)) w) | _ \<Rightarrow> w)"
  "snd (revokeAPITokenCommand_Execute E j w) = (case args_of j of
     [i] \<Rightarrow> snd (ts_Revoke (pv_APITokens (be_providers E)) i w) | _ \<Rightarrow> w)"
  by (simp_all add: newAPITokenCommand_Execute_def revokeAPITokenCommand_Execute_def snd_result
      split: list.split prod.split)

context services
begin

lemma aliases_keep:
  assumes "holds w a" and "json_request (job_Request j)" and "be_providers E = P"
    and "b \<in> {NewAliasCommand, DeleteAliasCommand, GetAliasesCommand}"
  shows "\<exists>a'. holds (snd (builtin_Execute b E j w)) a' \<and> st_jobs a' = st_jobs a"
proof -
  have "\<exists>a'. holds (snd (as_Create (pv_Aliases P) u n c rest w)) a' \<and> st_jobs a' = st_jobs a"
    if "args_of j = n # c # rest" for u n c rest
  proof -
    have json: "json_alias \<lparr>al_Alias = n, al_Command = c, al_Args = rest\<rparr>"
      using assms(2) that by (simp add: json_request_def json_alias_def)
    obtain r w' where c: "as_Create (pv_Aliases P) u n c rest w = (r, w')" by fastforce
    then show ?thesis
      using create_alias [OF assms(1) json] create_alias_fails [OF assms(1)] by (cases r) fastforce+
  qed
  moreover have "\<exists>a'. holds (snd (as_Remove (pv_Aliases P) u n w)) a' \<and> st_jobs a' = st_jobs a" for u n
  proof -
    obtain r w' where c: "as_Remove (pv_Aliases P) u n w = (r, w')" by fastforce
    then show ?thesis
      using remove_alias [OF assms(1)] remove_alias_fails [OF assms(1)] by (cases r) fastforce+
  qed
  moreover have "\<exists>a'. holds (snd (as_List (pv_Aliases P) u w)) a' \<and> st_jobs a' = st_jobs a" for u
  proof -
    obtain r w' where c: "as_List (pv_Aliases P) u w = (r, w')" by fastforce
    then show ?thesis using list_aliases [OF assms(1)] list_aliases_fails [OF assms(1)] by (cases r) fastforce+
  qed
  ultimately show ?thesis
    using assms(1,3,4) by (auto simp: alias_commands_world split: list.split)
qed

lemma tokens_keep:
  assumes "holds w a" and "json_request (job_Request j)" and "be_providers E = P"
    and "b \<in> {NewAPITokenCommand, ListAPITokensCommand, RevokeAPITokenCommand}"
  shows "\<exists>a'. holds (snd (builtin_Execute b E j w)) a' \<and> st_jobs a' = st_jobs a"
proof -
  have "\<exists>a'. holds (snd (ts_Create (pv_APITokens P) u c (strings_join '' '' (x # xs)) w)) a' \<and> st_jobs a' = st_jobs a"
    if "args_of j = u # c # x # xs" for u c x xs
  proof -
    have "valid_utf8 (strings_join '' '' (x # xs))"
      by (rule valid_utf8_join) (use assms(2) that in \<open>simp_all add: json_request_def valid_utf8_ascii\<close>)
    then have v: "list_all valid_utf8 [u, c, strings_join '' '' (x # xs)]"
      using assms(2) that by (simp add: json_request_def)
    obtain i e w' where "ts_Create (pv_APITokens P) u c (strings_join '' '' (x # xs)) w = ((i, e), w')"
      by (metis prod.exhaust)
    then show ?thesis
      using create_token [OF assms(1) v] create_token_fails [OF assms(1)] by (cases e) fastforce+
  qed
  moreover have "\<exists>a'. holds (snd (ts_Revoke (pv_APITokens P) i w)) a' \<and> st_jobs a' = st_jobs a" for i
  proof -
    obtain r w' where "ts_Revoke (pv_APITokens P) i w = (r, w')" by fastforce
    then show ?thesis
      using revoke_token [OF assms(1)] revoke_token_fails [OF assms(1)] by (cases r) fastforce+
  qed
  moreover have "snd (listAPITokensCommand_Execute E j w) = w"
    using assms(3) by (simp add: listAPITokensCommand_Execute_def find_tokens [OF assms(1)] split: prod.split)
  ultimately show ?thesis
    using assms(1,3,4) by (auto simp: token_commands_world split: list.split)
qed

lemma readers_keep:
  assumes "holds w a" and "be_providers E = P"
    and "b \<in> {VersionCommand, HelpCommand, GroupsCommand, JobsCommand, FindJobCommand, AuditCommand, AuditJobCommand,
      AuditLogsCommand, LastCommand, TailCommand, HeadCommand, LogsCommand}"
  shows "snd (builtin_Execute b E j w) = w"
proof -
  have "snd (versionCommand_Execute E j w) = w" "snd (groupsCommand_Execute E j w) = w"
    by (simp_all add: versionCommand_Execute_def groupsCommand_Execute_def split: prod.split run.split)
  moreover have "snd (helpCommand_Execute E j w) = w"
    by (simp add: helpCommand_Execute_def Let_def split: prod.split list.split option.split)
  moreover have "snd (jobsCommand_Execute E j w) = w" "snd (lastCommand_Execute E j w) = w"
    "snd (findJobCommand_Execute E j w) = w" "snd (logsCommand_Execute E j w) = w" "snd (auditLogsCommand_Execute E j w) = w"
    by (simp_all add: jobs_shows [OF assms(2,1)] last_shows [OF assms(2,1)] job_shows [OF assms(2,1)]
        logs_shows [OF assms(2,1)] auditlogs_shows [OF assms(2,1)])
  moreover have "snd (auditCommand_Execute E j w) = w"
    using assms(2) by (simp add: auditCommand_Execute_def Let_def find_filtered [OF assms(1)] split: prod.split option.split)
  moreover have "snd (auditJobCommand_Execute E j w) = w"
    using assms(2) by (simp add: auditJobCommand_Execute_def find_by_id [OF assms(1)] split: sum.split option.split)
  ultimately have readers: "b \<in> {VersionCommand, HelpCommand, GroupsCommand, JobsCommand, FindJobCommand, AuditCommand,
      AuditJobCommand, AuditLogsCommand, LastCommand, LogsCommand} \<Longrightarrow> ?thesis" by auto
  have "snd (selected_job E j rest w) = w" for rest
    using assms(2) by (simp add: selected_job_def findLastJobIDForUser_def find_own [OF assms(1)] take_int_def
      split: sum.split list.split)
  then have "\<exists>r. selected_job E j rest w = (r, w)" for rest by (metis prod.collapse)
  then obtain r where "selected_job E j rest w = (r rest, w)" for rest by metis
  moreover have "snd (log_outcome (l, w)) = w" for l by (cases l) simp_all
  ultimately have "snd (tailCommand_Execute E j w) = w" "snd (headCommand_Execute E j w) = w"
    using assms(2)
    by (simp_all add: tailCommand_Execute_def headCommand_Execute_def tail_log [OF assms(1)] head_log [OF assms(1)]
        split: prod.split sum.split)
  with readers assms(3) show ?thesis by auto
qed

text \<open>Every builtin but \<open>cancel\<close> and \<open>kill\<close> leaves the jobs alone.\<close>

lemma builtin_keeps:
  assumes "holds w a" and "json_request (job_Request j)" and "be_providers E = P"
    and "b \<notin> {CancelJobCommand, KillJobCommand}"
  obtains a' where "holds (snd (builtin_Execute b E j w)) a'" "st_jobs a' = st_jobs a"
proof -
  consider "b \<in> {NewAliasCommand, DeleteAliasCommand, GetAliasesCommand}"
    | "b \<in> {NewAPITokenCommand, ListAPITokensCommand, RevokeAPITokenCommand}"
    | "b \<in> {VersionCommand, HelpCommand, GroupsCommand, JobsCommand, FindJobCommand, AuditCommand, AuditJobCommand,
        AuditLogsCommand, LastCommand, TailCommand, HeadCommand, LogsCommand}"
    using assms(4) by (cases b) auto
  then show thesis
  proof cases
    case 1
    from aliases_keep [OF assms(1-3) this] that show thesis by blast
  next
    case 2
    from tokens_keep [OF assms(1-3) this] that show thesis by blast
  next
    case 3
    from readers_keep [OF assms(1,3) this] that [of a] assms(1) show thesis by (simp del: builtin_Execute.simps)
  qed
qed

end

context log_service
begin

lemma append_keeps:
  assumes "holds w a" and "Suc (length (fst (log_of (st_logs a) i))) < max_lines"
  obtains a' where "holds (snd (lw_Append W i l w)) a'" "st_jobs a' = st_jobs a"
    "length (fst (log_of (st_logs a') i)) \<le> Suc (length (fst (log_of (st_logs a) i)))"
proof -
  obtain r w' where w': "lw_Append W i l w = (r, w')" by fastforce
  show thesis
  proof (cases r)
    case (Inl e)
    with append_fails [OF assms(1)] w' that [of a] show thesis by simp
  next
    case (Inr u)
    show thesis
    proof (cases "l = []")
      case True
      with append_nothing [OF assms(1), of i] w' that [of a] show thesis by auto
    next
      case False
      let ?a = "a\<lparr>st_logs := (st_logs a)(i \<mapsto> (fst (log_of (st_logs a) i) @ [l], snd (log_of (st_logs a) i)))\<rparr>"
      have "holds w' ?a" using append_log [OF assms(1) False assms(2)] w' Inr by simp
      with w' that [of ?a] show thesis by (simp add: log_of_def)
    qed
  qed
qed

lemma append_all_keeps:
  "holds w a \<Longrightarrow> length (fst (log_of (st_logs a) i)) + length ls < max_lines \<Longrightarrow>
   \<exists>a'. holds (fold (\<lambda>l w. snd (lw_Append W i l w)) ls w) a' \<and> st_jobs a' = st_jobs a"
proof (induction ls arbitrary: w a)
  case (Cons l ls)
  from Cons.prems(2) have "Suc (length (fst (log_of (st_logs a) i))) < max_lines" by simp
  then obtain a1 where a1: "holds (snd (lw_Append W i l w)) a1" "st_jobs a1 = st_jobs a"
    "length (fst (log_of (st_logs a1) i)) \<le> Suc (length (fst (log_of (st_logs a) i)))"
    by (rule append_keeps [OF Cons.prems(1)])
  from Cons.IH [OF a1(1)] a1(3) Cons.prems(2) have
    "\<exists>a'. holds (fold (\<lambda>l w. snd (lw_Append W i l w)) ls (snd (lw_Append W i l w))) a' \<and> st_jobs a' = st_jobs a1" by simp
  with a1(2) show ?case by simp
qed auto

lemma set_error_keeps:
  assumes "holds w a"
  shows "\<exists>a'. holds (snd (lw_SetError W i x w)) a' \<and> st_jobs a' = st_jobs a"
proof (cases x)
  case None
  with set_no_error [OF assms, of i] assms show ?thesis by auto
next
  case (Some t)
  obtain r w' where "lw_SetError W i (Some t) w = (r, w')" by fastforce
  then show ?thesis using set_error [OF assms] set_error_fails [OF assms] Some by (cases r) fastforce+
qed

end

text \<open>What a process prints before it ends or is given up.\<close>

fun printed :: "process \<Rightarrow> string" where
  "printed (Interrupted out e) = out"
| "printed (Finished out err_out e) = out @ err_out"
| "printed _ = []"

context log_service
begin

lemma shell_keeps:
  assumes "holds w a"
    and "length (fst (log_of (st_logs a) (job_ID j))) +
      length (scan_lines (printed (run (opts_GetCmd c) (opts_GetArgs c @ args_of j) (opts_GetTimeout c)))) < max_lines"
  shows "\<exists>a'. holds (snd (shellCommand_Execute W run c j w)) a' \<and> st_jobs a' = st_jobs a"
proof -
  let ?p = "run (opts_GetCmd c) (opts_GetArgs c @ args_of j) (opts_GetTimeout c)"
  let ?w = "fold (\<lambda>l w. snd (lw_Append W (job_ID j) l w)) (scan_lines (printed ?p)) w"
  obtain a1 where a1: "holds ?w a1" "st_jobs a1 = st_jobs a" using append_all_keeps [OF assms] by blast
  have "snd (shellCommand_Execute W run c j w) \<in> {snd (lw_SetError W (job_ID j) x v) | x v. v \<in> {w, ?w}} \<union> {?w}"
    by (cases ?p; auto simp: shellCommand_Execute_def Let_def AppendLogs_fold shell_SetError_def split: option.split; fastforce)
  then show ?thesis
    using set_error_keeps [OF assms(1)] set_error_keeps [OF a1(1)] a1 by auto
qed

end

section \<open>The requests of the stored jobs\<close>

definition req_of :: "stored \<Rightarrow> u64 \<Rightarrow> request option" where
  "req_of a i = map_option job_Request (st_jobs a i)"

lemma req_of_jobs: "st_jobs a' = st_jobs a \<Longrightarrow> req_of a' = req_of a"
  by (simp add: req_of_def fun_eq_iff)

lemma req_of_upd: "req_of (a\<lparr>st_jobs := (st_jobs a)(i \<mapsto> j)\<rparr>) = (req_of a)(i \<mapsto> job_Request j)"
  by (simp add: req_of_def fun_eq_iff)

context job_service
begin

lemma finish_keeps:
  assumes "holds w a"
  shows "\<exists>a'. holds (snd (js_Fail S i w)) a' \<and> req_of a' = req_of a"
    and "\<exists>a'. holds (snd (js_Succeed S i w)) a' \<and> req_of a' = req_of a"
proof -
  have same: "req_of (a\<lparr>st_jobs := (st_jobs a)(i \<mapsto> j\<lparr>job_EndTime := t, job_Status := x\<rparr>)\<rparr>) = req_of a"
    if "st_jobs a i = Some j" for j t x
    using that by (simp add: req_of_upd req_of_def fun_eq_iff)
  obtain r w' where w': "js_Fail S i w = (r, w')" by fastforce
  show "\<exists>a'. holds (snd (js_Fail S i w)) a' \<and> req_of a' = req_of a"
  proof (cases r)
    case (Inr u)
    with fail_job [OF assms] w' obtain j t where "st_jobs a i = Some j"
      "holds w' (a\<lparr>st_jobs := (st_jobs a)(i \<mapsto> j\<lparr>job_EndTime := t, job_Status := JobFailedStatus\<rparr>)\<rparr>)" by blast
    with same w' show ?thesis by auto
  qed (use finish_fails(2) [OF assms] w' in auto)
  obtain r w' where w': "js_Succeed S i w = (r, w')" by fastforce
  show "\<exists>a'. holds (snd (js_Succeed S i w)) a' \<and> req_of a' = req_of a"
  proof (cases r)
    case (Inr u)
    with succeed_job [OF assms] w' obtain j t where "st_jobs a i = Some j"
      "holds w' (a\<lparr>st_jobs := (st_jobs a)(i \<mapsto> j\<lparr>job_EndTime := t, job_Status := JobSuccessStatus\<rparr>)\<rparr>)" by blast
    with same w' show ?thesis by auto
  qed (use finish_fails(1) [OF assms] w' in auto)
qed

end

context alias_service
begin

lemma find_keeps: "holds w a \<Longrightarrow> Find S cmds req w = ((f, req'), w') \<Longrightarrow> holds w' a"
proof -
  assume h: "holds w a" and f: "Find S cmds req w = ((f, req'), w')"
  obtain r w1 where g: "as_Get S (req_UserID req) (req_Command req) w = (r, w1)" by fastforce
  have "holds w1 a"
    using g get_alias [OF h, of _ _ "fst x" "snd x" for x] get_alias_fails [OF h] by (cases r) fastforce+
  with f g show "holds w' a" by (auto simp: Find_def split: sum.splits option.splits)
qed

end

section \<open>The invariant\<close>

text \<open>The tasks that have not left the executor, with distinct identifiers as far as they are recorded.\<close>

abbreviation task_id :: "task \<Rightarrow> u64" where
  "task_id t \<equiv> job_ID (tk_job t)"

definition tasks_of :: "'v executor \<Rightarrow> task list" where
  "tasks_of s = (case ex_sending s of None \<Rightarrow> [] | Some t \<Rightarrow> [t]) @ ex_queue s @ map fst (ex_goroutines s)"

definition distinct_ids :: "task list \<Rightarrow> bool" where
  "distinct_ids ts \<longleftrightarrow> distinct (filter (\<lambda>i. i \<noteq> 0) (map task_id ts))"

lemma distinct_ids_Cons [simp]:
  "distinct_ids (t # ts) \<longleftrightarrow> distinct_ids ts \<and> (task_id t \<noteq> 0 \<longrightarrow> task_id t \<notin> task_id ` set ts)"
  by (auto simp: distinct_ids_def)

lemma distinct_ids_mset: "mset ts = mset us \<Longrightarrow> distinct_ids ts \<longleftrightarrow> distinct_ids us"
  unfolding distinct_ids_def
  by (rule mset_eq_imp_distinct_iff) simp

lemma mset_split: "k < length xs \<Longrightarrow> mset xs = add_mset (xs ! k) (mset (take k xs @ drop (Suc k) xs))"
  using arg_cong [OF id_take_nth_drop, of k xs mset] by simp

definition task_ok :: "'v executor_env \<Rightarrow> stored \<Rightarrow> task \<Rightarrow> bool" where
  "task_ok E a t \<longleftrightarrow> json_request (job_Request (tk_job t)) \<and>
     (task_id t \<noteq> 0 \<longrightarrow> req_of a (task_id t) = Some (job_Request (tk_job t))) \<and>
     Check (xe_auth E) (job_Request (tk_job t)) (authorization_of (tk_cmd t)) = Ret None"

text \<open>
  A recorded task that runs has its own context: it is registered under its identifier until it is
  cancelled, and never under another one.
\<close>

definition contexts_ok :: "'v exec_world \<Rightarrow> (task \<times> phase) list \<Rightarrow> bool" where
  "contexts_ok w gs \<longleftrightarrow>
     (\<forall>i c. map_of (ew_active w) i = Some c \<longrightarrow> c < ew_contexts w) \<and>
     (\<forall>t c. (t, RunningIn c) \<in> set gs \<longrightarrow> task_id t \<noteq> 0 \<longrightarrow>
        c < ew_contexts w \<and> (\<forall>i. map_of (ew_active w) i = Some c \<longrightarrow> i = task_id t) \<and>
        (c \<notin> ew_cancelled w \<longrightarrow> map_of (ew_active w) (task_id t) = Some c))"

definition exec_ok :: "'v executor_env \<Rightarrow> ('v \<Rightarrow> stored \<Rightarrow> bool) \<Rightarrow> 'v executor \<Rightarrow> stored \<Rightarrow> bool" where
  "exec_ok E holds s a \<longleftrightarrow> holds (ew_store (ex_world s)) a \<and> (\<forall>t \<in> set (tasks_of s). task_ok E a t) \<and>
     distinct_ids (tasks_of s) \<and> contexts_ok (ex_world s) (ex_goroutines s)"

lemma contexts_ok_store: "contexts_of w' = contexts_of w \<Longrightarrow> contexts_ok w' gs = contexts_ok w gs"
  by (simp add: contexts_ok_def contexts_of_def)

lemma contexts_ok_subset: "contexts_ok w gs \<Longrightarrow> (\<And>t c. (t, RunningIn c) \<in> set gs' \<Longrightarrow> (t, RunningIn c) \<in> set gs) \<Longrightarrow>
    contexts_ok w gs'"
  unfolding contexts_ok_def by blast

lemma contexts_ok_cancel: "contexts_ok w gs \<Longrightarrow> contexts_ok (activeCommands_Cancel i w) gs"
  unfolding contexts_ok_def activeCommands_Cancel_def by (auto split: option.split)

lemma task_ok_requests: "task_ok E a t \<Longrightarrow> req_of a' = req_of a \<Longrightarrow> task_ok E a' t"
  by (simp add: task_ok_def)

lemma set_update_cases:
  assumes "k < length gs" and "x \<in> set (gs[k := y])"
  shows "x = y \<or> x \<in> set (take k gs @ drop (Suc k) gs)"
  using assms by (auto simp: upd_conv_take_nth_drop)

lemma distinct_at:
  assumes "k < length gs" and "distinct_ids (map fst gs)" and "task_id (fst (gs ! k)) \<noteq> 0"
    and "x \<in> set (take k gs @ drop (Suc k) gs)"
  shows "task_id (fst x) \<noteq> task_id (fst (gs ! k))"
proof -
  let ?t = "fst (gs ! k)"
  have "mset (map fst gs) = mset (?t # map fst (take k gs @ drop (Suc k) gs))"
    using arg_cong [OF mset_split [OF assms(1)], of "image_mset fst"] by (simp only: mset_map mset.simps image_mset_add_mset)
  from iffD1 [OF distinct_ids_mset [OF this] assms(2)] assms(3)
  have "task_id ?t \<notin> task_id ` set (map fst (take k gs @ drop (Suc k) gs))"
    unfolding distinct_ids_Cons by blast
  with assms(4) show ?thesis by (metis image_eqI list.set_map)
qed

lemma contexts_ok_add:
  assumes "contexts_ok w gs" and "k < length gs" and "distinct_ids (map fst gs)"
  shows "contexts_ok (snd (activeCommands_Add (task_id (fst (gs ! k))) w)) (gs[k := (fst (gs ! k), RunningIn (ew_contexts w))])"
proof -
  let ?t = "fst (gs ! k)"
  have old: "x \<in> set gs" if "x \<in> set (take k gs @ drop (Suc k) gs)" for x
    using that by (auto dest: in_set_takeD in_set_dropD)
  have ok: "c < Suc (ew_contexts w) \<and> (\<forall>i. ((map_of (ew_active w))(task_id ?t \<mapsto> ew_contexts w)) i = Some c \<longrightarrow> i = task_id t) \<and>
      (c \<notin> ew_cancelled w \<longrightarrow> ((map_of (ew_active w))(task_id ?t \<mapsto> ew_contexts w)) (task_id t) = Some c)"
    if t: "(t, RunningIn c) \<in> set (gs[k := (?t, RunningIn (ew_contexts w))])" "task_id t \<noteq> 0" for t c
  proof -
    from set_update_cases [OF assms(2) t(1)] show ?thesis
    proof
      assume "(t, RunningIn c) = (?t, RunningIn (ew_contexts w))"
      with assms(1) show ?thesis by (auto simp: contexts_ok_def)
    next
      assume o: "(t, RunningIn c) \<in> set (take k gs @ drop (Suc k) gs)"
      then have "task_id t \<noteq> task_id ?t" using distinct_at [OF assms(2,3) _ o] t(2) by fastforce
      moreover from assms(1) old [OF o] t(2) have "c < ew_contexts w"
        "\<And>i. map_of (ew_active w) i = Some c \<Longrightarrow> i = task_id t"
        "c \<notin> ew_cancelled w \<Longrightarrow> map_of (ew_active w) (task_id t) = Some c"
        unfolding contexts_ok_def by blast+
      ultimately show ?thesis by auto
    qed
  qed
  with assms(1) show ?thesis
    unfolding contexts_ok_def activeCommands_Add_def by (auto simp: less_Suc_eq)
qed

section \<open>Orderly runs\<close>

text \<open>
  The stores keep their contracts while the resolved requests are valid UTF-8, an identifier is left for
  another job, and the logs have room for the lines that come in.
\<close>

definition log_space :: "('v \<Rightarrow> stored \<Rightarrow> bool) \<Rightarrow> 'v exec_world \<Rightarrow> u64 \<Rightarrow> nat \<Rightarrow> bool" where
  "log_space holds w i n \<longleftrightarrow>
     (\<forall>a. holds (ew_store w) a \<longrightarrow> length (fst (log_of (st_logs a) i)) + n < max_lines)"

fun orderly :: "'v executor_env \<Rightarrow> ('v \<Rightarrow> stored \<Rightarrow> bool) \<Rightarrow> ('v \<Rightarrow> bool) \<Rightarrow> 'v executor \<Rightarrow> exec_event \<Rightarrow> bool" where
  "orderly E holds room s (Received req) \<longleftrightarrow>
     (case Find (pv_Aliases (xe_services E)) (xe_registry E) req (ex_world s) of
        ((f, req'), w) \<Rightarrow> json_request req' \<and>
          (case f of None \<Rightarrow> True | Some c \<Rightarrow> cs_MustRecord (getters c) \<longrightarrow> room (ew_store w)))"
| "orderly E holds room s (Ended k ans) \<longleftrightarrow>
     (case fst (ex_goroutines s ! k) of t \<Rightarrow>
        (case tk_cmd t of
           ShellCommand c \<Rightarrow> log_space holds (ex_world s) (task_id t)
             (length (scan_lines (printed (fst ans (opts_GetCmd c) (opts_GetArgs c @ args_of (tk_job t)) (opts_GetTimeout c)))))
         | _ \<Rightarrow> True))"
| "orderly E holds room s (RemoteLog (LogEntry i l)) \<longleftrightarrow> log_space holds (ex_world s) i 1"
| "orderly E holds room s _ \<longleftrightarrow> True"

text \<open>The identifier whose context a command of a job cancels.\<close>

definition cancels :: "stored \<Rightarrow> command \<Rightarrow> job \<Rightarrow> u64 option" where
  "cancels a c j =
     (if c \<in> {BuiltinCommand CancelJobCommand, BuiltinCommand KillJobCommand} then
        (case parseJobID (args_of j) of
           Inl e \<Rightarrow> None
         | Inr i \<Rightarrow> (case req_of a i of
             None \<Rightarrow> None
           | Some r \<Rightarrow> if c = BuiltinCommand CancelJobCommand \<and> req_Username r \<noteq> user_of j then None else Some i))
      else None)"

definition after_cancel :: "u64 option \<Rightarrow> 'v exec_world \<Rightarrow> 'v exec_world" where
  "after_cancel x w = (case x of None \<Rightarrow> w | Some i \<Rightarrow> activeCommands_Cancel i w)"

lemma cancel_store [simp]: "ew_store (activeCommands_Cancel i w) = ew_store w" "ew_store (after_cancel x w) = ew_store w"
  by (simp_all add: activeCommands_Cancel_def after_cancel_def split: option.split)

lemma contexts_ok_after_cancel: "contexts_ok w gs \<Longrightarrow> contexts_ok (after_cancel x w) gs"
  by (simp add: after_cancel_def contexts_ok_cancel split: option.split)

locale orderly_executor = services "xe_providers E" holds room
  for E :: "'v executor_env" and holds :: "'v \<Rightarrow> stored \<Rightarrow> bool" and room :: "'v \<Rightarrow> bool"
begin

lemma lifted: "services (xe_services E) (ew_holds holds k) (ew_room room)"
  by (rule exec_services_ok) (rule services_axioms)

lemma lifted_parts:
  "job_service (pv_Jobs (xe_services E)) (ew_holds holds k) (ew_room room)"
  "log_service (pv_LogReader (xe_services E)) (pv_LogWriter (xe_services E)) (ew_holds holds k)"
  "alias_service (pv_Aliases (xe_services E)) (ew_holds holds k)"
  using lifted [of k] by (simp_all add: services_def)

lemma command_keeps:
  assumes "holds (ew_store w) a" and "json_request (job_Request j)"
    and "\<And>o1. c = ShellCommand o1 \<Longrightarrow> log_space holds w (job_ID j)
      (length (scan_lines (printed (fst ans (opts_GetCmd o1) (opts_GetArgs o1 @ args_of j) (opts_GetTimeout o1)))))"
  shows "\<exists>a'. holds (ew_store (snd (command_Execute E ans c j w))) a' \<and> st_jobs a' = st_jobs a \<and>
    contexts_of (snd (command_Execute E ans c j w)) = contexts_of (after_cancel (cancels a c j) w)"
proof (cases c)
  case (ShellCommand o1)
  let ?n = "length (scan_lines (printed (fst ans (opts_GetCmd o1) (opts_GetArgs o1 @ args_of j) (opts_GetTimeout o1))))"
  have "length (fst (log_of (st_logs a) (job_ID j))) + ?n < max_lines"
    using assms(3) [OF ShellCommand] assms(1) unfolding log_space_def by blast
  from log_service.shell_keeps [where run = "fst ans" and c = o1 and j = j and w = w, OF lifted_parts(2) [of "contexts_of w"] _ this]
  obtain a' where a': "ew_holds holds (contexts_of w)
      (snd (shellCommand_Execute (pv_LogWriter (xe_services E)) (fst ans) o1 j w)) a'" "st_jobs a' = st_jobs a"
    using assms(1) by blast
  from a' ShellCommand show ?thesis
    by (intro exI [of _ a']) (simp add: cancels_def after_cancel_def)
next
  case (RemoteCommand o1 i)
  with assms(1) show ?thesis by (auto simp: cancels_def after_cancel_def)
next
  case (BuiltinCommand b)
  let ?E = "builtins_env E"
  have env: "be_providers ?E = xe_services E" "be_cancel ?E = activeCommands_Cancel" by (simp_all add: builtins_env_def)
  show ?thesis
  proof (cases "b \<in> {CancelJobCommand, KillJobCommand}")
    case False
    obtain a' where a': "ew_holds holds (contexts_of w) (snd (builtin_Execute b ?E j w)) a'" "st_jobs a' = st_jobs a"
      by (rule services.builtin_keeps [OF lifted [of "contexts_of w"] _ assms(2) env(1) False, of w a]) (use assms(1) in auto)
    from a' False BuiltinCommand show ?thesis
      by (intro exI [of _ a']) (simp add: cancels_def after_cancel_def del: builtin_Execute.simps)
  next
    case True
    have h: "ew_holds holds (contexts_of w) w a" using assms(1) by simp
    have "snd (builtin_Execute b ?E j w) = after_cancel (cancels a c j) w"
      using True BuiltinCommand
      by (auto simp: services.cancel_effect [OF lifted env(1) h] services.kill_effect [OF lifted env(1) h] env(2)
          cancels_def after_cancel_def jobs_where_def isUser_def req_of_def dom_def split: sum.split option.split)
    with BuiltinCommand assms(1) show ?thesis by auto
  qed
qed

lemma end_task_ok:
  assumes ok: "exec_ok E holds s a" and k: "k < length (ex_goroutines s)" "ex_goroutines s ! k = (t, RunningIn c)"
    and "orderly E holds room s (Ended k ans)" and e: "end_task E ans k t s = Ret s'"
  obtains a' where "exec_ok E holds s' a'"
    "contexts_of (ex_world s') = contexts_of (after_cancel (cancels a (tk_cmd t) (tk_job t)) (ex_world s))"
proof -
  let ?x = "cancels a (tk_cmd t) (tk_job t)" and ?r = "command_Execute E ans (tk_cmd t) (tk_job t) (ex_world s)"
  have t: "t \<in> set (tasks_of s)" using k nth_mem [OF k(1)] by (force simp: tasks_of_def)
  have h: "holds (ew_store (ex_world s)) a" "task_ok E a t" "contexts_ok (ex_world s) (ex_goroutines s)"
    using ok t by (simp_all add: exec_ok_def)
  have "json_request (job_Request (tk_job t))" using h(2) by (simp add: task_ok_def)
  from command_keeps [OF h(1) this, of "tk_cmd t" ans] assms(4) k obtain a1 where
    a1: "holds (ew_store (snd ?r)) a1" "st_jobs a1 = st_jobs a" "contexts_of (snd ?r) = contexts_of (after_cancel ?x (ex_world s))"
    by (auto split: command.splits)
  have w: "ex_world s' \<in> {snd (js_Fail (pv_Jobs (xe_services E)) (task_id t) (snd ?r)),
      snd (js_Succeed (pv_Jobs (xe_services E)) (task_id t) (snd ?r))}"
    and g: "ex_goroutines s' = (ex_goroutines s)[k := (t, Releasing)]" "ex_sending s' = ex_sending s" "ex_queue s' = ex_queue s"
    using e by (cases rule: end_task_cases; simp)+
  from w job_service.finish_keeps [OF lifted_parts(1) [of "contexts_of (snd ?r)"], of "snd ?r" a1 "task_id t"] a1(1) obtain a2 where
    a2: "holds (ew_store (ex_world s')) a2" "req_of a2 = req_of a1" "contexts_of (ex_world s') = contexts_of (snd ?r)"
    by auto
  have m: "map fst (ex_goroutines s') = map fst (ex_goroutines s)"
    using k g(1) by (simp add: map_update list_update_same_conv)
  then have "tasks_of s' = tasks_of s" using g by (simp add: tasks_of_def)
  moreover have "contexts_ok (ex_world s') (ex_goroutines s')"
    unfolding contexts_ok_store [OF trans [OF a2(3) a1(3)]] g(1)
    by (rule contexts_ok_subset [OF contexts_ok_after_cancel [OF h(3)]])
       (use k(1) in \<open>auto dest!: set_update_subset_insert [THEN subsetD]\<close>)
  moreover have "task_ok E a2 x" if "x \<in> set (tasks_of s)" for x
    using task_ok_requests [of E a x a2] ok that req_of_jobs [OF a1(2)] a2(2) by (simp add: exec_ok_def)
  ultimately have "exec_ok E holds s' a2"
    using ok a2 by (simp add: exec_ok_def)
  with that a2(3) a1(3) show thesis by simp
qed

lemma createTask_fails:
  assumes "ew_holds holds k w a" and "createTask E req c w = (Fails e, w')"
  shows "ew_holds holds k w' a"
  using assms(2) job_service.create_fails [OF lifted_parts(1) assms(1), of req e w']
  by (auto simp: createTask_def split: prod.splits sum.splits if_splits)

lemma createTask_ok:
  assumes "holds (ew_store w) a" and "cs_MustRecord (getters c) \<Longrightarrow> room (ew_store w)" and "json_request req"
    and "Check (xe_auth E) req (authorization_of c) = Ret None" and "createTask E req c w = (Returns t, w')"
  shows "\<exists>a'. holds (ew_store w') a' \<and> task_ok E a' t \<and> contexts_of w' = contexts_of w \<and>
    (if task_id t = 0 then req_of a' = req_of a
     else req_of a (task_id t) = None \<and> req_of a' = (req_of a)(task_id t \<mapsto> req))"
proof (cases "cs_MustRecord (getters c)")
  case False
  obtain j where n: "js_Null (pv_Jobs (xe_services E)) req w = (j, w')" "t = \<lparr>tk_job = j, tk_cmd = c\<rparr>"
    using False assms(5) by (auto simp: createTask_def split: prod.splits)
  from job_service.null_job [OF lifted_parts(1) [of "contexts_of w"] _ n(1), of a] assms(1)
  have "ew_holds holds (contexts_of w) w' a" "job_ID j = 0" "job_Request j = req" by auto
  with n(2) assms(3,4) show ?thesis by (auto simp: task_ok_def)
next
  case True
  obtain j where x: "js_Create (pv_Jobs (xe_services E)) req w = (Returns j, w')" "t = \<lparr>tk_job = j, tk_cmd = c\<rparr>"
    using True assms(5) by (auto simp: createTask_def split: prod.splits sum.splits)
  with job_service.create_job [OF lifted_parts(1) [of "contexts_of w"], of w a req j w'] assms(1,3) assms(2) [OF True]
  have c: "ew_holds holds (contexts_of w) w' (a\<lparr>st_jobs := (st_jobs a)(job_ID j \<mapsto> j)\<rparr>)"
    "st_jobs a (job_ID j) = None" "job_ID j \<noteq> 0" "job_Request j = req" by auto
  have "req_of a (job_ID j) = None" using c(2) by (simp add: req_of_def)
  with c x(2) assms(3,4) show ?thesis
    by (auto simp: task_ok_def req_of_upd intro!: exI [of _ "a\<lparr>st_jobs := (st_jobs a)(job_ID j \<mapsto> j)\<rparr>"])
qed

lemma run_request_ok:
  assumes ok: "exec_ok E holds s a" and idle: "ex_sending s = None"
    and o: "orderly E holds room s (Received req)" and r: "run_request E req s = Ret s'"
  obtains a' where "exec_ok E holds s' a'" "contexts_of (ex_world s') = contexts_of (ex_world s)"
proof -
  let ?w = "ex_world s"
  have h: "ew_holds holds (contexts_of ?w) ?w a" using ok by (simp add: exec_ok_def)
  have found: "ew_holds holds (contexts_of ?w) w0 a"
    if "Find (pv_Aliases (xe_services E)) (xe_registry E) req ?w = ((f, req'), w0)" for f req' w0
    by (rule alias_service.find_keeps [OF lifted_parts(3) h that])
  from r show thesis
  proof (cases rule: run_request_cases)
    case (replied f req' w0 m w)
    have w0: "ew_holds holds (contexts_of ?w) w0 a" by (rule found [OF replied(1)])
    from replied(2) have w: "holds (ew_store w) a" "contexts_of w = contexts_of ?w"
      using w0 createTask_fails [OF w0] by blast+
    then show thesis
      using that [of a] ok replied(4) contexts_ok_store [OF w(2)] by (simp add: exec_ok_def tasks_of_def)
  next
    case (accepted c req' w0 t w')
    have w0: "ew_holds holds (contexts_of ?w) w0 a" by (rule found [OF accepted(1)])
    from o accepted(1) have o': "cs_MustRecord (getters c) \<Longrightarrow> room (ew_store w0)" "json_request req'" by simp_all
    from createTask_ok [OF _ o' accepted(2,3)] w0 obtain a' where
      a': "holds (ew_store w') a'" "task_ok E a' t" "contexts_of w' = contexts_of ?w"
        "if task_id t = 0 then req_of a' = req_of a
         else req_of a (task_id t) = None \<and> req_of a' = (req_of a)(task_id t \<mapsto> req')"
      by auto
    have old: "task_ok E a' u" "task_id t \<noteq> 0 \<Longrightarrow> task_id t \<noteq> task_id u" if "u \<in> set (tasks_of s)" for u
    proof -
      have u: "task_ok E a u" using ok that by (simp add: exec_ok_def)
      with a'(4) show "task_id t \<noteq> 0 \<Longrightarrow> task_id t \<noteq> task_id u" by (auto simp: task_ok_def)
      with a'(4) u show "task_ok E a' u" by (auto simp: task_ok_def split: if_splits)
    qed
    have "tasks_of s' = t # tasks_of s" using accepted(4) idle by (simp add: tasks_of_def)
    with a' ok old accepted(4) have "exec_ok E holds s' a'"
      using contexts_ok_store [OF a'(3)] by (auto simp: exec_ok_def)
    with that a'(3) accepted(4) show thesis by simp
  qed
qed

lemma exec_ok_mono:
  assumes "exec_ok E holds s a" and "mset (tasks_of s') \<subseteq># mset (tasks_of s)" and "holds (ew_store (ex_world s')) a'"
    and "req_of a' = req_of a" and "contexts_ok (ex_world s') (ex_goroutines s')"
  shows "exec_ok E holds s' a'"
proof -
  from assms(2) have sub: "set (tasks_of s') \<subseteq> set (tasks_of s)" by (metis set_mset_mono set_mset_mset)
  from assms(2) obtain us where "mset (tasks_of s) = mset (tasks_of s' @ us)"
    by (metis ex_mset mset_append subset_mset.le_iff_add)
  then have "distinct_ids (tasks_of s' @ us)" using assms(1) distinct_ids_mset unfolding exec_ok_def by blast
  then have "distinct_ids (tasks_of s')" by (simp add: distinct_ids_def)
  with sub assms(1,3-5) task_ok_requests [of E a _ a'] show ?thesis unfolding exec_ok_def by blast
qed

lemma step_ok:
  assumes ok: "exec_ok E holds s a" and st: "exec_step E s ev (Ret s')" and o: "orderly E holds room s ev"
  shows "\<exists>a'. exec_ok E holds s' a'"
proof -
  have h: "holds (ew_store (ex_world s)) a" "contexts_ok (ex_world s) (ex_goroutines s)"
    using ok by (simp_all add: exec_ok_def)
  show ?thesis
    using st
  proof cases
    case (received req)
    from run_request_ok [OF ok received(3) _ received(2) [symmetric]] o received(1) show ?thesis by blast
  next
    case (task_sent t)
    then have "exec_ok E holds s' a"
      by (intro exec_ok_mono [OF ok]) (simp_all add: h tasks_of_def)
    then show ?thesis ..
  next
    case (task_taken t q)
    then have "exec_ok E holds s' a"
      by (intro exec_ok_mono [OF ok]) (auto simp: h tasks_of_def intro: contexts_ok_subset [OF h(2)] split: option.split)
    then show ?thesis ..
  next
    case (began k t)
    then have m: "map fst ((ex_goroutines s)[k := (t, p)]) = map fst (ex_goroutines s)" for p
      by (simp add: map_update list_update_same_conv)
    have d: "distinct_ids (map fst (ex_goroutines s))"
      using ok by (simp add: exec_ok_def tasks_of_def distinct_ids_def)
    from contexts_ok_add [OF h(2) began(3) d] began have "exec_ok E holds s' a"
      by (intro exec_ok_mono [OF ok]) (simp_all add: h tasks_of_def begin_task_conv m activeCommands_Add_def)
    then show ?thesis ..
  next
    case (ended k t c ans)
    from end_task_ok [OF ok ended(3,4) _ ended(2) [symmetric]] o ended(1) show ?thesis by blast
  next
    case (released k t)
    have "mset (map fst (ex_goroutines s)) = add_mset t (mset (map fst (take k (ex_goroutines s) @ drop (Suc k) (ex_goroutines s))))"
      using arg_cong [OF mset_split [OF released(3)], of "image_mset fst"] released(4)
      by (simp only: mset_map image_mset_add_mset fst_conv)
    then have "mset (tasks_of s') \<subseteq># mset (tasks_of s)"
      using released by (simp add: tasks_of_def release_task_def)
    moreover have "contexts_ok (ex_world s') (ex_goroutines s')"
      unfolding released(2) release_task_def
      by (auto intro!: contexts_ok_subset [OF contexts_ok_cancel [OF h(2)]] dest: in_set_takeD in_set_dropD)
    ultimately have "exec_ok E holds s' a"
      using released by (intro exec_ok_mono [OF ok]) (simp_all add: h release_task_def)
    then show ?thesis ..
  next
    case (task_counted t)
    then have "exec_ok E holds s' a" by (intro exec_ok_mono [OF ok]) (simp_all add: h tasks_of_def)
    then show ?thesis ..
  next
    case wait_returned
    then have "exec_ok E holds s' a" by (intro exec_ok_mono [OF ok]) (simp_all add: h tasks_of_def)
    then show ?thesis ..
  next
    case shut_down
    then have "exec_ok E holds s' a" by (intro exec_ok_mono [OF ok]) (simp_all add: h tasks_of_def)
    then show ?thesis ..
  next
    case (remote_log x)
    show ?thesis
    proof (cases x)
      case (LogEntry i l)
      have "log_space holds (ex_world s) i 1" using o remote_log(1) LogEntry by simp
      with h(1) have "Suc (length (fst (log_of (st_logs a) i))) < max_lines" by (auto simp: log_space_def)
      from log_service.append_keeps [OF lifted_parts(2) [of "contexts_of (ex_world s)"] _ this, of "ex_world s" l] h(1)
      obtain a' where a': "ew_holds holds (contexts_of (ex_world s))
          (snd (lw_Append (pv_LogWriter (xe_services E)) i l (ex_world s))) a'" "st_jobs a' = st_jobs a" by auto
      have s': "s' = s\<lparr>ex_world := snd (lw_Append (pv_LogWriter (xe_services E)) i l (ex_world s))\<rparr>"
        using remote_log LogEntry by simp
      have "exec_ok E holds s' a'"
        by (rule exec_ok_mono [OF ok])
           (simp_all add: s' tasks_of_def contexts_ok_store [OF conjunct2 [OF a'(1)]] h(2) conjunct1 [OF a'(1)]
             req_of_jobs [OF a'(2)])
      then show ?thesis ..
    qed (use ok remote_log in auto)
  qed
qed

lemma trace_ok:
  "exec_trace E (orderly E holds room) (New_executor v) evs s \<Longrightarrow> holds v a \<Longrightarrow> \<exists>a'. exec_ok E holds s a'"
proof (induction rule: exec_trace.induct)
  case no_step
  then have "exec_ok E holds (New_executor v) a"
    by (simp add: exec_ok_def tasks_of_def distinct_ids_def contexts_ok_def)
  then show ?case ..
next
  case (one_more evs s' ev s'')
  then show ?case using step_ok by blast
qed

text \<open>Which steps cancel the context of a running recorded task.\<close>

lemma step_cancels:
  assumes ok: "exec_ok E holds s a" and st: "exec_step E s ev (Ret s')" and o: "orderly E holds room s ev"
    and t: "(t, RunningIn c) \<in> set (ex_goroutines s)" "task_id t \<noteq> 0" "c \<notin> ew_cancelled (ex_world s)"
  shows "c \<in> ew_cancelled (ex_world s') \<longleftrightarrow> (\<exists>k ans t' c'. ev = Ended k ans \<and> k < length (ex_goroutines s) \<and>
    ex_goroutines s ! k = (t', RunningIn c') \<and> cancels a (tk_cmd t') (tk_job t') = Some (task_id t))"
proof -
  have h: "holds (ew_store (ex_world s)) a" "contexts_ok (ex_world s) (ex_goroutines s)"
    and d: "distinct_ids (map fst (ex_goroutines s))"
    using ok by (simp_all add: exec_ok_def tasks_of_def distinct_ids_def)
  have own: "map_of (ew_active (ex_world s)) (task_id t) = Some c"
    "\<And>i. map_of (ew_active (ex_world s)) i = Some c \<Longrightarrow> i = task_id t"
    using h(2) t unfolding contexts_ok_def by blast+
  have hit: "c \<in> ew_cancelled (activeCommands_Cancel i (ex_world s)) \<longleftrightarrow> i = task_id t" for i
  proof (cases "map_of (ew_active (ex_world s)) i")
    case None
    with own(1) have "i \<noteq> task_id t" by auto
    with None t(3) show ?thesis by (simp add: activeCommands_Cancel_def)
  next
    case (Some c')
    with own(1) own(2) [of i] have "c' = c \<longleftrightarrow> i = task_id t" by auto
    with Some t(3) show ?thesis by (auto simp: activeCommands_Cancel_def)
  qed
  show ?thesis
    using st
  proof cases
    case (received req)
    from run_request_ok [OF ok received(3) _ received(2) [symmetric]] o received(1)
    have "contexts_of (ex_world s') = contexts_of (ex_world s)" by blast
    with t(3) received(1) show ?thesis by (simp add: contexts_of_def)
  next
    case (began k u)
    with t(3) show ?thesis by (simp add: begin_task_conv activeCommands_Add_def)
  next
    case (ended k u c' ans)
    from end_task_ok [OF ok ended(3,4) _ ended(2) [symmetric]] o ended(1)
    have "contexts_of (ex_world s') = contexts_of (after_cancel (cancels a (tk_cmd u) (tk_job u)) (ex_world s))" by blast
    then have "ew_cancelled (ex_world s') = ew_cancelled (after_cancel (cancels a (tk_cmd u) (tk_job u)) (ex_world s))"
      by (simp add: contexts_of_def)
    with hit t(3) have "c \<in> ew_cancelled (ex_world s') \<longleftrightarrow> cancels a (tk_cmd u) (tk_job u) = Some (task_id t)"
      by (simp add: after_cancel_def split: option.split)
    with ended show ?thesis by auto
  next
    case (released k u)
    have "(t, RunningIn c) \<in> set (take k (ex_goroutines s) @ ex_goroutines s ! k # drop (Suc k) (ex_goroutines s))"
      using t(1) id_take_nth_drop [OF released(3)] by simp
    then have "(t, RunningIn c) \<in> set (take k (ex_goroutines s) @ drop (Suc k) (ex_goroutines s))"
      using released(4) by auto
    from distinct_at [OF released(3) d _ this] released(4) t(2) have "task_id u \<noteq> task_id t" by auto
    with hit [of "task_id u"] released show ?thesis by (simp add: release_task_def)
  next
    case (remote_log x)
    show ?thesis
    proof (cases x)
      case (LogEntry i l)
      have "log_space holds (ex_world s) i 1" using o remote_log(1) LogEntry by simp
      with h(1) have "Suc (length (fst (log_of (st_logs a) i))) < max_lines" by (auto simp: log_space_def)
      from log_service.append_keeps [OF lifted_parts(2) [of "contexts_of (ex_world s)"] _ this, of "ex_world s" l] h(1)
      have "contexts_of (snd (lw_Append (pv_LogWriter (xe_services E)) i l (ex_world s))) = contexts_of (ex_world s)" by blast
      with remote_log LogEntry t(3) show ?thesis by (simp add: contexts_of_def)
    qed (use remote_log t(3) in auto)
  qed (use t(3) in auto)
qed

end

section \<open>Properties\<close>

text \<open>
  C4: a running command is cancelled by its owner or by an administrator, and by nobody else. In every
  orderly run of the executor, whatever its goroutines interleave to, the context of a recorded job
  that runs is cancelled by exactly the following steps: a task ends that runs \<open>cancel\<close> with the
  identifier of that job on behalf of the user who started the job, or \<open>kill\<close> with that identifier on
  behalf of a user of the group of administrators.
\<close>

theorem only_owner_or_admin_cancels:
  assumes "services (xe_providers E) holds room" and "configured (xe_auth E) cfg" and "holds v a"
    and "exec_trace E (orderly E holds room) (New_executor v) evs s"
    and "orderly E holds room s ev" and "exec_step E s ev (Ret s')"
    and "(t, RunningIn c) \<in> set (ex_goroutines s)" and "job_ID (tk_job t) \<noteq> 0" and "c \<notin> ew_cancelled (ex_world s)"
  shows "c \<in> ew_cancelled (ex_world s') \<longleftrightarrow>
    (\<exists>k ans t' c'. ev = Ended k ans \<and> k < length (ex_goroutines s) \<and> ex_goroutines s ! k = (t', RunningIn c') \<and>
      parseJobID (args_of (tk_job t')) = Returns (job_ID (tk_job t)) \<and>
      (tk_cmd t' = BuiltinCommand CancelJobCommand \<and> user_of (tk_job t') = user_of (tk_job t) \<or>
       tk_cmd t' = BuiltinCommand KillJobCommand \<and> is_admin cfg (user_of (tk_job t'))))"
proof -
  have loc: "orderly_executor E holds room" using assms(1) by (simp add: orderly_executor_def)
  obtain a' where ok: "exec_ok E holds s a'" using orderly_executor.trace_ok [OF loc assms(4,3)] by blast
  have task: "task_ok E a' u" if "(u, p) \<in> set (ex_goroutines s)" for u p
    using ok that by (force simp: exec_ok_def tasks_of_def)
  have r: "req_of a' (task_id t) = Some (job_Request (tk_job t))" using task [OF assms(7)] assms(8) by (simp add: task_ok_def)
  have "cancels a' (tk_cmd u) (tk_job u) = Some (task_id t) \<longleftrightarrow>
      parseJobID (args_of (tk_job u)) = Returns (task_id t) \<and>
      (tk_cmd u = BuiltinCommand CancelJobCommand \<and> user_of (tk_job u) = user_of (tk_job t) \<or>
       tk_cmd u = BuiltinCommand KillJobCommand \<and> is_admin cfg (user_of (tk_job u)))"
    if "(u, p) \<in> set (ex_goroutines s)" for u p
  proof -
    have "is_admin cfg (user_of (tk_job u))" if "tk_cmd u = BuiltinCommand KillJobCommand"
      using task [OF \<open>(u, p) \<in> set (ex_goroutines s)\<close>] that
      by (auto simp: task_ok_def Check_builtin [OF assms(2)] admin_builtins_def split: if_splits)
    then show ?thesis
      by (auto simp: cancels_def r split: sum.splits option.splits if_splits)
  qed
  then show ?thesis
    unfolding orderly_executor.step_cancels [OF loc ok assms(6,5,7-9)] by (metis nth_mem)
qed

section \<open>A configuration\<close>

interpretation ref_run: orderly_executor ref_executor ref_holds "job_room ref_view"
  using ref_env_services by (simp add: orderly_executor_def)

lemma accept_trace:
  assumes "run_request E req s = Ret (s\<lparr>ex_world := w, ex_sending := Some t, ex_counted := False\<rparr>)"
    and "ex_sending s = None" and "ex_queue s = []" and "\<not> ex_closed s" and "0 < xe_capacity E"
    and "Q s (Received req)" and "\<And>s. Q s TaskCounted" and "\<And>s. Q s TaskSent" and "\<And>s. Q s TaskTaken" and "\<And>s k. Q s (Began k)"
  obtains s' where "exec_trace E Q s [Received req, TaskCounted, TaskSent, TaskTaken, Began (length (ex_goroutines s))] s'"
    "ex_world s' = snd (activeCommands_Add (task_id t) w)"
    "ex_goroutines s' = ex_goroutines s @ [(t, RunningIn (ew_contexts w))]"
    "ex_sending s' = None" "ex_queue s' = []" "\<not> ex_closed s'"
proof -
  let ?k = "length (ex_goroutines s)"
  define s0 where "s0 = s\<lparr>ex_world := w, ex_sending := Some t, ex_counted := False\<rparr>"
  define s1 where "s1 = s0\<lparr>ex_wg := Suc (ex_wg s0), ex_counted := True\<rparr>"
  define s2 where "s2 = s1\<lparr>ex_sending := None, ex_queue := [t]\<rparr>"
  define s3 where "s3 = s2\<lparr>ex_queue := [], ex_goroutines := ex_goroutines s @ [(t, Launched)]\<rparr>"
  note defs = s0_def s1_def s2_def s3_def
  have a: "exec_step E s (Received req) (Ret s0)" using exec_step.received [OF assms(2), of E req] assms(1) by (simp add: s0_def)
  have a': "exec_step E s0 TaskCounted (Ret s1)" using exec_step.task_counted [of s0 t E] by (simp add: defs)
  have b: "exec_step E s1 TaskSent (Ret s2)"
    using exec_step.task_sent [of s1 t E] assms(3-5) by (simp add: defs)
  have c: "exec_step E s2 TaskTaken (Ret s3)"
    using exec_step.task_taken [of s2 t "[]" E] by (simp add: defs)
  have d: "exec_step E s3 (Began ?k) (Ret (begin_task E ?k t s3))"
    by (rule exec_step.began) (simp_all add: defs)
  have "exec_trace E Q s3 [Began ?k] (begin_task E ?k t s3)"
    by (rule exec_trace_Cons [where Q = Q, OF exec_trace.no_step d assms(10)])
  from exec_trace_Cons [where Q = Q, OF exec_trace_Cons [where Q = Q, OF exec_trace_Cons [where Q = Q, OF
      exec_trace_Cons [where Q = Q, OF this c assms(9)] b assms(8)] a' assms(7)] a assms(6)]
  show thesis by (rule that) (simp_all add: begin_task_conv defs assms(4) list_update_append)
qed

lemma ref_find:
  assumes "ref_holds (ew_store w) a" and "st_aliases a = st_aliases nothing_stored"
  obtains w' where "Find (pv_Aliases (xe_services ref_executor)) (xe_registry ref_executor) req w =
      ((map_option hub_cmd (map_of (xe_registry ref_executor) (req_Command req)), req), w')"
    "ref_holds (ew_store w') a" "contexts_of w' = contexts_of w" "wd_db (ew_store w') = wd_db (ew_store w)"
proof -
  let ?S = "pv_Aliases (xe_services ref_executor)" and ?cmds = "xe_registry ref_executor"
  have h: "ew_holds ref_holds (contexts_of w) w a" using assms(1) by simp
  have none: "st_aliases a (req_UserID req) (req_Command req) = None" using assms(2) by (simp add: nothing_stored_def)
  obtain w' where f: "Find ?S ?cmds req w = ((map_option hub_cmd (map_of ?cmds (req_Command req)), req), w')"
    "ew_holds ref_holds (contexts_of w) w' a"
    by (rule alias_service.find_without_alias [OF ref_run.lifted_parts(3) h none ref_registry(2)])
  obtain r v where g: "as_Get (local_aliases ref_bolt ref_codec) (req_UserID req) (req_Command req) (ew_store w) = (r, v)" by fastforce
  obtain e where e: "r = Inl e"
    using ref_stores.local_get_alias [OF assms(1), of "req_UserID req" "req_Command req"] g none by (cases r) auto
  have same: "aliases_get ref_bolt ref_codec u n s = (Inl e, s') \<Longrightarrow> s' = s" for u n s s'
    by (auto simp: aliases_get_def Update_def split: handle.splits sum.splits option.splits)
  have "as_Get ?S (req_UserID req) (req_Command req) w = (Inl e, w\<lparr>ew_store := v\<rparr>)"
    using g e by (simp add: exec_services in_store_def local_providers_def)
  then have "w' = w\<lparr>ew_store := v\<rparr>" using f(1) by (simp add: Find_def ref_registry(2))
  moreover have "wd_db v = wd_db (ew_store w)"
    using g e same by (auto simp: local_aliases_def with_db_def split: prod.splits)
  ultimately show thesis using that f by simp
qed

definition sleep_request :: request where
  "sleep_request = zero_request\<lparr>req_Username := ''bob'', req_Command := ''sleep''\<rparr>"

definition cancel_request :: "u64 \<Rightarrow> request" where
  "cancel_request i = zero_request\<lparr>req_Username := ''bob'', req_Command := ''cancel'', req_Args := [show_u64 i]\<rparr>"

lemma ref_commands:
  "map_of (xe_registry ref_executor) (req_Command sleep_request) =
     Some \<lparr>hub_kind = KindLocalCommand, hub_cmd = ShellCommand sleep_opts\<rparr>"
  "map_of (xe_registry ref_executor) (req_Command (cancel_request i)) = Some (builtin_hub CancelJobCommand)"
  by (simp_all add: ref_executor_def sleep_request_def cancel_request_def)

lemma ref_requests: "json_request sleep_request" "json_request (cancel_request i)"
proof -
  have "ascii_string (show_nat n)" for n
    by (induction n rule: show_nat.induct) (subst show_nat.simps, auto)
  then show "json_request sleep_request" "json_request (cancel_request i)"
    by (simp_all add: json_request_def sleep_request_def cancel_request_def zero_request_def valid_utf8_ascii show_u64_def)
qed

abbreviation ref_orderly :: "ref_db world executor \<Rightarrow> exec_event \<Rightarrow> bool" where
  "ref_orderly \<equiv> orderly ref_executor ref_holds (job_room ref_view)"

lemma ref_allowed:
  "Check (xe_auth ref_executor) sleep_request (authorization_of (ShellCommand sleep_opts)) = Ret None"
  "Check (xe_auth ref_executor) (cancel_request i) (authorization_of (BuiltinCommand CancelJobCommand)) = Ret None"
proof -
  have "authorization_of (ShellCommand sleep_opts) = authorization_of (BuiltinCommand CancelJobCommand)"
    unfolding builtin_authorization by (simp add: authorization_of_def opts_struct_def sleep_opts_def deploy_opts_def
      admin_builtins_def private_builtins_def strategy_names
      opts_GetAuthStrategy_def opts_GetChannelStrategy_def opts_GetAllowedGroups_def opts_GetAllowedChannels_def)
  then show "Check (xe_auth ref_executor) sleep_request (authorization_of (ShellCommand sleep_opts)) = Ret None"
    "Check (xe_auth ref_executor) (cancel_request i) (authorization_of (BuiltinCommand CancelJobCommand)) = Ret None"
    by (simp_all add: Check_builtin [OF Configure_configured] admin_builtins_def private_builtins_def)
qed

text \<open>A user starts \<open>sleep\<close>.\<close>

lemma ref_sleeping:
  obtains s t a where
    "exec_trace ref_executor ref_orderly (New_executor ref_world) [Received sleep_request, TaskCounted, TaskSent, TaskTaken, Began 0] s"
    "ex_goroutines s = [(t, RunningIn 0)]" "ex_sending s = None" "ex_queue s = []" "\<not> ex_closed s"
    "ref_holds (ew_store (ex_world s)) a" "st_aliases a = st_aliases nothing_stored"
    "task_id t \<noteq> 0" "user_of (tk_job t) = ''bob''" "ew_cancelled (ex_world s) = {}"
proof -
  let ?E = ref_executor and ?s = "New_executor ref_world"
  have "ref_holds (ew_store (ex_world ?s)) nothing_stored" by (simp add: ref_world_holds)
  then obtain w where f: "Find (pv_Aliases (xe_services ?E)) (xe_registry ?E) sleep_request (ex_world ?s) =
      ((map_option hub_cmd (map_of (xe_registry ?E) (req_Command sleep_request)), sleep_request), w)"
    "ref_holds (ew_store w) nothing_stored" "contexts_of w = contexts_of (ex_world ?s)" "wd_db (ew_store w) = wd_db ref_world"
    by (rule ref_find [where req = sleep_request]) simp_all
  have room: "job_room ref_view (ew_store w)" using ref_room f(4) by (simp add: job_room_def)
  obtain j v where c: "js_Create ref_jobs sleep_request (ew_store w) = (Returns j, v)"
  proof -
    have "\<exists>j v. js_Create ref_jobs sleep_request (ew_store w) = (Returns j, v)"
    proof (rule ref_stores.local_create_ok [OF f(2) room ref_requests(1)])
      fix i :: u64 and now p
      assume "json_time now" and "job_Marshal ref_codec ((jobs_null now sleep_request)\<lparr>job_ID := i\<rparr>) = Returns p"
      then show "value_ok p"
        by (elim ref_job_small) (simp_all add: jobs_null_def zero_job_def job_status_defs put_request_def zero_request_def
          sleep_request_def)
    qed
    with that show thesis by blast
  qed
  from ref_stores.local_create_job [OF f(2) room ref_requests(1) c]
  have j: "ref_holds v (nothing_stored\<lparr>st_jobs := (st_jobs nothing_stored)(job_ID j \<mapsto> j)\<rparr>)" "job_ID j \<noteq> 0"
    "job_Request j = sleep_request" by simp_all
  let ?t = "\<lparr>tk_job = j, tk_cmd = ShellCommand sleep_opts\<rparr>" and ?w = "w\<lparr>ew_store := v\<rparr>"
  have task: "createTask ?E sleep_request (ShellCommand sleep_opts) w = (Returns ?t, ?w)"
    using c by (simp add: createTask_def opts_struct_def exec_services in_store_def local_providers_def
      opts_MustRecord_def)
  have run: "run_request ?E sleep_request ?s = Ret (?s\<lparr>ex_world := ?w, ex_sending := Some ?t, ex_counted := False\<rparr>)"
    using f(1) task ref_commands(1) ref_allowed(1) by (simp add: run_request_def del: ref_executor_simps)
  have o: "ref_orderly ?s (Received sleep_request)" using f(1) room ref_requests(1) by (simp add: ref_commands)
  obtain s where s: "exec_trace ?E ref_orderly ?s [Received sleep_request, TaskCounted, TaskSent, TaskTaken, Began (length (ex_goroutines ?s))] s"
    "ex_world s = snd (activeCommands_Add (task_id ?t) ?w)"
    "ex_goroutines s = ex_goroutines ?s @ [(?t, RunningIn (ew_contexts ?w))]" "ex_sending s = None" "ex_queue s = []" "\<not> ex_closed s"
    by (rule accept_trace [where Q = ref_orderly, OF run _ _ _ _ o]) simp_all
  show thesis
    by (rule that [of s ?t "nothing_stored\<lparr>st_jobs := (st_jobs nothing_stored)(job_ID j \<mapsto> j)\<rparr>"])
       (use s f(3) j in \<open>simp_all add: activeCommands_Add_def contexts_of_def sleep_request_def\<close>)
qed

text \<open>The same user asks to cancel the job.\<close>

lemma ref_cancelling:
  assumes "ex_goroutines s = [(t, RunningIn c)]" "ex_sending s = None" "ex_queue s = []" "\<not> ex_closed s"
    and h: "ref_holds (ew_store (ex_world s)) a" and "st_aliases a = st_aliases nothing_stored"
  obtains s' t' c' where
    "exec_trace ref_executor ref_orderly s [Received (cancel_request i), TaskCounted, TaskSent, TaskTaken, Began 1] s'"
    "ex_goroutines s' = [(t, RunningIn c), (t', RunningIn c')]" "tk_cmd t' = BuiltinCommand CancelJobCommand"
    "job_Request (tk_job t') = cancel_request i" "ew_cancelled (ex_world s') = ew_cancelled (ex_world s)"
    "ref_holds (ew_store (ex_world s')) a"
proof -
  let ?E = ref_executor and ?r = "cancel_request i"
  obtain w where f: "Find (pv_Aliases (xe_services ?E)) (xe_registry ?E) ?r (ex_world s) =
      ((map_option hub_cmd (map_of (xe_registry ?E) (req_Command ?r)), ?r), w)"
    "ref_holds (ew_store w) a" "contexts_of w = contexts_of (ex_world s)" "wd_db (ew_store w) = wd_db (ew_store (ex_world s))"
    by (rule ref_find [OF h assms(6), where req = ?r])
  obtain j w' where n: "js_Null (pv_Jobs (xe_services ?E)) ?r w = (j, w')" by fastforce
  from job_service.null_job [OF ref_run.lifted_parts(1) [of "contexts_of w"] _ n, of a] f(2)
  have j: "ref_holds (ew_store w') a" "contexts_of w' = contexts_of w" "job_ID j = 0" "job_Request j = ?r" by auto
  let ?t = "\<lparr>tk_job = j, tk_cmd = BuiltinCommand CancelJobCommand\<rparr>"
  have task: "createTask ?E ?r (BuiltinCommand CancelJobCommand) w = (Returns ?t, w')"
    using n by (simp add: createTask_def builtin_getters del: ref_executor_simps builtin_struct.simps)
  have run: "run_request ?E ?r s = Ret (s\<lparr>ex_world := w', ex_sending := Some ?t, ex_counted := False\<rparr>)"
    using f(1) task ref_commands(2) [of i] ref_allowed(2) [of i]
    by (simp add: run_request_def builtin_hub_def del: ref_executor_simps)
  have o: "ref_orderly s (Received ?r)"
    using f(1) ref_requests(2) by (simp add: ref_commands builtin_hub_def builtin_getters del: builtin_struct.simps ref_executor_simps)
  obtain s' where s': "exec_trace ?E ref_orderly s [Received ?r, TaskCounted, TaskSent, TaskTaken, Began (length (ex_goroutines s))] s'"
    "ex_world s' = snd (activeCommands_Add (task_id ?t) w')"
    "ex_goroutines s' = ex_goroutines s @ [(?t, RunningIn (ew_contexts w'))]" "ex_sending s' = None" "ex_queue s' = []"
    "\<not> ex_closed s'"
    by (rule accept_trace [where Q = ref_orderly, OF run assms(2-4) _ o]) simp_all
  show thesis
    by (rule that [of s' ?t "ew_contexts w'"])
       (use s' assms(1) f(3) j in \<open>simp_all add: activeCommands_Add_def contexts_of_def\<close>)
qed

theorem only_owner_or_admin_cancels_witness:
  "\<exists>evs s s' t. exec_trace ref_executor ref_orderly (New_executor ref_world) evs s \<and>
    ex_goroutines s ! 0 = (t, RunningIn 0) \<and> 0 \<notin> ew_cancelled (ex_world s) \<and>
    exec_step ref_executor s (Ended 1 no_answers) (Ret s') \<and> 0 \<in> ew_cancelled (ex_world s')"
proof (rule ref_sleeping)
  fix s t a
  assume s: "exec_trace ref_executor ref_orderly (New_executor ref_world) [Received sleep_request, TaskCounted, TaskSent, TaskTaken, Began 0] s"
    "ex_goroutines s = [(t, RunningIn 0)]" "ex_sending s = None" "ex_queue s = []" "\<not> ex_closed s"
    "ref_holds (ew_store (ex_world s)) a" "st_aliases a = st_aliases nothing_stored"
    and t: "task_id t \<noteq> 0" "user_of (tk_job t) = ''bob''" "ew_cancelled (ex_world s) = {}"
  obtain s1 t' c' where
    s1: "exec_trace ref_executor ref_orderly s [Received (cancel_request (task_id t)), TaskCounted, TaskSent, TaskTaken, Began 1] s1"
    "ex_goroutines s1 = [(t, RunningIn 0), (t', RunningIn c')]" "tk_cmd t' = BuiltinCommand CancelJobCommand"
    "job_Request (tk_job t') = cancel_request (task_id t)" "ew_cancelled (ex_world s1) = ew_cancelled (ex_world s)"
    "ref_holds (ew_store (ex_world s1)) a"
    by (rule ref_cancelling [OF s(2-7)])
  have tr: "exec_trace ref_executor ref_orderly (New_executor ref_world)
      ([Received sleep_request, TaskCounted, TaskSent, TaskTaken, Began 0] @
       [Received (cancel_request (task_id t)), TaskCounted, TaskSent, TaskTaken, Began 1]) s1"
    by (rule exec_trace_append [OF s1(1) s(1)])
  have h: "ew_holds ref_holds (contexts_of (ex_world s1)) (ex_world s1) a" using s1(6) by simp
  have env: "be_providers (builtins_env ref_executor) = xe_services ref_executor" by (simp add: builtins_env_def)
  have p: "parseJobID (args_of (tk_job t')) = Returns (task_id t)"
    using parseJobID_show_u64 [of "task_id t" "[]"] by (simp add: s1(4) cancel_request_def)
  have "\<exists>s2. end_task ref_executor no_answers 1 t' s1 = Ret s2"
    by (cases "task_id t \<in> dom (jobs_of (user_of (tk_job t')) (st_jobs a))")
       (simp_all add: end_task_def Let_def s1(3) p services.cancel_effect [OF ref_run.lifted env h])
  then obtain s2 where e: "end_task ref_executor no_answers 1 t' s1 = Ret s2" ..
  have st: "exec_step ref_executor s1 (Ended 1 no_answers) (Ret s2)"
    using exec_step.ended [of 1 s1 t' c' ref_executor no_answers] s1(2) e by simp
  have o: "ref_orderly s1 (Ended 1 no_answers)" using s1(2,3) by simp
  have cfg: "configured (xe_auth ref_executor) [(''admin'', [''root''])]" by (simp add: Configure_configured)
  have sv: "services (xe_providers ref_executor) ref_holds (job_room ref_view)" using ref_env_services by simp
  have m: "(t, RunningIn 0) \<in> set (ex_goroutines s1)" using s1(2) by simp
  have n: "0 \<notin> ew_cancelled (ex_world s1)" using s1(5) t(3) by simp
  have "0 \<in> ew_cancelled (ex_world s2)"
    unfolding only_owner_or_admin_cancels [OF sv cfg ref_world_holds tr o st m t(1) n]
    by (intro exI [of _ 1] exI [of _ no_answers] exI [of _ t'] exI [of _ c'])
       (use s1(2-4) p t(2) in \<open>simp add: cancel_request_def\<close>)
  with tr st m n s1(2) show ?thesis by (metis nth_Cons_0)
qed

end
