(* ===== verification/Recorded.thy ===== *)
theory Recorded
  imports Cancelling
begin

text \<open>
  What the job store says of the executor: a job that is read as running is one whose task is still in the executor,
  and a recorded task that is in the executor is read as running.
\<close>

section \<open>Open tasks\<close>

text \<open>The tasks that \<open>Run\<close> sends, that wait in the channel, and whose command has not ended.\<close>

definition open_list :: "'v executor \<Rightarrow> task list" where
  "open_list s = (case ex_sending s of None \<Rightarrow> [] | Some t \<Rightarrow> [t]) @ ex_queue s @ map fst (filter active (ex_goroutines s))"

definition open_ids :: "'v executor \<Rightarrow> u64 set" where
  "open_ids s = task_id ` set (open_list s) - {0}"

lemma open_are_tasks: "set (open_list s) \<subseteq> set (tasks_of s)"
  by (auto simp: open_list_def tasks_of_def)

lemma open_ids_distinct:
  assumes "distinct_ids (tasks_of s)"
  shows "distinct_ids (open_list s)"
proof -
  have "mset (open_list s) \<subseteq># mset (tasks_of s)"
    by (simp add: open_list_def tasks_of_def image_mset_subseteq_mono multiset_filter_subset)
  then obtain us where "mset (tasks_of s) = mset (open_list s @ us)"
    by (metis ex_mset mset_append subset_mset.le_iff_add)
  with assms have "distinct_ids (open_list s @ us)" using distinct_ids_mset by blast
  then show ?thesis by (simp add: distinct_ids_def)
qed

lemma open_list_world [simp]: "open_list (s\<lparr>ex_world := w\<rparr>) = open_list s" "open_list (Reply r s) = open_list s"
  by (simp_all add: open_list_def)

text \<open>The end of a task takes its identifier out of the open ones, and no other.\<close>

lemma filter_update: "k < length xs \<Longrightarrow>
    filter P (xs[k := y]) = filter P (take k xs) @ (if P y then [y] else []) @ filter P (drop (Suc k) xs)"
  by (simp add: upd_conv_take_nth_drop)

lemma filter_split: "k < length xs \<Longrightarrow>
    filter P xs = filter P (take k xs) @ (if P (xs ! k) then [xs ! k] else []) @ filter P (drop (Suc k) xs)"
  by (metis filter_update list_update_id)

lemma open_ids_ended:
  assumes "distinct_ids (tasks_of s)" and k: "k < length (ex_goroutines s)" "ex_goroutines s ! k = (t, RunningIn c)"
    and "ex_goroutines s' = (ex_goroutines s)[k := (t, Releasing)]" "ex_sending s' = ex_sending s" "ex_queue s' = ex_queue s"
  shows "open_ids s' = open_ids s - {task_id t}"
proof -
  let ?us = "(case ex_sending s of None \<Rightarrow> [] | Some t \<Rightarrow> [t]) @ ex_queue s @
    map fst (take k (ex_goroutines s) @ drop (Suc k) (ex_goroutines s))"
  have "mset (map fst (ex_goroutines s)) = add_mset t (mset (map fst (take k (ex_goroutines s) @ drop (Suc k) (ex_goroutines s))))"
    using arg_cong [OF mset_split [OF k(1)], of "image_mset fst"] k(2) by (simp only: mset_map image_mset_add_mset fst_conv)
  then have "mset (tasks_of s) = mset (t # ?us)" by (simp add: tasks_of_def)
  then have "distinct_ids (t # ?us)" using assms(1) distinct_ids_mset by blast
  then have new: "task_id t \<noteq> 0 \<longrightarrow> task_id t \<notin> task_id ` set ?us" by simp
  have left: "open_list s' = (case ex_sending s of None \<Rightarrow> [] | Some t \<Rightarrow> [t]) @ ex_queue s @
      map fst (filter active (take k (ex_goroutines s)) @ filter active (drop (Suc k) (ex_goroutines s)))"
    using k(1) assms(4-6) by (simp add: open_list_def filter_update active_def)
  have "set (open_list s') \<subseteq> set ?us" unfolding left by auto
  with new have out: "task_id t \<noteq> 0 \<longrightarrow> task_id t \<notin> task_id ` set (open_list s')" by blast
  have "set (open_list s) = insert t (set (open_list s'))"
    unfolding left using filter_split [OF k(1), of active] k(2) by (auto simp: open_list_def active_def)
  with out show ?thesis unfolding open_ids_def by (simp add: image_insert) blast
qed

section \<open>The invariant\<close>

text \<open>The end of a recorded task is written to the store.\<close>

fun end_written :: "'v executor_env \<Rightarrow> 'v executor \<Rightarrow> exec_event \<Rightarrow> bool" where
  "end_written E s (Ended k ans) \<longleftrightarrow>
     (case fst (ex_goroutines s ! k) of t \<Rightarrow>
        (case command_Execute E ans (tk_cmd t) (tk_job t) (ex_world s) of
           ((out, e), w) \<Rightarrow> task_id t \<noteq> 0 \<longrightarrow>
             fst ((if e = None then js_Succeed (pv_Jobs (xe_providers E)) else js_Fail (pv_Jobs (xe_providers E)))
               (task_id t) (ew_store w)) = Returns ()))"
| "end_written E s _ \<longleftrightarrow> True"

text \<open>The open tasks are running in the store, and nothing else is if every end was written.\<close>

definition recorded_ok :: "bool \<Rightarrow> ('v \<Rightarrow> stored \<Rightarrow> bool) \<Rightarrow> 'v executor \<Rightarrow> bool" where
  "recorded_ok written holds s \<longleftrightarrow> (\<exists>a. holds (ew_store (ex_world s)) a \<and> open_ids s \<subseteq> running (st_jobs a) \<and>
     (written \<longrightarrow> running (st_jobs a) = open_ids s))"

context job_service
begin

text \<open>The store determines its jobs.\<close>

lemma jobs_unique: "holds w a \<Longrightarrow> holds w a' \<Longrightarrow> st_jobs a = st_jobs a'"
proof
  fix i assume "holds w a" "holds w a'"
  then have "(case st_jobs a i of None \<Rightarrow> Fails ErrNoJobWithID | Some j \<Rightarrow> Returns j) =
      (case st_jobs a' i of None \<Rightarrow> Fails ErrNoJobWithID | Some j \<Rightarrow> Returns j)"
    using get_job [of w a i] get_job [of w a' i] by simp
  then show "st_jobs a i = st_jobs a' i" by (auto split: option.splits)
qed

text \<open>The end of a job leaves the others running as they were.\<close>

lemma ending:
  assumes h: "holds w a" and f: "f \<in> {js_Succeed S, js_Fail S}"
  shows "\<exists>a'. holds (snd (f i w)) a' \<and> running (st_jobs a) - {i} \<subseteq> running (st_jobs a') \<and>
    (fst (f i w) = Returns () \<or> i \<notin> running (st_jobs a) \<longrightarrow> running (st_jobs a') = running (st_jobs a) - {i})"
proof (cases "fst (f i w)")
  case (Inl e)
  then have r: "f i w = (Fails e, snd (f i w))" by (metis prod.collapse)
  have "holds (snd (f i w)) a" using f r finish_fails [OF h, of i e "snd (f i w)"] by auto
  with Inl show ?thesis by auto
next
  case (Inr u)
  then have r: "f i w = (Returns u, snd (f i w))" by (metis prod.collapse)
  obtain j t st where "st_jobs a i = Some j" "st \<noteq> JobRunningStatus"
    "holds (snd (f i w)) (a\<lparr>st_jobs := (st_jobs a)(i \<mapsto> j\<lparr>job_EndTime := t, job_Status := st\<rparr>)\<rparr>)"
  proof (cases "f = js_Succeed S")
    case True
    with r succeed_job [OF h, of i u "snd (f i w)"] that [of _ JobSuccessStatus] show thesis by (auto simp: job_status_defs)
  next
    case False
    with f r fail_job [OF h, of i u "snd (f i w)"] that [of _ JobFailedStatus] show thesis by (auto simp: job_status_defs)
  qed
  then show ?thesis
    by (intro exI [of _ "a\<lparr>st_jobs := (st_jobs a)(i \<mapsto> j\<lparr>job_EndTime := t, job_Status := st\<rparr>)\<rparr>"]) (auto simp: running_upd)
qed

end

context orderly_executor
begin

lemma job_parts: "job_service (pv_Jobs (xe_providers E)) holds room"
  using services_axioms by (simp add: services_def)

lemma recorded_world:
  assumes "recorded_ok x holds s" and "holds (ew_store (ex_world s)) a"
  shows "open_ids s \<subseteq> running (st_jobs a)"
    and "x \<Longrightarrow> running (st_jobs a) = open_ids s"
  using assms job_service.jobs_unique [OF job_parts assms(2)] unfolding recorded_ok_def by metis+

lemma recorded_same:
  assumes "recorded_ok x holds s" and "holds (ew_store (ex_world s)) a" and "holds (ew_store (ex_world s')) a'"
    and "st_jobs a' = st_jobs a" and "open_ids s' = open_ids s"
  shows "recorded_ok x holds s'"
  using recorded_world [OF assms(1,2)] assms(3-5) unfolding recorded_ok_def by metis

lemma createTask_records:
  assumes "holds (ew_store w) a" and "cs_MustRecord (getters c) \<Longrightarrow> room (ew_store w)" and "json_request req"
    and "createTask E req c w = (Returns t, w')"
  obtains a' where "holds (ew_store w') a'" "running (st_jobs a') = running (st_jobs a) \<union> ({task_id t} - {0})"
proof (cases "cs_MustRecord (getters c)")
  case False
  obtain j where n: "js_Null (pv_Jobs (xe_services E)) req w = (j, w')" "t = \<lparr>tk_job = j, tk_cmd = c\<rparr>"
    using False assms(4) by (auto simp: createTask_def split: prod.splits)
  with job_service.null_job [OF lifted_parts(1) [of "contexts_of w"] _ n(1), of a] assms(1) show thesis
    by (intro that [of a]) auto
next
  case True
  obtain j where x: "js_Create (pv_Jobs (xe_services E)) req w = (Returns j, w')" "t = \<lparr>tk_job = j, tk_cmd = c\<rparr>"
    using True assms(4) by (auto simp: createTask_def split: prod.splits sum.splits)
  with job_service.create_job [OF lifted_parts(1) [of "contexts_of w"], of w a req j w'] assms(1,3) assms(2) [OF True]
  have "holds (ew_store w') (a\<lparr>st_jobs := (st_jobs a)(job_ID j \<mapsto> j)\<rparr>)" "job_ID j \<noteq> 0" "job_Status j = JobRunningStatus"
    by auto
  with x(2) show thesis by (intro that [of "a\<lparr>st_jobs := (st_jobs a)(job_ID j \<mapsto> j)\<rparr>"]) (simp_all add: running_upd)
qed

text \<open>A request that is accepted adds its task, to the executor and to the running jobs.\<close>

lemma received_recorded:
  assumes rec: "recorded_ok x holds s" and h: "holds (ew_store (ex_world s)) a" and idle: "ex_sending s = None"
    and o: "orderly E holds room s (Received req)" and r: "run_request E req s = Ret s'"
  shows "recorded_ok x holds s'"
proof -
  let ?k = "contexts_of (ex_world s)"
  have found: "ew_holds holds ?k w0 a"
    if "Find (pv_Aliases (xe_services E)) (xe_registry E) req (ex_world s) = ((f, req'), w0)" for f req' w0
    by (rule alias_service.find_keeps [OF lifted_parts(3) _ that]) (simp add: h)
  from r show ?thesis
  proof (cases rule: run_request_cases)
    case (replied f req' w0 m w)
    have "ew_holds holds ?k w0 a" by (rule found [OF replied(1)])
    with replied(2) createTask_fails [where k = ?k and a = a] have "holds (ew_store w) a" by blast
    with replied(4) show ?thesis by (intro recorded_same [OF rec h]) (simp_all add: open_ids_def)
  next
    case (accepted c req' w0 t w')
    from found [OF accepted(1)] have w0: "holds (ew_store w0) a" by simp
    have o': "cs_MustRecord (getters c) \<Longrightarrow> room (ew_store w0)" "json_request req'" using o accepted(1) by simp_all
    obtain a' where a': "holds (ew_store w') a'" "running (st_jobs a') = running (st_jobs a) \<union> ({task_id t} - {0})"
      by (rule createTask_records [OF w0 o' accepted(3)])
    have "open_list s' = t # open_list s" using accepted(4) idle by (simp add: open_list_def)
    then have "open_ids s' = open_ids s \<union> ({task_id t} - {0})" by (auto simp: open_ids_def)
    moreover have "holds (ew_store (ex_world s')) a'" using a'(1) accepted(4) by simp
    ultimately show ?thesis using a'(2) recorded_world [OF rec h] unfolding recorded_ok_def by (intro exI [of _ a']) blast
  qed
qed

lemma ended_recorded:
  assumes rec: "recorded_ok x holds s" and ok: "exec_ok E holds s a"
    and k: "k < length (ex_goroutines s)" "ex_goroutines s ! k = (t, RunningIn c)"
    and o: "orderly E holds room s (Ended k ans)" and e: "end_task E ans k t s = Ret s'"
    and x: "x \<Longrightarrow> end_written E s (Ended k ans)"
  shows "recorded_ok x holds s'"
proof -
  let ?r = "command_Execute E ans (tk_cmd t) (tk_job t) (ex_world s)" and ?J = "pv_Jobs (xe_providers E)"
  define f where "f = (if snd (fst ?r) = None then js_Succeed ?J else js_Fail ?J)"
  have h: "holds (ew_store (ex_world s)) a" and d: "distinct_ids (tasks_of s)" using ok by (simp_all add: exec_ok_def)
  have t: "t \<in> set (tasks_of s)" using k nth_mem [OF k(1)] by (force simp: tasks_of_def)
  with ok have "json_request (job_Request (tk_job t))" by (simp add: exec_ok_def task_ok_def)
  from command_keeps [OF h this, of "tk_cmd t" ans] o k obtain a1 where
    a1: "holds (ew_store (snd ?r)) a1" "st_jobs a1 = st_jobs a"
    by (auto split: command.splits)
  have f: "f \<in> {js_Succeed ?J, js_Fail ?J}" by (simp add: f_def)
  have w: "ew_store (ex_world s') = snd (f (task_id t) (ew_store (snd ?r)))"
    using e by (cases rule: end_task_cases; simp add: f_def exec_providers_def exec_jobs_def in_store_def split: prod.split)
  have g: "ex_goroutines s' = (ex_goroutines s)[k := (t, Releasing)]" "ex_sending s' = ex_sending s" "ex_queue s' = ex_queue s"
    using e by (cases rule: end_task_cases; simp)+
  have "task_id t \<noteq> 0 \<Longrightarrow> x \<Longrightarrow> fst (f (task_id t) (ew_store (snd ?r))) = Returns ()"
    using x k(2) by (auto simp: f_def split: prod.splits if_splits)
  moreover have "task_id t = 0 \<Longrightarrow> task_id t \<notin> running (st_jobs a)"
    using job_service.job_ids [OF job_parts h] by (force simp: running_def)
  ultimately have wr: "x \<Longrightarrow> fst (f (task_id t) (ew_store (snd ?r))) = Returns () \<or> task_id t \<notin> running (st_jobs a)" by blast
  from job_service.ending [OF job_parts a1(1) f, of "task_id t"] obtain a2 where
    a2: "holds (ew_store (ex_world s')) a2" "running (st_jobs a) - {task_id t} \<subseteq> running (st_jobs a2)"
    "x \<Longrightarrow> running (st_jobs a2) = running (st_jobs a) - {task_id t}"
    unfolding w a1(2) using wr by blast
  show ?thesis
    unfolding recorded_ok_def open_ids_ended [OF d k g]
    using a2 recorded_world [OF rec h] by blast
qed

lemma step_recorded:
  assumes rec: "recorded_ok x holds s" and ok: "exec_ok E holds s a"
    and st: "exec_step E s ev (Ret s')" and o: "orderly E holds room s ev" and w: "x \<Longrightarrow> end_written E s ev"
  shows "recorded_ok x holds s'"
proof -
  have h: "holds (ew_store (ex_world s)) a" using ok by (simp add: exec_ok_def)
  show ?thesis
    using st
  proof cases
    case (received req)
    with received_recorded [OF rec h _ _ received(2) [symmetric]] o show ?thesis by simp
  next
    case (task_sent t)
    then show ?thesis by (intro recorded_same [OF rec h, of _ a]) (auto simp: h open_ids_def open_list_def)
  next
    case (task_taken t q)
    then show ?thesis by (intro recorded_same [OF rec h, of _ a]) (auto simp: h open_ids_def open_list_def active_def)
  next
    case (began k t)
    have "open_list s' = open_list s"
      unfolding began(2) begin_task_conv
      using filter_update [OF began(3), of active "(t, RunningIn (ew_contexts (ex_world s)))"]
        filter_split [OF began(3), of active] began(4) by (simp add: open_list_def active_def)
    then show ?thesis
      by (intro recorded_same [OF rec h, of _ a])
        (simp_all add: began(2) begin_task_conv activeCommands_Add_def h open_ids_def)
  next
    case (ended k t c ans)
    from ended_recorded [OF rec ok ended(3,4) _ ended(2) [symmetric]] o w ended(1) show ?thesis by blast
  next
    case (released k t)
    have "open_list s' = open_list s"
      unfolding released(2) release_task_def
      using filter_split [OF released(3), of active] released(4) by (simp add: open_list_def active_def)
    then show ?thesis
      by (intro recorded_same [OF rec h, of _ a]) (simp_all add: released(2) release_task_def h open_ids_def)
  next
    case (task_counted t)
    then show ?thesis by (intro recorded_same [OF rec h, of _ a]) (simp_all add: h open_ids_def open_list_def)
  next
    case wait_returned
    then show ?thesis by (intro recorded_same [OF rec h, of _ a]) (simp_all add: h open_ids_def open_list_def)
  next
    case shut_down
    then show ?thesis by (intro recorded_same [OF rec h, of _ a]) (simp_all add: h open_ids_def open_list_def)
  next
    case (remote_log y)
    show ?thesis
    proof (cases y)
      case (LogEntry i l)
      have "log_space holds (ex_world s) i 1" using o remote_log(1) LogEntry by simp
      with h have "Suc (length (fst (log_of (st_logs a) i))) < max_lines" by (auto simp: log_space_def)
      from log_service.append_keeps [OF lifted_parts(2) [of "contexts_of (ex_world s)"] _ this, of "ex_world s" l] h
      obtain a' where a': "ew_holds holds (contexts_of (ex_world s))
          (snd (lw_Append (pv_LogWriter (xe_services E)) i l (ex_world s))) a'" "st_jobs a' = st_jobs a" by auto
      have s': "s' = s\<lparr>ex_world := snd (lw_Append (pv_LogWriter (xe_services E)) i l (ex_world s))\<rparr>"
        using remote_log LogEntry by simp
      show ?thesis
        by (rule recorded_same [OF rec h _ a'(2)]) (use a'(1) in \<open>simp_all add: s' open_ids_def\<close>)
    qed (use rec remote_log in auto)
  qed
qed

lemma trace_recorded:
  "exec_trace E (\<lambda>s ev. orderly E holds room s ev \<and> (x \<longrightarrow> end_written E s ev)) (New_executor v) evs s \<Longrightarrow>
   holds v a \<Longrightarrow> running (st_jobs a) = {} \<Longrightarrow> recorded_ok x holds s"
proof (induction rule: exec_trace.induct)
  case no_step
  then show ?case by (auto simp: recorded_ok_def open_ids_def open_list_def)
next
  case (one_more evs s' ev s'')
  have "exec_trace E (orderly E holds room) (New_executor v) evs s'"
    by (rule exec_trace_mono [OF one_more.hyps(1)]) simp
  then obtain a' where "exec_ok E holds s' a'" using trace_ok one_more.prems(1) by blast
  with step_recorded [of x s' a' ev s''] one_more show ?case by blast
qed

end

section \<open>Properties\<close>

text \<open>
  C5: the job store tells what runs. From a store in which no job is running, as a launch leaves it, in every run in
  which the stores keep their contracts, each recorded task that waits or runs is read from the store as a
  running job with its request; and when every end was written to the store, nothing else is read as running,
  so that no job is left behind and none is running twice.
\<close>

theorem running_jobs_are_open_tasks:
  assumes "services (xe_providers E) holds room" and "holds v a" and "running (st_jobs a) = {}"
    and "exec_trace E (orderly E holds room) (New_executor v) evs s"
  shows "(\<forall>t \<in> set (open_list s). job_ID (tk_job t) \<noteq> 0 \<longrightarrow>
      (\<exists>j w. js_Get (pv_Jobs (xe_providers E)) (job_ID (tk_job t)) (ew_store (ex_world s)) = (Returns j, w) \<and>
         job_Status j = JobRunningStatus \<and> job_Request j = job_Request (tk_job t))) \<and>
    distinct (filter (\<lambda>i. i \<noteq> 0) (map (\<lambda>t. job_ID (tk_job t)) (open_list s))) \<and>
    (exec_trace E (\<lambda>s ev. orderly E holds room s ev \<and> end_written E s ev) (New_executor v) evs s \<longrightarrow>
      (\<forall>i j w. js_Get (pv_Jobs (xe_providers E)) i (ew_store (ex_world s)) = (Returns j, w) \<and> job_Status j = JobRunningStatus \<longrightarrow>
         (\<exists>t \<in> set (open_list s). job_ID (tk_job t) = i \<and> job_Request (tk_job t) = job_Request j)))"
proof -
  have loc: "orderly_executor E holds room" using assms(1) by (simp add: orderly_executor_def)
  obtain b where ok: "exec_ok E holds s b" using orderly_executor.trace_ok [OF loc assms(4,2)] by blast
  then have h: "holds (ew_store (ex_world s)) b" and d: "distinct_ids (tasks_of s)" by (simp_all add: exec_ok_def)
  note jobs = orderly_executor.job_parts [OF loc]
  note get = job_service.get_job [OF jobs h]
  have world: "open_ids s \<subseteq> running (st_jobs b)"
    using orderly_executor.recorded_world(1) [OF loc orderly_executor.trace_recorded [OF loc _ assms(2,3), of False] h] assms(4)
    by simp
  have req: "req_of b (task_id t) = Some (job_Request (tk_job t))" if "t \<in> set (open_list s)" "task_id t \<noteq> 0" for t
    using ok that open_are_tasks [of s] by (auto simp: exec_ok_def task_ok_def)
  have "\<exists>j w. js_Get (pv_Jobs (xe_providers E)) (task_id t) (ew_store (ex_world s)) = (Returns j, w) \<and>
      job_Status j = JobRunningStatus \<and> job_Request j = job_Request (tk_job t)"
    if t: "t \<in> set (open_list s)" "task_id t \<noteq> 0" for t
  proof -
    have "task_id t \<in> running (st_jobs b)" using world t by (auto simp: open_ids_def)
    then show ?thesis using req [OF t] get by (auto simp: running_def req_of_def)
  qed
  moreover have "\<exists>t \<in> set (open_list s). task_id t = i \<and> job_Request (tk_job t) = job_Request j"
    if f: "exec_trace E (\<lambda>s ev. orderly E holds room s ev \<and> end_written E s ev) (New_executor v) evs s"
      and g: "js_Get (pv_Jobs (xe_providers E)) i (ew_store (ex_world s)) = (Returns j, w)" "job_Status j = JobRunningStatus"
    for i j w
  proof -
    have j: "st_jobs b i = Some j" using g(1) get [of i] by (simp split: option.splits)
    have "recorded_ok True holds s" using orderly_executor.trace_recorded [OF loc _ assms(2,3), of True] f by simp
    from orderly_executor.recorded_world(2) [OF loc this h] j g(2) have "i \<in> open_ids s" by (auto simp: running_def)
    then obtain t where t: "t \<in> set (open_list s)" "task_id t = i" "i \<noteq> 0" by (auto simp: open_ids_def)
    with req [of t] j show ?thesis by (auto simp: req_of_def)
  qed
  ultimately show ?thesis using open_ids_distinct [OF d] unfolding distinct_ids_def by blast
qed

lemma exec_trace_also: "exec_trace E Q s evs s' \<Longrightarrow> \<forall>ev \<in> set evs. \<forall>u. R u ev \<Longrightarrow> exec_trace E (\<lambda>u ev. Q u ev \<and> R u ev) s evs s'"
  by (induction rule: exec_trace.induct) (auto intro: exec_trace.intros)

theorem running_jobs_are_open_tasks_witness:
  "\<exists>evs s t. exec_trace ref_executor ref_orderly (New_executor ref_world) evs s \<and> open_list s = [t] \<and>
    (\<exists>j w. js_Get ref_jobs (task_id t) (ew_store (ex_world s)) = (Returns j, w) \<and> job_Status j = JobRunningStatus) \<and>
    (\<forall>i j w. js_Get ref_jobs i (ew_store (ex_world s)) = (Returns j, w) \<and> job_Status j = JobRunningStatus \<longrightarrow> i = task_id t)"
proof (rule ref_sleeping)
  fix s t a
  assume tr: "exec_trace ref_executor ref_orderly (New_executor ref_world) [Received sleep_request, TaskCounted, TaskSent, TaskTaken, Began 0] s"
    and s: "ex_goroutines s = [(t, RunningIn 0)]" "ex_sending s = None" "ex_queue s = []" "task_id t \<noteq> 0"
  have sv: "services (xe_providers ref_executor) ref_holds (job_room ref_view)" using ref_env_services by simp
  have idle: "running (st_jobs nothing_stored) = {}" by (simp add: running_def nothing_stored_def)
  have tr2: "exec_trace ref_executor (\<lambda>s ev. ref_orderly s ev \<and> end_written ref_executor s ev) (New_executor ref_world)
      [Received sleep_request, TaskCounted, TaskSent, TaskTaken, Began 0] s"
    by (rule exec_trace_also [OF tr]) simp
  note p = running_jobs_are_open_tasks [OF sv ref_world_holds idle tr]
  have o: "open_list s = [t]" using s by (simp add: open_list_def active_def)
  have J: "pv_Jobs (xe_providers ref_executor) = ref_jobs" by (simp add: local_providers_def)
  have "\<exists>j w. js_Get ref_jobs (task_id t) (ew_store (ex_world s)) = (Returns j, w) \<and> job_Status j = JobRunningStatus"
    using conjunct1 [OF p] s(4) unfolding o J by auto
  moreover have "\<forall>i j w. js_Get ref_jobs i (ew_store (ex_world s)) = (Returns j, w) \<and> job_Status j = JobRunningStatus \<longrightarrow>
      i = task_id t"
    using mp [OF conjunct2 [OF conjunct2 [OF p]] tr2] unfolding o J by auto
  ultimately show ?thesis using tr o by blast
qed

end
