(* ===== verification/Configuration.thy ===== *)
theory Configuration
  imports Ownership Replies
begin

text \<open>
  The configuration (\<^verbatim>\<open>config/config.go\<close>): the structs of the file, its defaults, and how loading it sets up
  the database, the local commands, the groups and the reply formatter. Opening the file and
  decoding YAML are parameters.
\<close>

section \<open>The structs\<close>

text \<open>Lists that the file does not mention are nil.\<close>

record config_help =
  ch_Summary :: string
  ch_Args :: "string list option"

record config_command =
  cc_Cmd :: string
  cc_Args :: "string list option"
  cc_AllowedGroups :: "string list option"
  cc_AuthStrategy :: string
  cc_ChannelStrategy :: string
  cc_AllowedChannels :: "string list option"
  cc_NoHandshake :: bool
  cc_Timeout :: i64
  cc_Help :: config_help

record config =
  cf_Database :: database_config
  cf_Commands :: "(string, config_command) gomap"
  cf_Groups :: "(string, string list) gomap"
  cf_Pool :: int
  cf_Format :: format_config

section \<open>Reading\<close>

definition default_config :: config where
  "default_config =
     \<lparr>cf_Database = \<lparr>dc_Path = ''meeseeks.db'', dc_Timeout = 2 * second, dc_Mode = 0x180\<rparr>,
      cf_Commands = [], cf_Groups = [], cf_Pool = 20,
      cf_Format = \<lparr>fc_Colors = \<lparr>mc_Info = [], mc_Success = ''good'', mc_Error = ''danger''\<rparr>, fc_ReplyStyle = [],
        fc_Templates = [], fc_Messages = []\<rparr>\<rparr>"

text \<open>\<open>bytes\<close> is what reading the file gives; \<open>yaml\<close> fills in the configuration it is given.\<close>

definition New_config :: "(string \<Rightarrow> config \<Rightarrow> config \<times> err option) \<Rightarrow> string result \<Rightarrow> config \<times> err option" where
  "New_config yaml bytes =
     (case bytes of
        Inl e \<Rightarrow> (default_config, Some (wrap_err ''could not read configuration: '' e))
      | Inr b \<Rightarrow>
          (case yaml b default_config of
             (c, Some e) \<Rightarrow> (c, Some (wrap_err ''could not parse configuration: '' e))
           | (c, None) \<Rightarrow> (c, None)))"

definition zero_config :: config where
  "zero_config =
     \<lparr>cf_Database = \<lparr>dc_Path = [], dc_Timeout = 0, dc_Mode = 0\<rparr>, cf_Commands = [], cf_Groups = [], cf_Pool = 0,
      cf_Format = \<lparr>fc_Colors = \<lparr>mc_Info = [], mc_Success = [], mc_Error = []\<rparr>, fc_ReplyStyle = [],
        fc_Templates = [], fc_Messages = []\<rparr>\<rparr>"

definition ReadFile :: "(string \<Rightarrow> config \<Rightarrow> config \<times> err option) \<Rightarrow> (string \<Rightarrow> string result result) \<Rightarrow> string \<Rightarrow>
    config \<times> err option" where
  "ReadFile yaml open_file filename =
     (case open_file filename of
        Inl e \<Rightarrow> (zero_config, Some (wrap_err (''could not open configuration file '' @ filename @ '': '') e))
      | Inr f \<Rightarrow>
          (case New_config yaml f of
             (c, Some e) \<Rightarrow> (c, Some (wrap_err ''configuration is invalid: '' e))
           | (c, None) \<Rightarrow> (c, None)))"

section \<open>Loading\<close>

text \<open>The options of a configured command; the timeout is multiplied by a second, modulo 64 bits.\<close>

definition config_opts :: "config_command \<Rightarrow> command_opts" where
  "config_opts c =
     \<lparr>opt_Cmd = cc_Cmd c, opt_Args = cc_Args c, opt_AllowedGroups = cc_AllowedGroups c, opt_AuthStrategy = cc_AuthStrategy c,
      opt_AllowedChannels = cc_AllowedChannels c, opt_ChannelStrategy = cc_ChannelStrategy c,
      opt_Handshake = \<not> cc_NoHandshake c, opt_Timeout = cc_Timeout c * second,
      opt_Help = NewHelp (ch_Summary (cc_Help c)) (case ch_Args (cc_Help c) of None \<Rightarrow> [] | Some a \<Rightarrow> a)\<rparr>"

definition config_registrations :: "config \<Rightarrow> command CommandRegistration list" where
  "config_registrations cnf =
     map (\<lambda>(name, c). \<lparr>cr_Name = name, cr_Cmd = Some (ShellCommand (config_opts c))\<rparr>) (cf_Commands cnf)"

text \<open>The state of the packages that the configuration sets up.\<close>

record 'db system =
  sy_world :: "'db world"
  sy_commands :: "command registry"
  sy_auth :: auth_state
  sy_formatter :: "formatter option"

definition LoadConfiguration :: "(database_config \<Rightarrow> 'db result) \<Rightarrow> config \<Rightarrow> 'db system \<Rightarrow> err option \<times> 'db system" where
  "LoadConfiguration bolt_open cnf s =
     (case Configure_db bolt_open (cf_Database cnf) (wd_db (sy_world s)) of
        (Some e, d) \<Rightarrow> (Some (wrap_err ''could not configure database: '' e), s\<lparr>sy_world := (sy_world s)\<lparr>wd_db := d\<rparr>\<rparr>)
      | (None, d) \<Rightarrow>
          (let s1 = s\<lparr>sy_world := (sy_world s)\<lparr>wd_db := d\<rparr>\<rparr>
           in case Register \<lparr>ra_Kind = KindLocalCommand, ra_Action = ActionRegister, ra_Commands = config_registrations cnf\<rparr>
                  (sy_commands s1) of
                (Some e, cmds) \<Rightarrow> (Some (wrap_err ''could not load commands: '' e), s1\<lparr>sy_commands := cmds\<rparr>)
              | (None, cmds) \<Rightarrow>
                  (None, s1\<lparr>sy_commands := cmds, sy_auth := Configure (cf_Groups cnf) (sy_auth s1),
                     sy_formatter := Some (Configure_formatter (cf_Format cnf))\<rparr>)))"

lemma config_registrations_lookup:
  assumes "gomap_ok (cf_Commands cnf)"
  shows "map_of (rev (map (\<lambda>c. (cr_Name c, the (cr_Cmd c))) (config_registrations cnf))) n =
    map_option (\<lambda>c. ShellCommand (config_opts c)) (map_of (cf_Commands cnf) n)"
proof -
  have e: "map (\<lambda>c. (cr_Name c, the (cr_Cmd c))) (config_registrations cnf) =
      map (\<lambda>(k, c). (k, ShellCommand (config_opts c))) (cf_Commands cnf)"
    by (simp add: config_registrations_def case_prod_unfold)
  have "gomap_ok (map (\<lambda>(k, c). (k, ShellCommand (config_opts c))) (cf_Commands cnf))"
    using assms by (simp add: case_prod_unfold comp_def)
  then show ?thesis unfolding e by (simp add: map_of_rev_distinct map_of_map)
qed

section \<open>What loading does\<close>

lemma LoadConfiguration_effect:
  assumes "registry_ok (sy_commands s)" and "gomap_ok (cf_Commands cnf)" and "gomap_ok (cf_Groups cnf)"
    and "LoadConfiguration bolt_open cnf s = (e, s')"
  shows "registry_ok (sy_commands s') \<and>
    (if e = None then
       (\<forall>n. map_of (sy_commands s') n =
          (case map_of (cf_Commands cnf) n of
             Some c \<Rightarrow> Some \<lparr>hub_kind = KindLocalCommand, hub_cmd = ShellCommand (config_opts c)\<rparr>
           | None \<Rightarrow> (case map_of (sy_commands s) n of
               Some hub \<Rightarrow> if hub_kind hub = KindLocalCommand then None else Some hub
             | None \<Rightarrow> None))) \<and>
       (\<forall>req c. Check (sy_auth s') req c = Ret (policy (cf_Groups cnf) req c)) \<and>
       (\<exists>d. bolt_open (cf_Database cnf) = Returns d \<and> database (wd_db (sy_world s')) = Open d)
     else sy_commands s' = sy_commands s \<and> sy_auth s' = sy_auth s \<and> sy_formatter s' = sy_formatter s)"
proof (cases "Configure_db bolt_open (cf_Database cnf) (wd_db (sy_world s))")
  case (Pair x d)
  let ?r = "\<lparr>ra_Kind = KindLocalCommand, ra_Action = ActionRegister, ra_Commands = config_registrations cnf\<rparr>"
  show ?thesis
  proof (cases x)
    case (Some y)
    with Pair assms show ?thesis by (auto simp: LoadConfiguration_def)
  next
    case None
    have open_db: "\<exists>d'. bolt_open (cf_Database cnf) = Returns d' \<and> database d = Open d'"
      using Pair None by (auto simp: Configure_db_def Let_def split: sum.splits)
    obtain y cmds where r: "Register ?r (sy_commands s) = (y, cmds)" by fastforce
    show ?thesis
    proof (cases y)
      case (Some z)
      with r have "cmds = sy_commands s" by (simp add: Register_conv)
      with Pair None r Some assms show ?thesis by (auto simp: LoadConfiguration_def Let_def)
    next
      case None
      from r None have r': "Register ?r (sy_commands s) = (None, cmds)" by simp
      have "registry_ok cmds" using Register_ok [OF assms(1) r'] .
      moreover have e: "e = None" "sy_commands s' = cmds" "sy_auth s' = Configure (cf_Groups cnf) (sy_auth s)"
        "wd_db (sy_world s') = d"
        using Pair \<open>x = None\<close> r' assms(4) by (auto simp: LoadConfiguration_def Let_def)
      moreover have "map_of cmds n =
          (case map_of (cf_Commands cnf) n of
             Some c \<Rightarrow> Some \<lparr>hub_kind = KindLocalCommand, hub_cmd = ShellCommand (config_opts c)\<rparr>
           | None \<Rightarrow> (case map_of (sy_commands s) n of
               Some hub \<Rightarrow> if hub_kind hub = KindLocalCommand then None else Some hub
             | None \<Rightarrow> None))" for n
        unfolding reload_replaces_local_commands [OF assms(1) r', of n] config_registrations_lookup [OF assms(2)]
        by (cases "map_of (cf_Commands cnf) n") simp_all
      ultimately show ?thesis
        using open_db Check_policy [OF Configure_configured [OF assms(3)]] by simp
    qed
  qed
qed


section \<open>Properties\<close>

text \<open>
  Loading a configuration makes the local commands exactly the configured ones, keeps the builtin and
  remote commands, and makes the check of every command the policy over the configured groups; when
  loading fails, commands, groups and replies stay as they were.
\<close>

theorem configuration_takes_effect:
  assumes "registry_ok (sy_commands s)" and "gomap_ok (cf_Commands cnf)" and "gomap_ok (cf_Groups cnf)"
    and "LoadConfiguration bolt_open cnf s = (e, s')"
  shows "registry_ok (sy_commands s') \<and>
    (if e = None then
       (\<forall>n. map_of (sy_commands s') n =
          (case map_of (cf_Commands cnf) n of
             Some c \<Rightarrow> Some \<lparr>hub_kind = KindLocalCommand, hub_cmd = ShellCommand (config_opts c)\<rparr>
           | None \<Rightarrow> (case map_of (sy_commands s) n of
               Some hub \<Rightarrow> if hub_kind hub = KindLocalCommand then None else Some hub
             | None \<Rightarrow> None))) \<and>
       (\<forall>req c. Check (sy_auth s') req c = Ret (policy (cf_Groups cnf) req c)) \<and>
       (\<exists>d. bolt_open (cf_Database cnf) = Returns d \<and> database (wd_db (sy_world s')) = Open d)
     else sy_commands s' = sy_commands s \<and> sy_auth s' = sy_auth s \<and> sy_formatter s' = sy_formatter s)"
  by (rule LoadConfiguration_effect [OF assms])

text \<open>A file with one command and one group, over a registry with an old local command.\<close>

definition echo_config :: config where
  "echo_config = default_config\<lparr>
     cf_Commands := [(''echo'', \<lparr>cc_Cmd = ''echo'', cc_Args = None, cc_AllowedGroups = Some [''dev''], cc_AuthStrategy = ''group'',
       cc_ChannelStrategy = [], cc_AllowedChannels = None, cc_NoHandshake = True, cc_Timeout = 5,
       cc_Help = \<lparr>ch_Summary = ''prints'', ch_Args = None\<rparr>\<rparr>)],
     cf_Groups := [(''dev'', [''bob''])]\<rparr>"

definition old_system :: "unit system" where
  "old_system = \<lparr>sy_world = \<lparr>wd_db = \<lparr>databaseConfig = cf_Database default_config, database = NilHandle\<rparr>, wd_clock = (\<lambda>n. zero_time), wd_uuid = show_nat, wd_tick = 0\<rparr>,
     sy_commands = [(''date'', \<lparr>hub_kind = KindLocalCommand, hub_cmd = ShellCommand (config_opts (snd (hd (cf_Commands echo_config))))\<rparr>)],
     sy_auth = auth_init, sy_formatter = None\<rparr>"

theorem configuration_takes_effect_witness:
  "\<exists>s'. LoadConfiguration (\<lambda>_. Returns ()) echo_config old_system = (None, s') \<and>
    map_of (sy_commands s') ''date'' = None \<and> map_of (sy_commands s') ''echo'' \<noteq> None \<and>
    Check (sy_auth s') (zero_request\<lparr>req_Username := ''ann''\<rparr>) \<lparr>ca_AuthStrategy = ''group'', ca_AllowedGroups = [''dev''],
      ca_ChannelStrategy = ''any'', ca_AllowedChannels = []\<rparr> = Ret (Some ErrUserNotAllowed)"
proof -
  have ok: "registry_ok (sy_commands old_system)" "gomap_ok (cf_Commands echo_config)" "gomap_ok (cf_Groups echo_config)"
    by (auto simp: registry_ok_def old_system_def echo_config_def trim_space_id edge_byte_def split: if_splits)
  have "registration_validate (sy_commands old_system) \<lparr>ra_Kind = KindLocalCommand, ra_Action = ActionRegister,
      ra_Commands = config_registrations echo_config\<rparr> = None"
    by (simp add: registration_validate_None valid_registration_def config_registrations_def old_system_def echo_config_def
        trim_space_id edge_byte_def)
  then obtain s' where s': "LoadConfiguration (\<lambda>_. Returns ()) echo_config old_system = (None, s')"
    by (simp add: LoadConfiguration_def Configure_db_def Register_def Let_def old_system_def)
  from configuration_takes_effect [OF ok s'] s' show ?thesis
    by (auto simp: old_system_def echo_config_def policy_def user_allowed_def channel_error_def zero_request_def)
qed

end
