(* ===== verification/Parser.thy ===== *)
theory Parser
  imports Meeseeks
begin

text \<open>
  The command-line parser (\<^verbatim>\<open>text/parser/parser.go\<close>). \<open>Parse\<close> is the loop over the bytes of the
  trimmed text, with the loop's variables as a record; \<open>parse_byte\<close> is its body. Below:
  quoted arguments round-trip, unquoted text is split on blanks, what escapes do, and the
  encoding of the arguments that come out.
\<close>

section \<open>The parser\<close>

datatype parser_state = StartState | QuotesState | ArgState

record parse_vars =
  pv_args :: "string list"
  pv_state :: parser_state
  pv_current :: string
  pv_quote :: string
  pv_escapeNext :: bool

definition parse_init :: parse_vars where
  "parse_init = \<lparr>pv_args = [], pv_state = StartState, pv_current = [], pv_quote = ''\"'',
     pv_escapeNext = False\<rparr>"

definition parse_byte :: "parse_vars \<Rightarrow> char \<Rightarrow> parse_vars" where
  "parse_byte v c =
     (if pv_state v = QuotesState then
        (if go_string_of_byte c \<noteq> pv_quote v
         then v\<lparr>pv_current := pv_current v @ go_string_of_byte c\<rparr>
         else v\<lparr>pv_args := pv_args v @ [pv_current v], pv_current := [], pv_state := StartState\<rparr>)
      else if pv_escapeNext v then
        v\<lparr>pv_current := pv_current v @ go_string_of_byte c, pv_escapeNext := False\<rparr>
      else if c = CHR 0x5C then v\<lparr>pv_escapeNext := True\<rparr>
      else if c = CHR 0x22 \<or> c = CHR 0x27 \<or> c = CHR 0x60 then
        v\<lparr>pv_state := QuotesState, pv_quote := go_string_of_byte c\<rparr>
      else if pv_state v = ArgState then
        (if c = CHR '' '' \<or> c = CHR 0x09
         then v\<lparr>pv_args := pv_args v @ [pv_current v], pv_current := [], pv_state := StartState\<rparr>
         else v\<lparr>pv_current := pv_current v @ go_string_of_byte c\<rparr>)
      else if c \<noteq> CHR '' '' \<and> c \<noteq> CHR 0x09 then
        v\<lparr>pv_state := ArgState, pv_current := pv_current v @ go_string_of_byte c\<rparr>
      else v)"

definition parse_end :: "parse_vars \<Rightarrow> string list result" where
  "parse_end v =
     (if pv_state v = QuotesState then Fails ErrUnclosedQuoteInCommand
      else Returns (pv_args v @ (if pv_current v \<noteq> [] then [pv_current v] else [])))"

definition Parse :: "string \<Rightarrow> string list result" where
  "Parse command = parse_end (foldl parse_byte parse_init (trim_space command))"

section \<open>Quoted arguments\<close>

text \<open>Writing an argument between double quotes.\<close>

definition quote_arg :: "string \<Rightarrow> string" where
  "quote_arg a = ''\"'' @ a @ ''\"''"

definition quotable :: "string \<Rightarrow> bool" where
  "quotable a \<longleftrightarrow> CHR 0x22 \<notin> set a"

text \<open>What the bytes of an argument become: each one is taken for a rune and encoded.\<close>

definition reencode :: "string \<Rightarrow> string" where
  "reencode a = concat (map go_string_of_byte a)"

lemma reencode_ascii: "ascii_string a \<Longrightarrow> reencode a = a"
  by (induction a) (auto simp: reencode_def go_string_of_byte_def)

lemma length_reencode: "length (reencode a) = length a + length (filter (\<lambda>c. 128 \<le> byte c) a)"
  by (induction a) (auto simp: reencode_def go_string_of_byte_def)

lemma reencode_iff: "reencode a = a \<longleftrightarrow> ascii_string a"
proof
  assume "reencode a = a"
  then have "filter (\<lambda>c. 128 \<le> byte c) a = []" using length_reencode [of a] by simp
  then show "ascii_string a" by (auto simp: filter_empty_conv)
qed (rule reencode_ascii)

text \<open>The loop's state between two arguments.\<close>

definition at_start :: "string list \<Rightarrow> string \<Rightarrow> parse_vars" where
  "at_start args q = \<lparr>pv_args = args, pv_state = StartState, pv_current = [], pv_quote = q,
     pv_escapeNext = False\<rparr>"

lemma parse_init_at_start: "parse_init = at_start [] ''\"''"
  by (simp add: parse_init_def at_start_def)

lemma parse_in_quotes:
  "quotable a \<Longrightarrow> pv_state v = QuotesState \<Longrightarrow> pv_quote v = ''\"'' \<Longrightarrow>
   foldl parse_byte v a = v\<lparr>pv_current := pv_current v @ reencode a\<rparr>"
  by (induction a arbitrary: v)
     (auto simp: quotable_def parse_byte_def reencode_def go_string_of_byte_def split: if_splits)

lemma parse_quote_arg:
  assumes "quotable a"
  shows "foldl parse_byte (at_start args q) (quote_arg a) = at_start (args @ [reencode a]) ''\"''"
proof -
  have "parse_byte (at_start args q) (CHR 0x22) =
      (at_start args ''\"'')\<lparr>pv_state := QuotesState\<rparr>" (is "_ = ?v")
    by (simp add: parse_byte_def at_start_def go_string_of_byte_def)
  moreover have "foldl parse_byte ?v a = ?v\<lparr>pv_current := pv_current ?v @ reencode a\<rparr>"
    by (rule parse_in_quotes) (use assms in \<open>simp_all add: at_start_def\<close>)
  ultimately show ?thesis
    by (simp add: quote_arg_def parse_byte_def at_start_def go_string_of_byte_def)
qed

lemma parse_blank_at_start:
  "c = CHR '' '' \<or> c = CHR 0x09 \<Longrightarrow> parse_byte (at_start args q) c = at_start args q"
  by (auto simp: parse_byte_def at_start_def)

lemma parse_quoted_line:
  "list_all quotable as \<Longrightarrow>
   \<exists>q. foldl parse_byte (at_start args q0) (strings_join '' '' (map quote_arg as)) = at_start (args @ map reencode as) q"
proof (induction as arbitrary: args q0)
  case (Cons a as)
  show ?case
  proof (cases as)
    case Nil
    with Cons.prems parse_quote_arg [of a args q0] show ?thesis by auto
  next
    case (Cons b bs)
    with Cons.IH [of "args @ [reencode a]" "''\"''"] Cons.prems parse_quote_arg [of a args q0]
    show ?thesis by (simp add: parse_blank_at_start)
  qed
qed auto

lemma parse_end_at_start [simp]: "parse_end (at_start args q) = Returns args"
  by (simp add: parse_end_def at_start_def)

lemma hd_strings_join_quoted:
  "as \<noteq> [] \<Longrightarrow> hd (strings_join '' '' (map quote_arg as)) = CHR 0x22 \<and>
     last (strings_join '' '' (map quote_arg as)) = CHR 0x22 \<and>
     strings_join '' '' (map quote_arg as) \<noteq> []"
proof (induction as)
  case (Cons a as)
  then show ?case
    by (cases as) (auto simp: quote_arg_def)
qed simp

lemma parse_quoted:
  assumes "list_all quotable as"
  shows "Parse (strings_join '' '' (map quote_arg as)) = Returns (map reencode as)"
proof -
  have "edge_byte (CHR 0x22)" by (simp add: edge_byte_def)
  then have "trim_space (strings_join '' '' (map quote_arg as)) = strings_join '' '' (map quote_arg as)"
    using hd_strings_join_quoted [of as] by (intro trim_space_id) (cases "as = []"; auto)
  with parse_quoted_line [OF assms, of "[]" "''\"''"] show ?thesis
    by (auto simp: Parse_def parse_init_at_start)
qed

section \<open>Unquoted text\<close>

text \<open>The reference: the maximal runs of bytes that are no blank.\<close>

definition blank :: "char \<Rightarrow> bool" where
  "blank c \<longleftrightarrow> c = CHR '' '' \<or> c = CHR 0x09"

fun split_blanks :: "string \<Rightarrow> string \<Rightarrow> string list" where
  "split_blanks w [] = (if w = [] then [] else [w])"
| "split_blanks w (c # s) =
     (if blank c then (if w = [] then split_blanks [] s else w # split_blanks [] s)
      else split_blanks (w @ [c]) s)"

definition plain_byte :: "char \<Rightarrow> bool" where
  "plain_byte c \<longleftrightarrow> byte c < 128 \<and> c \<noteq> CHR 0x5C \<and> c \<noteq> CHR 0x22 \<and> c \<noteq> CHR 0x27 \<and> c \<noteq> CHR 0x60"

lemma parse_byte_plain:
  assumes "plain_byte c" and "\<not> pv_escapeNext v" and "pv_state v \<noteq> QuotesState"
  shows "parse_byte v c =
     (if blank c then
        (if pv_state v = ArgState
         then v\<lparr>pv_args := pv_args v @ [pv_current v], pv_current := [], pv_state := StartState\<rparr>
         else v)
      else v\<lparr>pv_state := ArgState, pv_current := pv_current v @ [c]\<rparr>)"
  using assms by (cases "pv_state v") (simp_all add: parse_byte_def plain_byte_def blank_def)

lemma parse_plain:
  "list_all plain_byte s \<Longrightarrow> \<not> pv_escapeNext v \<Longrightarrow>
   pv_state v = (if pv_current v = [] then StartState else ArgState) \<Longrightarrow>
   parse_end (foldl parse_byte v s) = Returns (pv_args v @ split_blanks (pv_current v) s)"
proof (induction s arbitrary: v)
  case Nil
  then show ?case by (auto simp: parse_end_def)
next
  case (Cons c s)
  from Cons.prems have s: "list_all plain_byte s" and c: "plain_byte c"
      and q: "pv_state v \<noteq> QuotesState" by simp_all
  note step = parse_byte_plain [OF c Cons.prems(2) q]
  have "\<not> pv_escapeNext (parse_byte v c)"
    "pv_state (parse_byte v c) = (if pv_current (parse_byte v c) = [] then StartState else ArgState)"
    using Cons.prems(2,3) by (simp_all add: step)
  note IH = Cons.IH [OF s this]
  show ?case using Cons.prems(3) by (simp add: IH) (simp add: step)
qed

lemma parse_unquoted:
  "list_all plain_byte (trim_space cmd) \<Longrightarrow> Parse cmd = Returns (split_blanks [] (trim_space cmd))"
  unfolding Parse_def
  by (subst parse_plain) (auto simp: parse_init_def)

section \<open>Errors and encoding of the arguments\<close>

text \<open>Every string the loop builds is a concatenation of encoded runes.\<close>

definition vars_utf8 :: "parse_vars \<Rightarrow> bool" where
  "vars_utf8 v \<longleftrightarrow> list_all valid_utf8 (pv_args v) \<and> valid_utf8 (pv_current v)"

lemma valid_utf8_snoc: "valid_utf8 s \<Longrightarrow> valid_utf8 (s @ go_string_of_byte c)"
  by (rule valid_utf8_append [OF _ valid_utf8_go_string_of_byte])

lemma parse_byte_shape:
  "pv_current (parse_byte v c) \<in> {pv_current v, pv_current v @ go_string_of_byte c, []}"
  "pv_args (parse_byte v c) \<in> {pv_args v, pv_args v @ [pv_current v]}"
  by (simp_all add: parse_byte_def)

lemma parse_byte_utf8: "vars_utf8 v \<Longrightarrow> vars_utf8 (parse_byte v c)"
  using parse_byte_shape [of v c] valid_utf8_snoc [of "pv_current v" c] by (auto simp: vars_utf8_def)

lemma parse_utf8: "vars_utf8 v \<Longrightarrow> vars_utf8 (foldl parse_byte v s)"
  by (induction s arbitrary: v) (auto intro: parse_byte_utf8)

lemma Parse_utf8: "Parse cmd = Returns args \<Longrightarrow> list_all valid_utf8 args"
  using parse_utf8 [of parse_init "trim_space cmd"]
  by (auto simp: Parse_def parse_end_def vars_utf8_def parse_init_def split: if_splits)

lemma Parse_error: "Parse cmd = Fails e \<Longrightarrow> e = ErrUnclosedQuoteInCommand"
  by (auto simp: Parse_def parse_end_def split: if_splits)

section \<open>Properties\<close>

text \<open>
  C19: every list of arguments of ASCII bytes without a double quote, empty arguments and blanks
  included, comes back from the line that writes each of them between double quotes.
\<close>

theorem quoted_arguments_round_trip:
  assumes "\<forall>a \<in> set as. ascii_string a \<and> CHR 0x22 \<notin> set a"
  shows "Parse (strings_join '' '' (map quote_arg as)) = Returns as"
proof -
  have "map reencode as = as"
    using assms by (intro map_idI) (simp add: reencode_ascii)
  with assms parse_quoted [of as] show ?thesis by (simp add: quotable_def list_all_iff)
qed

theorem quoted_arguments_round_trip_witness:
  "Parse (strings_join '' '' (map quote_arg [''echo'', ''hello world'', []])) =
    Returns [''echo'', ''hello world'', []]"
  by (rule quoted_arguments_round_trip) simp

text \<open>
  C22: with other bytes the round trip fails: each byte of a quoted argument is taken for a character of
  its own and encoded again, so that the argument comes back as it was exactly when it is ASCII.
\<close>

theorem quoted_bytes_reencoded:
  assumes "CHR 0x22 \<notin> set a"
  shows "\<exists>b. Parse (quote_arg a) = Returns [b] \<and> (b = a \<longleftrightarrow> ascii_string a) \<and>
    length b = length a + length (filter (\<lambda>c. 128 \<le> byte c) a)"
  using parse_quoted [of "[a]"] assms by (simp add: quotable_def reencode_iff length_reencode)

theorem quoted_bytes_reencoded_witness:
  "\<exists>b. Parse (quote_arg [CHR 0xC3, CHR 0xA9]) = Returns [b] \<and> b \<noteq> [CHR 0xC3, CHR 0xA9] \<and> length b = 4"
  using quoted_bytes_reencoded [of "[CHR 0xC3, CHR 0xA9]"] by auto

text \<open>
  Text of ASCII bytes without quotes and backslashes is split into its maximal runs of bytes other
  than blanks and tabs.
\<close>

theorem unquoted_text_is_split:
  assumes "\<forall>c \<in> set cmd. byte c < 128 \<and> c \<notin> {CHR 0x5C, CHR 0x22, CHR 0x27, CHR 0x60}"
  shows "Parse cmd = Returns (split_blanks [] (trim_space cmd))"
proof (rule parse_unquoted)
  show "list_all plain_byte (trim_space cmd)"
    using assms set_trim_space [of cmd] by (auto simp: list_all_iff plain_byte_def)
qed

theorem unquoted_text_is_split_witness:
  "Parse ''deploy  prod now'' = Returns [''deploy'', ''prod'', ''now'']"
  using unquoted_text_is_split [of "''deploy  prod now''"]
  by (simp add: trim_space_id edge_byte_def blank_def)

end
