(* ===== verification/Api.thy ===== *)
theory Api
  imports Parser Services
begin

text \<open>
  The HTTP API (\<^verbatim>\<open>api/api.go\<close>): a post with a token and a message becomes the request that the token stands
  for, with the words of the message as further arguments. The enricher, an interface that the chat
  client implements, is a record of functions.
\<close>

section \<open>The service\<close>

record enricher =
  en_ParseChannelLink :: "string \<Rightarrow> string result"
  en_ParseUserLink :: "string \<Rightarrow> string result"
  en_GetUsername :: "string \<Rightarrow> string"
  en_GetUserLink :: "string \<Rightarrow> string"
  en_GetChannel :: "string \<Rightarrow> string"
  en_GetChannelLink :: "string \<Rightarrow> string"
  en_IsIM :: "string \<Rightarrow> bool"

text \<open>The request that goes into the channel, or an error; reading the first of no arguments panics.\<close>

definition sendMessage :: "enricher \<Rightarrow> api_token \<Rightarrow> string \<Rightarrow> request result run" where
  "sendMessage en token message =
     (case en_ParseChannelLink en (tok_ChannelLink token) of
        Inl e \<Rightarrow> Ret (Fails e)
      | Inr channelID \<Rightarrow>
          (case en_ParseUserLink en (tok_UserLink token) of
             Inl e \<Rightarrow> Ret (Fails e)
           | Inr userID \<Rightarrow>
               (case Parse (tok_Text token @ '' '' @ message) of
                  Inl e \<Rightarrow> Ret (Fails e)
                | Inr [] \<Rightarrow> Panic ''index out of range''
                | Inr (c # args) \<Rightarrow>
                    Ret (Returns \<lparr>req_Command = c, req_Args = args, req_Username = en_GetUsername en userID,
                      req_UserID = userID, req_UserLink = en_GetUserLink en userID, req_Channel = en_GetChannel en channelID,
                      req_ChannelID = channelID, req_ChannelLink = en_GetChannelLink en channelID,
                      req_IsIM = en_IsIM en channelID\<rparr>))))"

datatype response = StatusAccepted | StatusBadRequest string | StatusUnauthorized string

text \<open>The answer of the handler of a service that listens, with the request that was sent to the executor.\<close>

definition HandlePostToken :: "'w tokens_service \<Rightarrow> enricher \<Rightarrow> string \<Rightarrow> string \<Rightarrow> 'w \<Rightarrow> (response \<times> request option) run \<times> 'w" where
  "HandlePostToken S en tokenID message w =
     (if tokenID = [] then (Ret (StatusBadRequest ''no token'', None), w)
      else (case ts_Get S tokenID w of
              (Inl e, w') \<Rightarrow> (Ret (StatusUnauthorized (err_text e), None), w')
            | (Inr token, w') \<Rightarrow>
                (case sendMessage en token message of
                   Panic m \<Rightarrow> (Panic m, w')
                 | Ret (Inl e) \<Rightarrow> (Ret (StatusBadRequest (err_text e), None), w')
                 | Ret (Inr req) \<Rightarrow> (Ret (StatusAccepted, Some req), w'))))"

text \<open>
  The life of the service: \<open>Listen\<close> passes on what is sent until \<open>Shutdown\<close> stops it and closes the channel. \<open>None\<close>
  stands for a call that waits for ever.
\<close>

record api_service =
  sv_enricher :: enricher
  sv_listening :: bool
  sv_closed :: bool

definition New_service :: "enricher \<Rightarrow> api_service" where
  "New_service en = \<lparr>sv_enricher = en, sv_listening = False, sv_closed = False\<rparr>"

definition Service_Listen :: "api_service \<Rightarrow> api_service" where
  "Service_Listen s = s\<lparr>sv_listening := True\<rparr>"

definition service_send :: "request \<Rightarrow> api_service \<Rightarrow> request option run" where
  "service_send r s =
     (if sv_closed s then Panic ''send on closed channel''
      else if sv_listening s then Ret (Some r) else Ret None)"

definition Service_Shutdown :: "api_service \<Rightarrow> api_service option" where
  "Service_Shutdown s = (if sv_listening s then Some (s\<lparr>sv_listening := False, sv_closed := True\<rparr>) else None)"

text \<open>A post after the shutdown brings down its handler, and a second shutdown never returns.\<close>

lemma after_shutdown:
  assumes "Service_Shutdown s = Some s'"
  shows "service_send r s' = Panic ''send on closed channel''" and "Service_Shutdown s' = None"
  using assms by (auto simp: Service_Shutdown_def service_send_def split: if_splits)

section \<open>Text before a message\<close>

lemma utf8_spaces_no_edge: "\<forall>sp \<in> set utf8_spaces. \<forall>c \<in> set sp. \<not> edge_byte c"
  by (simp add: utf8_spaces_def edge_byte_def)

lemma trim_with_keeps:
  "(\<forall>sp \<in> set sps. \<forall>c \<in> set sp. \<not> edge_byte c) \<Longrightarrow> y \<noteq> [] \<Longrightarrow> edge_byte (hd y) \<Longrightarrow> s = x @ y \<Longrightarrow>
   \<exists>z. trim_with sps s = z @ y"
proof (induction sps s arbitrary: x rule: trim_with.induct)
  case (1 sps s)
  show ?case
  proof (cases "find (\<lambda>sp. sp \<noteq> [] \<and> has_prefix s sp) sps")
    case None
    with "1.prems" show ?thesis by (simp add: trim_with.simps)
  next
    case (Some sp)
    then have sp: "sp \<in> set sps" "has_prefix s sp" by (auto simp: find_Some_iff)
    have le: "length sp \<le> length x"
    proof (rule ccontr)
      assume "\<not> length sp \<le> length x"
      moreover have "sp = take (length sp) (x @ y)" using sp(2) "1.prems"(4) by (simp add: has_prefix_def)
      ultimately have "hd y \<in> set sp"
        using "1.prems"(2) by (cases y) (auto simp: take_Cons' in_set_conv_decomp)
      with "1.prems"(1,3) sp(1) show False by blast
    qed
    with "1.prems" have "drop (length sp) s = drop (length sp) x @ y" by simp
    from "1.IH" [OF Some "1.prems"(1-3) this] show ?thesis
      by (subst trim_with.simps) (simp add: Some)
  qed
qed

lemma trim_space_append:
  assumes "t \<noteq> []" and "edge_byte (hd t)" and "edge_byte (last t)"
  obtains p q where "u = p @ q" "trim_space (t @ u) = t @ p"
proof -
  have "trim_with utf8_spaces (t @ u) = t @ u"
  proof (rule trim_with_id)
    fix sp assume sp: "sp \<in> set utf8_spaces" "sp \<noteq> []"
    then have "\<not> edge_byte (hd sp)" using utf8_spaces_not_edge by blast
    with assms(1,2) sp(2) show "\<not> has_prefix (t @ u) sp" using has_prefix_hd [of "t @ u" sp] by auto
  qed
  moreover obtain z where z: "trim_with (map rev utf8_spaces) (rev u @ rev t) = z @ rev t"
    using trim_with_keeps [of "map rev utf8_spaces" "rev t" "rev u @ rev t" "rev u"] utf8_spaces_no_edge assms
    by (auto simp: hd_rev)
  ultimately have "trim_space (t @ u) = t @ rev z" by (simp add: trim_space_def)
  moreover obtain p where "rev u @ rev t = p @ z @ rev t" using trim_with_suffix z by metis
  then have "u = rev z @ rev p" by (metis append_assoc append_same_eq rev_append rev_rev_ident)
  ultimately show thesis using that by blast
qed

lemma parse_plain_state:
  "list_all plain_byte s \<Longrightarrow> \<not> pv_escapeNext v \<Longrightarrow>
   pv_state v = (if pv_current v = [] then StartState else ArgState) \<Longrightarrow>
   \<not> pv_escapeNext (foldl parse_byte v s) \<and>
     pv_state (foldl parse_byte v s) = (if pv_current (foldl parse_byte v s) = [] then StartState else ArgState)"
proof (induction s arbitrary: v)
  case (Cons c s)
  from Cons.prems have c: "plain_byte c" and q: "pv_state v \<noteq> QuotesState" by simp_all
  note step = parse_byte_plain [OF c Cons.prems(2) q]
  have "\<not> pv_escapeNext (parse_byte v c)"
    "pv_state (parse_byte v c) = (if pv_current (parse_byte v c) = [] then StartState else ArgState)"
    using Cons.prems(2,3) by (simp_all add: step)
  with Cons.IH [of "parse_byte v c"] Cons.prems(1) show ?case by simp
qed simp

lemma parse_args_grow: "\<exists>more. pv_args (foldl parse_byte v s) = pv_args v @ more"
proof (induction s arbitrary: v)
  case (Cons c s)
  from Cons.IH [of "parse_byte v c"] parse_byte_shape(2) [of v c] show ?case by auto
qed simp

text \<open>ASCII without quotes and backslashes that neither begins nor ends with white space.\<close>

definition plain_text :: "string \<Rightarrow> bool" where
  "plain_text t \<longleftrightarrow> list_all plain_byte t \<and> t \<noteq> [] \<and> edge_byte (hd t) \<and> edge_byte (last t)"

lemma parse_after_plain:
  assumes "plain_text t" and "Parse (t @ '' '' @ m) = Returns args"
  obtains more where "args = split_blanks [] t @ more"
proof -
  obtain p q where p: "'' '' @ m = p @ q" "trim_space (t @ '' '' @ m) = t @ p"
    by (rule trim_space_append [of t "'' '' @ m"]) (use assms(1) in \<open>simp_all add: plain_text_def\<close>)
  let ?v = "foldl parse_byte parse_init t"
  have init: "\<not> pv_escapeNext parse_init"
    "pv_state parse_init = (if pv_current parse_init = [] then StartState else ArgState)"
    "pv_args parse_init = []" "pv_current parse_init = []"
    by (simp_all add: parse_init_def)
  have plain: "list_all plain_byte t" using assms(1) by (simp add: plain_text_def)
  note v = parse_plain_state [OF plain init(1,2)]
  have w: "parse_end ?v = Returns (split_blanks [] t)"
    using parse_plain [OF plain init(1,2)] by (simp add: init(3,4))
  show thesis
  proof (cases p)
    case Nil
    with p(2) w assms(2) that [of "[]"] show thesis by (simp add: Parse_def)
  next
    case (Cons c r)
    with p(1) have c: "c = CHR '' ''" by simp
    have "pv_args (parse_byte ?v c) = split_blanks [] t"
    proof (cases "pv_current ?v = []")
      case True
      with v w show ?thesis by (auto simp: c parse_byte_def parse_end_def)
    next
      case False
      with v w show ?thesis by (auto simp: c parse_byte_def parse_end_def)
    qed
    moreover obtain more where "pv_args (foldl parse_byte (parse_byte ?v c) r) = pv_args (parse_byte ?v c) @ more"
      using parse_args_grow by blast
    moreover have "parse_end (foldl parse_byte (parse_byte ?v c) r) = Returns args"
      using assms(2) p(2) Cons by (simp add: Parse_def)
    then have "\<exists>x. args = pv_args (foldl parse_byte (parse_byte ?v c) r) @ x"
      by (auto simp: parse_end_def split: if_splits)
    ultimately show thesis using that by auto
  qed
qed

section \<open>Properties\<close>

text \<open>
  C35: a post to the API does nothing but what a stored token allows. The store is left alone; a request is
  sent exactly when the post is accepted, and then the token is stored, the user and the channel are
  those of the links of the token, and, when the text of the token is plain words, the command is its
  first word and the arguments begin with its other words: a message can only add arguments.
\<close>

theorem api_requests_follow_tokens:
  assumes "token_service S holds" and "holds w a" and "HandlePostToken S en tokenID message w = (Ret (resp, sent), w')"
  shows "w' = w \<and> (sent \<noteq> None \<longleftrightarrow> resp = StatusAccepted) \<and>
    (tokenID \<noteq> [] \<and> st_tokens a tokenID = None \<longrightarrow> resp = StatusUnauthorized (err_text ErrTokenNotFound)) \<and>
    (\<forall>req. sent = Some req \<longrightarrow> (\<exists>t. tokenID \<noteq> [] \<and> st_tokens a tokenID = Some t \<and>
       en_ParseUserLink en (tok_UserLink t) = Returns (req_UserID req) \<and>
       en_ParseChannelLink en (tok_ChannelLink t) = Returns (req_ChannelID req) \<and>
       Parse (tok_Text t @ '' '' @ message) = Returns (req_Command req # req_Args req) \<and>
       (plain_text (tok_Text t) \<longrightarrow>
          (\<exists>more. req_Command req # req_Args req = split_blanks [] (tok_Text t) @ more))))"
proof -
  have get: "ts_Get S tokenID w = (case st_tokens a tokenID of None \<Rightarrow> Fails ErrTokenNotFound | Some t \<Rightarrow> Returns t, w)"
    by (rule token_service.get_token [OF assms(1,2)])
  show ?thesis
  proof (cases "tokenID = [] \<or> st_tokens a tokenID = None")
    case True
    with assms(3) get show ?thesis
      by (cases "tokenID = []") (auto simp: HandlePostToken_def split: option.splits)
  next
    case False
    then obtain t where t: "st_tokens a tokenID = Some t" "tokenID \<noteq> []" by auto
    show ?thesis
    proof (cases "sendMessage en t message")
      case (Panic m)
      with t get assms(3) show ?thesis by (simp add: HandlePostToken_def)
    next
      case (Ret r)
      show ?thesis
      proof (cases r)
        case (Inl e)
        with t get assms(3) Ret show ?thesis by (auto simp: HandlePostToken_def)
      next
        case (Inr req)
        with Ret have req: "en_ParseUserLink en (tok_UserLink t) = Returns (req_UserID req)"
          "en_ParseChannelLink en (tok_ChannelLink t) = Returns (req_ChannelID req)"
          "Parse (tok_Text t @ '' '' @ message) = Returns (req_Command req # req_Args req)"
          by (auto simp: sendMessage_def split: sum.splits list.splits)
        have "w' = w" "resp = StatusAccepted" "sent = Some req"
          using t get assms(3) Ret Inr by (auto simp: HandlePostToken_def)
        moreover have "\<exists>more. req_Command req # req_Args req = split_blanks [] (tok_Text t) @ more"
          if "plain_text (tok_Text t)"
          using parse_after_plain [OF that req(3)] by blast
        ultimately show ?thesis using t req by auto
      qed
    qed
  qed
qed

text \<open>A token without text, as \<^verbatim>\<open>newapitoken user channel ""\<close> makes it, brings down the handler of an empty post.\<close>

lemma empty_token_panics:
  assumes "token_service S holds" and "holds w a" and "tokenID \<noteq> []" and "st_tokens a tokenID = Some t" and "tok_Text t = []"
    and "en_ParseUserLink en (tok_UserLink t) = Returns u" and "en_ParseChannelLink en (tok_ChannelLink t) = Returns c"
  shows "HandlePostToken S en tokenID [] w = (Panic ''index out of range'', w)"
proof -
  have "Parse '' '' = Returns []"
    by (simp add: Parse_def trim_space_def utf8_spaces_def trim_with.simps has_prefix_def parse_init_def parse_end_def)
  with assms token_service.get_token [OF assms(1,2), of tokenID] show ?thesis
    by (simp add: HandlePostToken_def sendMessage_def)
qed

text \<open>An enricher that reads links of the form of the plain identifier.\<close>

definition ref_enricher :: enricher where
  "ref_enricher = \<lparr>en_ParseChannelLink = Returns, en_ParseUserLink = Returns, en_GetUsername = (\<lambda>i. i), en_GetUserLink = (\<lambda>i. i),
     en_GetChannel = (\<lambda>i. i), en_GetChannelLink = (\<lambda>i. i), en_IsIM = (\<lambda>i. False)\<rparr>"

theorem api_requests_follow_tokens_witness:
  "\<exists>w req. ts_Create (local_tokens ref_bolt ref_codec) ''u'' ''c'' ''deploy prod'' ref_world = ((''token'', None), w) \<and>
    HandlePostToken (local_tokens ref_bolt ref_codec) ref_enricher ''token'' ''now'' w = (Ret (StatusAccepted, Some req), w) \<and>
    req_UserID req = ''u'' \<and> (\<exists>more. req_Command req # req_Args req = ''deploy'' # ''prod'' # more)"
proof -
  let ?S = "local_tokens ref_bolt ref_codec"
  obtain w where w: "ts_Create ?S ''u'' ''c'' ''deploy prod'' ref_world = ((''token'', None), w)"
    using ref_create_token [of "''u''" "''c''" "''deploy prod''"] by (auto simp: valid_utf8_ascii)
  have "list_all valid_utf8 [''u'', ''c'', ''deploy prod'']" by (simp add: valid_utf8_ascii)
  from ref_stores.local_create_token [OF ref_world_holds this w] obtain now where
    h: "ref_holds w (nothing_stored\<lparr>st_tokens := (st_tokens nothing_stored)
      (''token'' \<mapsto> new_token ''token'' now ''u'' ''c'' ''deploy prod'')\<rparr>)" by blast
  define t where t: "t = new_token ''token'' now ''u'' ''c'' ''deploy prod''"
  note h = h [folded t]
  have p: "Parse ''deploy prod now'' = Returns [''deploy'', ''prod'', ''now'']"
    using parse_unquoted [of "''deploy prod now''"] by (simp add: trim_space_id edge_byte_def blank_def plain_byte_def)
  have tokens: "token_service ?S ref_holds" by (rule ref_stores.local_token.token_service_axioms)
  have get: "ts_Get ?S ''token'' w = (Returns t, w)"
    using token_service.get_token [OF tokens, OF h, of "''token''"] by simp
  obtain req where post: "HandlePostToken ?S ref_enricher ''token'' ''now'' w = (Ret (StatusAccepted, Some req), w)"
    using get p by (simp add: HandlePostToken_def sendMessage_def ref_enricher_def t new_token_def)
  have plain: "plain_text ''deploy prod''" by (simp add: plain_text_def plain_byte_def edge_byte_def)
  from api_requests_follow_tokens [OF tokens, OF h, OF post] plain
  have "req_UserID req = ''u''" "\<exists>more. req_Command req # req_Args req = ''deploy'' # ''prod'' # more"
    by (auto simp: t new_token_def ref_enricher_def blank_def)
  with w post show ?thesis by blast
qed

end
