(* ===== verification/Regexps.thy ===== *)
theory Regexps
  imports Prelude
begin

text \<open>
  The part of Go's package \<^verbatim>\<open>regexp\<close> that the chat client uses: literal bytes, \<^verbatim>\<open>.*\<close>, groups, sequence and
  alternation, with the leftmost match of the first alternative and the longest runs tried first.
  \<^verbatim>\<open>.\<close> matches no line feed; as the bytes beside it in the patterns are ASCII, matching bytes and
  matching runes agree.
\<close>

section \<open>Expressions\<close>

datatype regexp = Lit char | AnyRun | Group nat regexp | Cat regexp regexp | Alt regexp regexp

text \<open>The text of an expression, as it is written in the code.\<close>

fun show_regexp :: "regexp \<Rightarrow> string" where
  "show_regexp (Lit c) = (if c = CHR 0x5C then [c, c] else [c])"
| "show_regexp AnyRun = ''.*''"
| "show_regexp (Group i e) = ''('' @ show_regexp e @ '')''"
| "show_regexp (Cat e f) = show_regexp e @ show_regexp f"
| "show_regexp (Alt e f) = show_regexp e @ ''|'' @ show_regexp f"

fun lits :: "string \<Rightarrow> regexp \<Rightarrow> regexp" where
  "lits [] e = e"
| "lits (c # s) e = Cat (Lit c) (lits s e)"

section \<open>Matching\<close>

text \<open>
  All ways in which a prefix of the input matches, the preferred ones first: the groups, the matched
  bytes and the rest.
\<close>

fun prefix_matches :: "regexp \<Rightarrow> string \<Rightarrow> ((nat \<Rightarrow> string option) \<times> string \<times> string) list" where
  "prefix_matches (Lit c) s = (case s of [] \<Rightarrow> [] | d # r \<Rightarrow> if d = c then [(\<lambda>_. None, [c], r)] else [])"
| "prefix_matches AnyRun s =
     map (\<lambda>n. (\<lambda>_. None, take n s, drop n s)) (rev [0..<Suc (length (takeWhile (\<lambda>c. c \<noteq> CHR 0x0A) s))])"
| "prefix_matches (Group i e) s = map (\<lambda>(g, u, r). (g(i \<mapsto> u), u, r)) (prefix_matches e s)"
| "prefix_matches (Cat e f) s =
     concat (map (\<lambda>(g, u, r). map (\<lambda>(h, v, t). (g ++ h, u @ v, t)) (prefix_matches f r)) (prefix_matches e s))"
| "prefix_matches (Alt e f) s = prefix_matches e s @ prefix_matches f s"

fun find_match :: "regexp \<Rightarrow> string \<Rightarrow> ((nat \<Rightarrow> string option) \<times> string) option" where
  "find_match e s =
     (case prefix_matches e s of
        (g, u, r) # _ \<Rightarrow> Some (g, u)
      | [] \<Rightarrow> (case s of [] \<Rightarrow> None | _ # t \<Rightarrow> find_match e t))"

declare find_match.simps [simp del]

text \<open>The match and its groups, of which those that take no part are empty; nil without a match.\<close>

definition FindStringSubmatch :: "regexp \<Rightarrow> nat \<Rightarrow> string \<Rightarrow> string list" where
  "FindStringSubmatch e groups s =
     (case find_match e s of
        None \<Rightarrow> []
      | Some (g, u) \<Rightarrow> u # map (\<lambda>i. case g i of None \<Rightarrow> [] | Some x \<Rightarrow> x) [1..<Suc groups])"

section \<open>Matches\<close>

lemma prefix_matches_split: "(g, u, r) \<in> set (prefix_matches e s) \<Longrightarrow> s = u @ r"
proof (induction e arbitrary: s g u r)
  case (Lit c)
  then show ?case by (auto split: list.splits if_splits)
next
  case AnyRun
  then show ?case by auto
next
  case (Group i e)
  then show ?case by auto
next
  case (Cat e f)
  from Cat.prems obtain g1 u1 r1 h v where
    m: "(g1, u1, r1) \<in> set (prefix_matches e s)" "(h, v, r) \<in> set (prefix_matches f r1)" "u = u1 @ v"
    by auto
  from Cat.IH(1) [OF m(1)] Cat.IH(2) [OF m(2)] m(3) show ?case by simp
next
  case (Alt e f)
  then show ?case by auto
qed

text \<open>Literals in front of an expression match exactly when the input begins with them.\<close>

lemma prefix_matches_lits:
  "prefix_matches (lits p e) s =
     (if take (length p) s = p then map (\<lambda>(g, u, r). (g, p @ u, r)) (prefix_matches e (drop (length p) s)) else [])"
proof (induction p arbitrary: s)
  case Nil
  show ?case by (simp add: case_prod_unfold)
next
  case (Cons c p)
  show ?case
  proof (cases s)
    case Nil
    then show ?thesis by simp
  next
    case (Cons d t)
    then show ?thesis
      by (simp add: Cons.IH case_prod_unfold comp_def)
  qed
qed

text \<open>
  A run takes as much as leaves a match to the rest; without the byte after it there is none, and up to
  its last occurrence it takes everything.
\<close>

lemma find_match_first:
  "prefix_matches e s = m # ms \<Longrightarrow> find_match e s = Some (fst m, fst (snd m))"
  by (subst find_match.simps) (auto split: prod.splits)

lemma byte_after_runs:
  assumes "CHR 0x0A \<notin> set x" and "s = x @ [c]"
  shows "\<exists>ms. concat (map (\<lambda>n. map (\<lambda>(h, v, t). (G n ++ h, take n s @ v, t)) (prefix_matches (Lit c) (drop n s)))
      (rev [0..<Suc (length (takeWhile (\<lambda>c. c \<noteq> CHR 0x0A) s))])) = (G (length x), s, []) # ms"
proof -
  let ?m = "\<lambda>n. map (\<lambda>(h, v, t). (G n ++ h, take n s @ v, t)) (prefix_matches (Lit c) (drop n s))"
  let ?k = "length (takeWhile (\<lambda>c. c \<noteq> CHR 0x0A) s)"
  have k: "?k = length x \<or> ?k = Suc (length x)"
    using assms by (simp add: takeWhile_append)
  have "?m (Suc (length x)) = []" by (simp add: assms(2))
  moreover have "?m (length x) = [(G (length x), s, [])]" by (simp add: assms(2) map_add_def)
  ultimately show ?thesis using k by auto
qed

lemma run_then_last:
  assumes "CHR 0x0A \<notin> set x"
  shows "\<exists>ms. prefix_matches (Cat AnyRun (Lit c)) (x @ [c]) = (\<lambda>_. None, x @ [c], []) # ms"
    and "\<exists>ms. prefix_matches (Cat (Group i AnyRun) (Lit c)) (x @ [c]) = ([i \<mapsto> x], x @ [c], []) # ms"
  using byte_after_runs [OF assms refl, where c = c and G = "\<lambda>n. \<lambda>_. None"]
    byte_after_runs [OF assms refl, where c = c and G = "\<lambda>n. [i \<mapsto> take n (x @ [c])]"]
  by (simp_all add: comp_def case_prod_unfold del: prefix_matches.simps(1) upt_Suc)

lemma run_without:
  assumes "c \<notin> set s"
  shows "prefix_matches (Cat (Group i AnyRun) (Lit c)) s = []"
proof -
  have "prefix_matches (Lit c) (drop n s) = []" for n
    using assms set_drop_subset [of n s] by (auto split: list.split)
  then show ?thesis by (auto simp: case_prod_unfold simp del: prefix_matches.simps(1) upt_Suc)
qed

end
