(* ===== verification/Slack.thy ===== *)
theory Slack
  imports Api Auth Replies Regexps
begin

text \<open>
  The chat client (\<^verbatim>\<open>slack/slack.go\<close>): which messages it cares about, the requests it makes of them, the links
  it writes and reads, and how it posts replies. What Slack answers (the names of users and channels,
  the identifier of the bot) is a record of functions; opening the connection is I/O.
\<close>

section \<open>Slack\<close>

record slack_api =
  sl_GetUserInfo :: "string \<Rightarrow> string result"
  sl_GetChannelInfo :: "string \<Rightarrow> string result"
  sl_botID :: string

record message_event =
  ev_User :: string
  ev_Channel :: string
  ev_Text :: string

datatype slack_event = MessageEvent message_event | OtherEvent

text \<open>A message that is posted: its channel, its text, and an attachment with its color.\<close>

datatype post = PostMessage (post_channel: string) (post_text: string) (post_attachment: "(string \<times> string) option")

section \<open>The message matcher\<close>

record messageMatcher =
  mm_botID :: string
  mm_prefixMatches :: "string list"
  mm_stealth :: bool

definition newMessageMatcher :: "bool \<Rightarrow> messageMatcher" where
  "newMessageMatcher stealth = \<lparr>mm_botID = [], mm_prefixMatches = [], mm_stealth = stealth\<rparr>"

definition getUser :: "slack_api \<Rightarrow> string \<Rightarrow> string" where
  "getUser A userID = (case sl_GetUserInfo A userID of Inl _ \<Rightarrow> ''unknown-user'' | Inr name \<Rightarrow> name)"

definition isIMChannel :: "string \<Rightarrow> bool" where
  "isIMChannel channel = has_prefix channel ''D''"

definition shouldIgnoreUser :: "slack_api \<Rightarrow> auth_state \<Rightarrow> messageMatcher \<Rightarrow> string \<Rightarrow> bool" where
  "shouldIgnoreUser A auth m userID = (if mm_stealth m then \<not> IsKnownUser auth (getUser A userID) else False)"

definition shouldIgnoreChannel :: "messageMatcher \<Rightarrow> string \<Rightarrow> bool" where
  "shouldIgnoreChannel m channel = (if mm_stealth m then \<not> isIMChannel channel else False)"

definition getChannel :: "slack_api \<Rightarrow> string \<Rightarrow> string" where
  "getChannel A channelID =
     (if isIMChannel channelID then ''IM''
      else (case sl_GetChannelInfo A channelID of Inl _ \<Rightarrow> ''unknown-channel'' | Inr name \<Rightarrow> name))"

definition user_link :: "string \<Rightarrow> string" where
  "user_link userID = ''<@'' @ userID @ ''>''"

definition matcher_init :: "slack_api \<Rightarrow> messageMatcher \<Rightarrow> messageMatcher" where
  "matcher_init A m =
     (if mm_botID m = [] then m\<lparr>mm_botID := sl_botID A, mm_prefixMatches := [user_link (sl_botID A)]\<rparr> else m)"

definition isMyself :: "messageMatcher \<Rightarrow> message_event \<Rightarrow> bool" where
  "isMyself m ev = (ev_User ev = mm_botID m)"

definition shouldCare :: "slack_api \<Rightarrow> auth_state \<Rightarrow> messageMatcher \<Rightarrow> message_event \<Rightarrow> string option" where
  "shouldCare A auth m ev =
     (if isMyself m ev then None
      else if shouldIgnoreUser A auth m (ev_User ev) then None
      else if shouldIgnoreChannel m (ev_Channel ev) then None
      else if isIMChannel (ev_Channel ev) then Some (ev_Text ev)
      else (case find (has_prefix (ev_Text ev)) (mm_prefixMatches m) of
              Some match \<Rightarrow> Some (trim_space (drop (length match) (ev_Text ev)))
            | None \<Rightarrow> None))"

record message =
  ms_text :: string
  ms_channel :: string
  ms_channelID :: string
  ms_username :: string
  ms_userID :: string
  ms_isIM :: bool

definition message_GetUserLink :: "message \<Rightarrow> string" where
  "message_GetUserLink m = user_link (ms_userID m)"

definition message_GetChannelLink :: "message \<Rightarrow> string" where
  "message_GetChannelLink m = ''<#'' @ ms_channelID m @ ''|'' @ ms_channel m @ ''>''"

definition Matches :: "slack_api \<Rightarrow> auth_state \<Rightarrow> messageMatcher \<Rightarrow> message_event \<Rightarrow> message result \<times> messageMatcher" where
  "Matches A auth m ev =
     (let m' = matcher_init A m
      in case shouldCare A auth m' ev of
           Some t \<Rightarrow>
             (Returns \<lparr>ms_text = t, ms_channel = getChannel A (ev_Channel ev), ms_channelID = ev_Channel ev,
                ms_username = getUser A (ev_User ev), ms_userID = ev_User ev, ms_isIM = isIMChannel (ev_Channel ev)\<rparr>, m')
         | None \<Rightarrow> (Fails ErrIgnoredMessage, m'))"

section \<open>Requests\<close>

text \<open>With an error comes the zero request.\<close>

definition requestFromMessage :: "message \<Rightarrow> request \<times> err option" where
  "requestFromMessage msg =
     (case Parse (ms_text msg) of
        Inl e \<Rightarrow> (zero_request, Some e)
      | Inr [] \<Rightarrow> (zero_request, Some ErrNoCommandToRun)
      | Inr (c # args) \<Rightarrow>
          (\<lparr>req_Command = c, req_Args = args, req_Username = ms_username msg, req_UserID = ms_userID msg,
            req_UserLink = message_GetUserLink msg, req_Channel = ms_channel msg, req_ChannelID = ms_channelID msg,
            req_ChannelLink = message_GetChannelLink msg, req_IsIM = ms_isIM msg\<rparr>, None))"

section \<open>Replies\<close>

datatype replyStyle = nullReplyStyle | textReplyStyle | attachmentReplyStyle

definition getReplyStyle :: "string \<Rightarrow> replyStyle" where
  "getReplyStyle style =
     (if style \<in> {''null'', ''disabled'', ''nil''} then nullReplyStyle
      else if style = ''text'' then textReplyStyle
      else attachmentReplyStyle)"

text \<open>The messages that a reply posts; an error of the rendering or of the post is only logged.\<close>

fun style_Reply :: "template_engine \<Rightarrow> replyStyle \<Rightarrow> reply \<Rightarrow> post list run" where
  "style_Reply T nullReplyStyle r = Ret []"
| "style_Reply T textReplyStyle r =
     (case reply_Render T r of
        Panic m \<Rightarrow> Panic m
      | Ret (Inl e) \<Rightarrow> Ret []
      | Ret (Inr content) \<Rightarrow> Ret [PostMessage (reply_ChannelID r) content None])"
| "style_Reply T attachmentReplyStyle r =
     (case reply_Render T r of
        Panic m \<Rightarrow> Panic m
      | Ret (Inl e) \<Rightarrow> Ret []
      | Ret (Inr content) \<Rightarrow> Ret [PostMessage (reply_ChannelID r) [] (Some (content, reply_Color r))])"

definition client_Reply :: "template_engine \<Rightarrow> reply \<Rightarrow> post list run" where
  "client_Reply T r = style_Reply T (getReplyStyle (rp_style r)) r"

section \<open>Listening\<close>

record slack_env =
  se_api :: slack_api
  se_auth :: auth_state
  se_formatter :: formatter
  se_engine :: template_engine

text \<open>What the loop does with an event: requests into the channel, and posts.\<close>

datatype slack_effect = Sends request | Posts post

fun handle_event :: "slack_env \<Rightarrow> slack_event \<Rightarrow> messageMatcher \<Rightarrow> slack_effect list run \<times> messageMatcher" where
  "handle_event E OtherEvent m = (Ret [], m)"
| "handle_event E (MessageEvent ev) m =
     (case Matches (se_api E) (se_auth E) m ev of
        (Inl _, m') \<Rightarrow> (Ret [], m')
      | (Inr msg, m') \<Rightarrow>
          (case requestFromMessage msg of
             (r, Some e) \<Rightarrow>
               (case client_Reply (se_engine E) (FailureReply (se_formatter E) r e) of
                  Panic p \<Rightarrow> (Panic p, m')
                | Ret posts \<Rightarrow> (Ret (map Posts posts), m'))
           | (r, None) \<Rightarrow> (Ret [Sends r], m')))"

fun Listen :: "slack_env \<Rightarrow> slack_event list \<Rightarrow> messageMatcher \<Rightarrow> slack_effect list run" where
  "Listen E [] m = Ret []"
| "Listen E (ev # evs) m =
     (case handle_event E ev m of
        (Panic p, _) \<Rightarrow> Panic p
      | (Ret fx, m') \<Rightarrow> (case Listen E evs m' of Panic p \<Rightarrow> Panic p | Ret fxs \<Rightarrow> Ret (fx @ fxs)))"

section \<open>Links\<close>

text \<open>
  The two expressions. The one for channels is written in a raw string, where two backslashes are the
  escape of one backslash: the bar behind them is an alternation.
\<close>

definition user_link_regexp :: regexp where
  "user_link_regexp = lits ''<@'' (Cat (Group 1 AnyRun) (Lit CHR ''>''))"

definition channel_link_regexp :: regexp where
  "channel_link_regexp = Alt (lits ''<#'' (Cat (Group 1 AnyRun) (Lit CHR 0x5C))) (Cat AnyRun (Lit CHR ''>''))"

lemma link_regexps_as_written:
  "show_regexp user_link_regexp = ''<@(.*)>''"
  "show_regexp channel_link_regexp = ''<#(.*)'' @ [CHR 0x5C, CHR 0x5C] @ ''|.*>''"
  by (simp_all add: user_link_regexp_def channel_link_regexp_def)

definition ParseChannelLink :: "string \<Rightarrow> string result" where
  "ParseChannelLink channel =
     (let mm = FindStringSubmatch channel_link_regexp 1 channel
      in if length mm \<noteq> 2 then Fails (Errorf (''invalid channel link: '' @ channel)) else Returns (mm ! 1))"

definition ParseUserLink :: "string \<Rightarrow> string result" where
  "ParseUserLink userLink =
     (let mm = FindStringSubmatch user_link_regexp 1 userLink
      in if length mm \<noteq> 2 then Fails (Errorf (''invalid user link: '' @ userLink)) else Returns (mm ! 1))"

definition GetChannelLink :: "slack_api \<Rightarrow> string \<Rightarrow> string" where
  "GetChannelLink A channelID = ''<#'' @ channelID @ ''|'' @ getChannel A channelID @ ''>''"

text \<open>The client as the enricher of the API.\<close>

definition slack_enricher :: "slack_api \<Rightarrow> enricher" where
  "slack_enricher A =
     \<lparr>en_ParseChannelLink = ParseChannelLink, en_ParseUserLink = ParseUserLink, en_GetUsername = getUser A,
      en_GetUserLink = user_link, en_GetChannel = getChannel A, en_GetChannelLink = GetChannelLink A,
      en_IsIM = isIMChannel\<rparr>"

section \<open>Connecting\<close>

record connection_opts =
  co_Debug :: bool
  co_Token :: string
  co_Stealth :: bool

text \<open>\<open>auth_test\<close> is what Slack says of the token; the result is the matcher of the new client.\<close>

definition Connect :: "(string \<Rightarrow> err option) \<Rightarrow> connection_opts \<Rightarrow> messageMatcher result" where
  "Connect auth_test opts =
     (if co_Token opts = [] then Fails (Errorf ''could not connect to slack: SLACK_TOKEN env var is empty'')
      else (case auth_test (co_Token opts) of
              Some e \<Rightarrow> Fails (wrap_err ''could not connect to slack: '' e)
            | None \<Rightarrow> Returns (newMessageMatcher (co_Stealth opts))))"

section \<open>Reading links\<close>

lemma FindStringSubmatch_first:
  "prefix_matches e s = m # ms \<Longrightarrow>
   FindStringSubmatch e 1 s = [fst (snd m), case fst m 1 of None \<Rightarrow> [] | Some x \<Rightarrow> x]"
  by (simp add: FindStringSubmatch_def find_match_first)

lemma ParseUserLink_link:
  assumes "CHR 0x0A \<notin> set u"
  shows "ParseUserLink (user_link u) = Returns u"
proof -
  obtain ms where "prefix_matches (Cat (Group 1 AnyRun) (Lit CHR ''>'')) (u @ [CHR ''>'']) = ([1 \<mapsto> u], u @ [CHR ''>''], []) # ms"
    using run_then_last(2) [OF assms] by blast
  then have "prefix_matches user_link_regexp (user_link u) =
      ([1 \<mapsto> u], user_link u, []) # map (\<lambda>(g, v, r). (g, ''<@'' @ v, r)) ms"
    by (simp add: user_link_regexp_def user_link_def prefix_matches_lits del: prefix_matches.simps lits.simps)
  from FindStringSubmatch_first [OF this] show ?thesis by (simp add: ParseUserLink_def)
qed

lemma ParseChannelLink_link:
  assumes "CHR 0x5C \<notin> set s" and "CHR 0x0A \<notin> set s" and "s = t @ ''>''"
  shows "ParseChannelLink s = Returns []"
proof -
  have "CHR 0x0A \<notin> set t" using assms(2,3) by simp
  then obtain ms where m: "prefix_matches (Cat AnyRun (Lit CHR ''>'')) s = (\<lambda>_. None, s, []) # ms"
    using run_then_last(1) [where x = t and c = "CHR ''>''"] assms(3) by blast
  have "CHR 0x5C \<notin> set (drop 2 s)" using assms(1) in_set_dropD by metis
  then have "prefix_matches (lits ''<#'' (Cat (Group 1 AnyRun) (Lit CHR 0x5C))) s = []"
    using run_without [where s = "drop 2 s" and c = "CHR 0x5C" and i = 1]
    by (simp add: prefix_matches_lits numeral_2_eq_2 del: prefix_matches.simps lits.simps)
  with m have "prefix_matches channel_link_regexp s = (\<lambda>_. None, s, []) # ms"
    by (simp add: channel_link_regexp_def del: prefix_matches.simps(1-4) lits.simps)
  from FindStringSubmatch_first [OF this] show ?thesis by (simp add: ParseChannelLink_def)
qed

section \<open>Listening, step by step\<close>

text \<open>The text of a message that is meant for the bot.\<close>

definition addressed :: "string \<Rightarrow> message_event \<Rightarrow> string option" where
  "addressed botID ev =
     (if ev_User ev = botID then None
      else if isIMChannel (ev_Channel ev) then Some (ev_Text ev)
      else if has_prefix (ev_Text ev) (user_link botID) then Some (trim_space (drop (length (user_link botID)) (ev_Text ev)))
      else None)"

definition ignored_in_stealth :: "slack_env \<Rightarrow> message_event \<Rightarrow> bool" where
  "ignored_in_stealth E ev \<longleftrightarrow> \<not> (IsKnownUser (se_auth E) (getUser (se_api E) (ev_User ev)) \<and> isIMChannel (ev_Channel ev))"

definition matcher_of :: "slack_env \<Rightarrow> bool \<Rightarrow> messageMatcher \<Rightarrow> bool" where
  "matcher_of E stealth m \<longleftrightarrow> matcher_init (se_api E) m =
     \<lparr>mm_botID = sl_botID (se_api E), mm_prefixMatches = [user_link (sl_botID (se_api E))], mm_stealth = stealth\<rparr>"

lemma matcher_of_new: "matcher_of E stealth (newMessageMatcher stealth)"
  by (simp add: matcher_of_def matcher_init_def newMessageMatcher_def)

lemma matcher_of_init: "matcher_of E stealth m \<Longrightarrow> matcher_of E stealth (matcher_init (se_api E) m)"
  by (auto simp: matcher_of_def matcher_init_def)

lemma Matches_snd: "snd (Matches A auth m ev) = matcher_init A m"
  by (simp add: Matches_def Let_def split: option.split)

lemma handle_event_matcher: "matcher_of E stealth m \<Longrightarrow> matcher_of E stealth (snd (handle_event E ev m))"
proof (cases ev)
  case (MessageEvent x)
  assume m: "matcher_of E stealth m"
  have "snd (handle_event E ev m) = matcher_init (se_api E) m"
    using Matches_snd [of "se_api E" "se_auth E" m x]
    by (auto simp: MessageEvent split: prod.splits sum.splits option.splits run.splits)
  with matcher_of_init [OF m] show ?thesis by simp
qed simp

lemma Matches_addressed:
  assumes "matcher_of E stealth m"
  shows "fst (Matches (se_api E) (se_auth E) m ev) =
    (case (if stealth \<and> ignored_in_stealth E ev then None else addressed (sl_botID (se_api E)) ev) of
       Some t \<Rightarrow> Returns \<lparr>ms_text = t, ms_channel = getChannel (se_api E) (ev_Channel ev), ms_channelID = ev_Channel ev,
         ms_username = getUser (se_api E) (ev_User ev), ms_userID = ev_User ev, ms_isIM = isIMChannel (ev_Channel ev)\<rparr>
     | None \<Rightarrow> Fails ErrIgnoredMessage)"
  using assms
  by (auto simp: Matches_def matcher_of_def shouldCare_def isMyself_def shouldIgnoreUser_def shouldIgnoreChannel_def
      addressed_def ignored_in_stealth_def Let_def)

lemma Listen_events:
  assumes "matcher_of E stealth m" and "Listen E evs m = Ret fx" and "f \<in> set fx"
  shows "\<exists>ev m' fs. ev \<in> set evs \<and> matcher_of E stealth m' \<and> fst (handle_event E ev m') = Ret fs \<and> f \<in> set fs"
  using assms
proof (induction evs arbitrary: m fx)
  case (Cons ev evs)
  obtain r m' where h: "handle_event E ev m = (r, m')" by fastforce
  with Cons.prems(2) obtain fs gs where f: "r = Ret fs" "Listen E evs m' = Ret gs" "fx = fs @ gs"
    by (auto split: run.splits)
  have m': "matcher_of E stealth m'" using handle_event_matcher [OF Cons.prems(1), of ev] h by simp
  show ?case
  proof (cases "f \<in> set fs")
    case True
    with h f Cons.prems(1) show ?thesis by (intro exI [of _ ev] exI [of _ m] exI [of _ fs]) simp
  next
    case False
    with Cons.prems(3) f(3) have "f \<in> set gs" by simp
    from Cons.IH [OF m' f(2) this] show ?thesis by auto
  qed
qed simp

lemma client_Reply_channel: "client_Reply T r = Ret posts \<Longrightarrow> p \<in> set posts \<Longrightarrow> post_channel p = reply_ChannelID r"
  by (cases "getReplyStyle (rp_style r)") (auto simp: client_Reply_def split: run.splits sum.splits)

lemma FailureReply_channel: "reply_ChannelID (FailureReply f req e) = req_ChannelID req"
  by (simp add: reply_ChannelID_def FailureReply_def WithError_def newReplier_def)

lemma requestFromMessage_zero: "requestFromMessage msg = (r, Some e) \<Longrightarrow> r = zero_request"
  by (auto simp: requestFromMessage_def split: sum.splits list.splits)

lemma handle_event_Sends:
  assumes "matcher_of E stealth m" and "fst (handle_event E ev m) = Ret fs" and "Sends req \<in> set fs"
  shows "\<exists>x t. ev = MessageEvent x \<and> (stealth \<longrightarrow> \<not> ignored_in_stealth E x) \<and> addressed (sl_botID (se_api E)) x = Some t \<and>
    Parse t = Returns (req_Command req # req_Args req) \<and> req_UserID req = ev_User x \<and>
    req_Username req = getUser (se_api E) (ev_User x) \<and> req_UserLink req = user_link (ev_User x) \<and>
    req_ChannelID req = ev_Channel x \<and> req_IsIM req = isIMChannel (ev_Channel x)"
proof (cases ev)
  case OtherEvent
  with assms show ?thesis by simp
next
  case (MessageEvent x)
  obtain r m' where r: "Matches (se_api E) (se_auth E) m x = (r, m')" by fastforce
  show ?thesis
  proof (cases r)
    case (Inl e)
    with assms r MessageEvent show ?thesis by simp
  next
    case (Inr msg)
    with Matches_addressed [OF assms(1), of x] r obtain t where
      t: "addressed (sl_botID (se_api E)) x = Some t" "stealth \<longrightarrow> \<not> ignored_in_stealth E x" and
      msg: "msg = \<lparr>ms_text = t, ms_channel = getChannel (se_api E) (ev_Channel x), ms_channelID = ev_Channel x,
         ms_username = getUser (se_api E) (ev_User x), ms_userID = ev_User x, ms_isIM = isIMChannel (ev_Channel x)\<rparr>"
      by (auto split: option.splits if_splits)
    have "requestFromMessage msg = (req, None)"
      using assms(2,3) r Inr MessageEvent by (auto split: prod.splits option.splits run.splits)
    with t msg MessageEvent show ?thesis
      by (auto simp: requestFromMessage_def message_GetUserLink_def split: sum.splits list.splits)
  qed
qed

lemma handle_event_Posts:
  assumes "fst (handle_event E ev m) = Ret fs" and "Posts p \<in> set fs"
  shows "post_channel p = []"
proof (cases ev)
  case OtherEvent
  with assms show ?thesis by simp
next
  case (MessageEvent x)
  with assms obtain msg r e posts where "requestFromMessage msg = (r, Some e)"
    "client_Reply (se_engine E) (FailureReply (se_formatter E) r e) = Ret posts" "p \<in> set posts"
    by (auto split: prod.splits sum.splits option.splits run.splits)
  from client_Reply_channel [OF this(2,3)] requestFromMessage_zero [OF this(1)] show ?thesis
    by (simp add: FailureReply_channel zero_request_def)
qed

section \<open>Properties\<close>

text \<open>
  Every request that listening makes comes from a message that is meant for the bot: it was not written by
  the bot, it was sent directly or begins with the link of the bot, and the command and its arguments are
  what the rest of its text parses to; the user, the channel and whether it was direct are those of the
  message. In stealth mode the user is moreover a known one and the message was direct.
\<close>

theorem requests_come_from_messages:
  assumes "Listen E evs (newMessageMatcher stealth) = Ret effects" and "Sends req \<in> set effects"
  shows "\<exists>ev t. MessageEvent ev \<in> set evs \<and> addressed (sl_botID (se_api E)) ev = Some t \<and>
    Parse t = Returns (req_Command req # req_Args req) \<and> req_UserID req = ev_User ev \<and> req_UserID req \<noteq> sl_botID (se_api E) \<and>
    req_UserLink req = user_link (ev_User ev) \<and> req_ChannelID req = ev_Channel ev \<and>
    req_IsIM req = isIMChannel (ev_Channel ev) \<and>
    (stealth \<longrightarrow> req_IsIM req \<and> IsKnownUser (se_auth E) (req_Username req))"
proof -
  from Listen_events [OF matcher_of_new assms] obtain ev m fs where
    ev: "ev \<in> set evs" "matcher_of E stealth m" "fst (handle_event E ev m) = Ret fs" "Sends req \<in> set fs" by blast
  from handle_event_Sends [OF ev(2-4)] obtain x t where x: "ev = MessageEvent x" "stealth \<longrightarrow> \<not> ignored_in_stealth E x"
    "addressed (sl_botID (se_api E)) x = Some t" "Parse t = Returns (req_Command req # req_Args req)"
    "req_UserID req = ev_User x" "req_Username req = getUser (se_api E) (ev_User x)" "req_UserLink req = user_link (ev_User x)"
    "req_ChannelID req = ev_Channel x" "req_IsIM req = isIMChannel (ev_Channel x)"
    by blast
  have "ev_User x \<noteq> sl_botID (se_api E)" using x(3) by (simp add: addressed_def split: if_splits)
  with ev(1) x show ?thesis
    by (intro exI [of _ x] exI [of _ t]) (simp add: ignored_in_stealth_def)
qed

text \<open>
  C39: a message whose text is no command (it does not parse, or there are no words in it) is answered on no
  channel: every post that listening makes goes to the channel with the empty name, because the reply is
  built from the empty request that comes with the error.
\<close>

theorem unparsable_messages_answered_nowhere:
  assumes "Listen E evs (newMessageMatcher stealth) = Ret effects" and "Posts p \<in> set effects"
  shows "post_channel p = []"
proof -
  from Listen_events [OF matcher_of_new assms] obtain ev m fs where
    "fst (handle_event E ev m) = Ret fs" "Posts p \<in> set fs" by blast
  then show ?thesis by (rule handle_event_Posts)
qed

text \<open>
  The link of a user, in the form in which it is written, is read back as the identifier of the user.
\<close>

theorem user_link_round_trip:
  assumes "CHR 0x0A \<notin> set userID"
  shows "ParseUserLink (user_link userID) = Returns userID"
  by (rule ParseUserLink_link [OF assms])

text \<open>
  C38: a post to the API through the chat client loses its channel. The link of a channel, in the form in which the
  client itself writes it, is read back as the empty identifier, without an error: the request that
  the post sends has no channel and is no direct message, and every reply to it is posted to the empty
  channel.
\<close>

theorem api_requests_lose_their_channel:
  assumes "token_service S holds" and "holds w a" and "st_tokens a tokenID = Some t"
    and "tok_ChannelLink t = GetChannelLink A channelID"
    and "CHR 0x5C \<notin> set (GetChannelLink A channelID)" and "CHR 0x0A \<notin> set (GetChannelLink A channelID)"
    and "HandlePostToken S (slack_enricher A) tokenID message w = (Ret (resp, Some req), w')"
  shows "req_ChannelID req = [] \<and> \<not> req_IsIM req \<and>
    (\<forall>T r posts p. rp_request r = req \<longrightarrow> client_Reply T r = Ret posts \<longrightarrow> p \<in> set posts \<longrightarrow> post_channel p = [])"
proof -
  have get: "ts_Get S tokenID w = (Returns t, w)"
    using token_service.get_token [OF assms(1,2), of tokenID] assms(3) by simp
  have "ParseChannelLink (tok_ChannelLink t) = Returns []"
    unfolding assms(4)
    by (rule ParseChannelLink_link [OF assms(5,6), of "''<#'' @ channelID @ ''|'' @ getChannel A channelID"])
      (simp add: GetChannelLink_def)
  with get assms(7) have "req_ChannelID req = []" "req_IsIM req = isIMChannel []"
    by (auto simp: HandlePostToken_def sendMessage_def slack_enricher_def
        split: if_splits run.splits sum.splits list.splits)
  then show ?thesis
    using client_Reply_channel by (fastforce simp: isIMChannel_def has_prefix_def reply_ChannelID_def)
qed

section \<open>Examples\<close>

definition ref_slack :: slack_env where
  "ref_slack =
     \<lparr>se_api = \<lparr>sl_GetUserInfo = (\<lambda>i. if i = ''U1'' then Returns ''bob'' else Fails (Foreign ''user_not_found'')),
        sl_GetChannelInfo = (\<lambda>i. Returns ''general''), sl_botID = ''U9''\<rparr>,
      se_auth = Configure [(''dev'', [''bob''])] auth_init, se_formatter = Configure_formatter default_format,
      se_engine = ref_engine\<rparr>"

definition bobs_message :: "string \<Rightarrow> message_event" where
  "bobs_message t = \<lparr>ev_User = ''U1'', ev_Channel = ''D1'', ev_Text = t\<rparr>"

lemma ref_known: "IsKnownUser (se_auth ref_slack) u \<longleftrightarrow> u = ''bob''"
  by (simp add: ref_slack_def IsKnownUser_def Configure_def configure_group_def configure_user_def)

lemma ref_api:
  "getUser (se_api ref_slack) ''U1'' = ''bob''" "sl_botID (se_api ref_slack) = ''U9''"
  by (simp_all add: ref_slack_def getUser_def)

lemma ref_Matches:
  "Matches (se_api ref_slack) (se_auth ref_slack) (newMessageMatcher True) (bobs_message t) =
     (Returns \<lparr>ms_text = t, ms_channel = ''IM'', ms_channelID = ''D1'', ms_username = ''bob'', ms_userID = ''U1'', ms_isIM = True\<rparr>,
      matcher_init (se_api ref_slack) (newMessageMatcher True))"
  using Matches_addressed [OF matcher_of_new, of ref_slack True "bobs_message t"]
    Matches_snd [of "se_api ref_slack" "se_auth ref_slack" "newMessageMatcher True" "bobs_message t"]
  by (cases "Matches (se_api ref_slack) (se_auth ref_slack) (newMessageMatcher True) (bobs_message t)")
    (simp add: ignored_in_stealth_def ref_known addressed_def bobs_message_def isIMChannel_def has_prefix_def getChannel_def
      ref_api)

theorem requests_come_from_messages_witness:
  "\<exists>req. Listen ref_slack [MessageEvent (bobs_message ''echo hi''), OtherEvent] (newMessageMatcher True) = Ret [Sends req] \<and>
    req_Command req = ''echo'' \<and> req_Args req = [''hi''] \<and> req_UserID req = ''U1'' \<and> req_IsIM req"
proof -
  have p: "Parse ''echo hi'' = Returns [''echo'', ''hi'']"
    using parse_unquoted [of "''echo hi''"] by (simp add: trim_space_id edge_byte_def blank_def plain_byte_def)
  then obtain req where l: "Listen ref_slack [MessageEvent (bobs_message ''echo hi''), OtherEvent] (newMessageMatcher True) =
      Ret [Sends req]"
    by (simp add: ref_Matches requestFromMessage_def)
  from requests_come_from_messages [OF l, of req] p
  have "req_Command req = ''echo''" "req_Args req = [''hi'']" "req_UserID req = ''U1''" "req_IsIM req"
    by (auto simp: bobs_message_def addressed_def isIMChannel_def has_prefix_def ref_api)
  with l show ?thesis by blast
qed

theorem unparsable_messages_answered_nowhere_witness:
  "\<exists>p. Listen ref_slack [MessageEvent (bobs_message [])] (newMessageMatcher True) = Ret [Posts p] \<and> post_channel p = []"
proof -
  have "Parse [] = Returns []"
    using parse_unquoted [of "[]"] by (simp add: trim_space_id)
  moreover have "FailureReply (Configure_formatter default_format) zero_request ErrNoCommandToRun =
      WithOutput [] (FailureReply (Configure_formatter default_format) zero_request ErrNoCommandToRun)"
    by (simp add: WithOutput_def FailureReply_def WithError_def newReplier_def)
  with default_failure [OF ref_engine_reads] have "\<exists>c. reply_Render ref_engine
      (FailureReply (Configure_formatter default_format) zero_request ErrNoCommandToRun) = Ret (Returns c)"
    by metis
  moreover have "getReplyStyle (rp_style (FailureReply (Configure_formatter default_format) zero_request ErrNoCommandToRun)) =
      attachmentReplyStyle"
    by (simp add: FailureReply_def WithError_def newReplier_def Configure_formatter_def default_format_def replyStyle_Get_def
        getReplyStyle_def)
  ultimately obtain p where l: "Listen ref_slack [MessageEvent (bobs_message [])] (newMessageMatcher True) = Ret [Posts p]"
    by (auto simp: ref_Matches requestFromMessage_def client_Reply_def) (simp_all add: ref_slack_def)
  from unparsable_messages_answered_nowhere [OF l, of p] l show ?thesis by simp
qed

theorem user_link_round_trip_witness: "ParseUserLink (user_link ''U024BE7LH'') = Returns ''U024BE7LH''"
  by (rule user_link_round_trip) simp

text \<open>The token that was made with the link of a channel.\<close>

theorem api_requests_lose_their_channel_witness:
  "\<exists>w req. ts_Create (local_tokens ref_bolt ref_codec) ''<@U1>'' ''<#C1|general>'' ''deploy'' ref_world = ((''token'', None), w) \<and>
    HandlePostToken (local_tokens ref_bolt ref_codec) (slack_enricher (se_api ref_slack)) ''token'' ''now'' w =
      (Ret (StatusAccepted, Some req), w) \<and> req_UserID req = ''U1'' \<and> req_ChannelID req = []"
proof -
  let ?S = "local_tokens ref_bolt ref_codec" and ?A = "se_api ref_slack"
  have utf8: "list_all valid_utf8 [''<@U1>'', ''<#C1|general>'', ''deploy'']" by (simp add: valid_utf8_ascii)
  obtain w where w: "ts_Create ?S ''<@U1>'' ''<#C1|general>'' ''deploy'' ref_world = ((''token'', None), w)"
    using ref_create_token [OF utf8] by auto
  from ref_stores.local_create_token [OF ref_world_holds utf8 w] obtain now where
    h: "ref_holds w (nothing_stored\<lparr>st_tokens := (st_tokens nothing_stored)
      (''token'' \<mapsto> new_token ''token'' now ''<@U1>'' ''<#C1|general>'' ''deploy'')\<rparr>)" by blast
  define t where t: "t = new_token ''token'' now ''<@U1>'' ''<#C1|general>'' ''deploy''"
  note h = h [folded t]
  have tokens: "token_service ?S ref_holds" by (rule ref_stores.local_token.token_service_axioms)
  have get: "ts_Get ?S ''token'' w = (Returns t, w)"
    using token_service.get_token [OF tokens, OF h, of "''token''"] by simp
  have link: "tok_ChannelLink t = GetChannelLink ?A ''C1''" "''<@U1>'' = user_link ''U1''"
    by (simp_all add: t new_token_def GetChannelLink_def getChannel_def isIMChannel_def has_prefix_def ref_slack_def user_link_def)
  have "ParseUserLink ''<@U1>'' = Returns ''U1''" unfolding link(2) by (rule ParseUserLink_link) simp
  moreover have "ParseChannelLink ''<#C1|general>'' = Returns []"
    by (rule ParseChannelLink_link [of _ "''<#C1|general''"]) simp_all
  moreover have "Parse ''deploy now'' = Returns [''deploy'', ''now'']"
    using parse_unquoted [of "''deploy now''"] by (simp add: trim_space_id edge_byte_def blank_def plain_byte_def)
  ultimately obtain req where post: "HandlePostToken ?S (slack_enricher ?A) ''token'' ''now'' w = (Ret (StatusAccepted, Some req), w)"
    "req_UserID req = ''U1''"
    using get by (simp add: HandlePostToken_def sendMessage_def slack_enricher_def t new_token_def)
  have "CHR 0x5C \<notin> set (GetChannelLink ?A ''C1'')" "CHR 0x0A \<notin> set (GetChannelLink ?A ''C1'')"
    unfolding link(1) [symmetric] by (simp_all add: t new_token_def)
  from api_requests_lose_their_channel [OF tokens, OF h, OF _ link(1) this post(1)] w post show ?thesis by auto
qed

end
