(* ===== verification/Agent.thy ===== *)
theory Agent
  imports Pipeline Shell "HOL-Library.Sublist"
begin

text \<open>
  The agent (\<^verbatim>\<open>remote/agent/agent.go\<close>, \<^verbatim>\<open>remote_logger.go\<close>): its loop over what the server sends, the run of a
  received command with the log writer that sends the lines to the server, and what becomes of it when
  its context is cancelled. The connection is a parameter: of it only what gRPC documents is assumed.
\<close>

section \<open>The log writer of an agent\<close>

text \<open>
  Opening a stream for one entry, sending the entry on it, and cancelling its context, which the deferred call
  does whenever \<open>Append\<close> returns: the stream is then over, whether the entry has arrived or not.
\<close>

record 'w log_client =
  gc_open :: "'w \<Rightarrow> err option \<times> 'w"
  gc_Send :: "u64 \<Rightarrow> string \<Rightarrow> 'w \<Rightarrow> err option \<times> 'w"
  gc_cancel :: "'w \<Rightarrow> 'w"

definition grpcLogWriter :: "'w log_client \<Rightarrow> 'w log_writer" where
  "grpcLogWriter K =
     \<lparr>lw_Append = (\<lambda>jobID content w.
        case gc_open K w of
          (Some e, w') \<Rightarrow>
            (Fails (wrap_err (''Failed to get a remote appender for job '' @ show_u64 jobID @ '': '') e), gc_cancel K w')
        | (None, w') \<Rightarrow>
            (case gc_Send K jobID content w' of
               (Some e, w'') \<Rightarrow> (Fails e, gc_cancel K w'')
             | (None, w'') \<Rightarrow> (Returns (), gc_cancel K w''))),
      lw_SetError = (\<lambda>jobID e w. (Returns (), w))\<rparr>"

definition nullReader :: "'w log_reader" where
  "nullReader =
     \<lparr>lr_Get = (\<lambda>i w. (Returns \<lparr>jl_Error = [], jl_Output = []\<rparr>, w)),
      lr_Head = (\<lambda>i n w. (Returns \<lparr>jl_Error = [], jl_Output = []\<rparr>, w)),
      lr_Tail = (\<lambda>i n w. (Returns \<lparr>jl_Error = [], jl_Output = []\<rparr>, w))\<rparr>"

text \<open>The providers after \<open>Connect\<close>.\<close>

definition agent_providers :: "'w log_client \<Rightarrow> 'w providers \<Rightarrow> 'w providers" where
  "agent_providers K p =
     Register_providers \<lparr>pp_Aliases = None, pp_Jobs = None, pp_APITokens = None, pp_LogReader = Some nullReader,
       pp_LogWriter = Some (grpcLogWriter K)\<rparr> p"

definition GetGRPCTimeout :: "i64 \<Rightarrow> i64" where
  "GetGRPCTimeout t = (if t = 0 then 10 * second else t)"

section \<open>Running a command\<close>

text \<open>\<open>ans\<close> is what the surroundings answer: how a process runs, and how a remote command of this agent ends.\<close>

fun agent_Execute :: "'w builtin_env \<Rightarrow> runner \<times> remote_end \<Rightarrow> command \<Rightarrow> job \<Rightarrow> 'w \<Rightarrow> outcome \<times> 'w" where
  "agent_Execute E ans (BuiltinCommand b) j w = builtin_Execute b E j w"
| "agent_Execute E ans (ShellCommand o1) j w = shellCommand_Execute (pv_LogWriter (be_providers E)) (fst ans) o1 j w"
| "agent_Execute E ans (RemoteCommand o1 agentID) j w = (remoteCommand_Execute (snd ans), w)"

definition received_request :: "command_request \<Rightarrow> request" where
  "received_request cmd =
     \<lparr>req_Command = cq_Command cmd, req_Args = cq_Args cmd, req_Username = cq_Username cmd, req_UserID = cq_UserID cmd,
      req_UserLink = cq_UserLink cmd, req_Channel = cq_Channel cmd, req_ChannelID = cq_ChannelID cmd,
      req_ChannelLink = cq_ChannelLink cmd, req_IsIM = cq_IsIM cmd\<rparr>"

text \<open>The message that the agent finishes the command with.\<close>

definition runCommand :: "'w builtin_env \<Rightarrow> string \<Rightarrow> runner \<times> remote_end \<Rightarrow> time \<Rightarrow> command_request \<Rightarrow> 'w \<Rightarrow>
    command_finish \<times> 'w" where
  "runCommand E agentID ans now cmd w =
     (case Find (pv_Aliases (be_providers E)) (be_registry E) (received_request cmd) w of
        ((None, rq), w') \<Rightarrow>
          (\<lparr>cf_AgentID = agentID, cf_JobID = cq_JobID cmd, cf_Content = [],
            cf_Error = ''could not find command '' @ cq_Command cmd @ '' in remote agent''\<rparr>, w')
      | ((Some localCmd, rq), w') \<Rightarrow>
          (case agent_Execute E ans localCmd
                  \<lparr>job_ID = cq_JobID cmd, job_Request = rq, job_StartTime = now, job_EndTime = zero_time,
                   job_Status = JobRunningStatus\<rparr> w' of
             ((content, e), w'') \<Rightarrow>
               (\<lparr>cf_AgentID = agentID, cf_JobID = cq_JobID cmd, cf_Content = content,
                 cf_Error = (case e of None \<Rightarrow> [] | Some x \<Rightarrow> err_text x)\<rparr>, w'')))"

section \<open>The loop\<close>

text \<open>
  What the loop meets: \<open>RegisterAgent\<close> returned, \<open>Recv\<close> returned, a command has finished, or a signal asks for
  a reconnection. The attempts are those of the backoff: waiting counts one, a registration resets it.
\<close>

datatype agent_recv = Received command_request | RecvEOF | RecvUnavailable | RecvCanceled | RecvFailed

datatype agent_event = RegisterReturned "err option" | RecvReturned agent_recv | CommandDone

datatype agent_phase = Registering | Listening | Quit

record agent_loop =
  al_phase :: agent_phase
  al_attempt :: nat
  al_started :: "command_request list"
  al_wg :: nat
  al_cancelled :: bool

definition Run_start :: agent_loop where
  "Run_start = \<lparr>al_phase = Registering, al_attempt = 0, al_started = [], al_wg = 0, al_cancelled = False\<rparr>"

fun agent_step :: "agent_event \<Rightarrow> agent_loop \<Rightarrow> agent_loop" where
  "agent_step (RegisterReturned e) s =
     (if al_phase s \<noteq> Registering then s
      else (case e of
              Some _ \<Rightarrow> (if al_attempt s > 10 then s\<lparr>al_phase := Quit\<rparr> else s\<lparr>al_attempt := Suc (al_attempt s)\<rparr>)
            | None \<Rightarrow> s\<lparr>al_phase := Listening, al_attempt := 0\<rparr>))"
| "agent_step (RecvReturned r) s =
     (if al_phase s \<noteq> Listening then s
      else (case r of
              Received cmd \<Rightarrow> s\<lparr>al_started := al_started s @ [cmd], al_wg := Suc (al_wg s)\<rparr>
            | RecvEOF \<Rightarrow> s\<lparr>al_phase := Quit\<rparr>
            | RecvUnavailable \<Rightarrow> s\<lparr>al_phase := Registering\<rparr>
            | RecvCanceled \<Rightarrow> s\<lparr>al_phase := Quit\<rparr>
            | RecvFailed \<Rightarrow> s\<lparr>al_phase := Quit\<rparr>))"
| "agent_step CommandDone s = s\<lparr>al_wg := al_wg s - 1\<rparr>"

definition Run :: "agent_event list \<Rightarrow> agent_loop \<Rightarrow> agent_loop" where
  "Run evs s = fold agent_step evs s"

text \<open>
  \<open>Reconnect\<close> cancels the context, which is never made anew, and so does \<open>Shutdown\<close>, which then waits until
  no command runs any more (\<^verbatim>\<open>pipeline\<close> is never set). Once the context is cancelled, a registration
  fails and a receive is cancelled: this is what gRPC does with a cancelled context.
\<close>

definition Reconnect :: "agent_loop \<Rightarrow> agent_loop" where
  "Reconnect s = s\<lparr>al_cancelled := True\<rparr>"

definition agent_Shutdown :: "agent_loop \<Rightarrow> agent_loop" where
  "agent_Shutdown s = s\<lparr>al_cancelled := True\<rparr>"

definition shutdown_complete :: "agent_loop \<Rightarrow> bool" where
  "shutdown_complete s \<longleftrightarrow> al_wg s = 0"

text \<open>The loop makes one call at a time, and a command ends only once.\<close>

fun possible :: "agent_event \<Rightarrow> agent_loop \<Rightarrow> bool" where
  "possible (RegisterReturned e) s = (al_phase s = Registering \<and> (al_cancelled s \<longrightarrow> e \<noteq> None))"
| "possible (RecvReturned r) s = (al_phase s = Listening \<and> (al_cancelled s \<longrightarrow> r = RecvCanceled))"
| "possible CommandDone s = (al_wg s \<noteq> 0)"

fun possible_run :: "agent_event list \<Rightarrow> agent_loop \<Rightarrow> bool" where
  "possible_run [] s = True"
| "possible_run (ev # evs) s = (possible ev s \<and> possible_run evs (agent_step ev s))"

definition calls :: "agent_event list \<Rightarrow> agent_event list" where
  "calls evs = filter (\<lambda>ev. ev \<noteq> CommandDone) evs"

text \<open>The calls that the loop still makes once its context is cancelled.\<close>

definition calls_left :: "agent_loop \<Rightarrow> nat" where
  "calls_left s = (case al_phase s of Quit \<Rightarrow> 0 | Listening \<Rightarrow> 1 | Registering \<Rightarrow> 12 - al_attempt s)"

lemma Run_simps [simp]: "Run [] s = s" "Run (ev # evs) s = Run evs (agent_step ev s)" "Run (xs @ ys) s = Run ys (Run xs s)"
  by (simp_all add: Run_def)

definition loop_ok :: "agent_loop \<Rightarrow> bool" where
  "loop_ok s \<longleftrightarrow> al_attempt s \<le> 11 \<and> (al_phase s = Listening \<longrightarrow> al_attempt s = 0) \<and> al_wg s \<le> length (al_started s)"

lemma loop_ok_start: "loop_ok Run_start"
  by (simp add: loop_ok_def Run_start_def)

lemma agent_step_ok: "loop_ok s \<Longrightarrow> loop_ok (agent_step ev s)"
  by (cases "(ev, s)" rule: agent_step.cases) (auto simp: loop_ok_def split: option.split agent_recv.split)

lemma Run_ok: "loop_ok s \<Longrightarrow> loop_ok (Run evs s)"
  by (induction evs arbitrary: s) (simp_all add: agent_step_ok)

lemma cancelled_step:
  assumes "loop_ok s" and "possible ev s" and "al_cancelled s"
  shows "al_cancelled (agent_step ev s) \<and> al_started (agent_step ev s) = al_started s \<and>
    (if ev = CommandDone then 0 else 1) + calls_left (agent_step ev s) = calls_left s"
  using assms
  by (cases "(ev, s)" rule: agent_step.cases) (auto simp: loop_ok_def calls_left_def split: option.split agent_phase.split)

lemma cancelled_run:
  "loop_ok s \<Longrightarrow> possible_run evs s \<Longrightarrow> al_cancelled s \<Longrightarrow>
   al_started (Run evs s) = al_started s \<and> length (calls evs) + calls_left (Run evs s) = calls_left s"
proof (induction evs arbitrary: s)
  case (Cons ev evs)
  from cancelled_step [of s ev] Cons.IH [OF agent_step_ok [OF Cons.prems(1), of ev]] Cons.prems show ?case
    by (auto simp: calls_def split: if_splits)
qed (simp add: calls_def)

section \<open>A run on an agent\<close>

text \<open>
  What gRPC documents of a connection: a send that succeeds has handed its entry over, and no more; it does not wait
  until the server has it, and a stream that ends early may lose it. A send that fails may have handed
  it over or not. \<open>sent\<close> reads from the agent's world the entries handed over so far.
\<close>

definition hands_over :: "'w log_client \<Rightarrow> ('w \<Rightarrow> (u64 \<times> string) list) \<Rightarrow> bool" where
  "hands_over K sent \<longleftrightarrow> (\<forall>w. sent (snd (gc_open K w)) = sent w \<and> sent (gc_cancel K w) = sent w) \<and>
     (\<forall>i l w. sent (snd (gc_Send K i l w)) = sent w @ [(i, l)] \<or>
       fst (gc_Send K i l w) \<noteq> None \<and> sent (snd (gc_Send K i l w)) = sent w)"

definition never_fails :: "'w log_client \<Rightarrow> bool" where
  "never_fails K \<longleftrightarrow> (\<forall>w. fst (gc_open K w) = None) \<and> (\<forall>i l w. fst (gc_Send K i l w) = None)"

text \<open>The entries that arrive at the log server, in the order in which they do.\<close>

definition arrive :: "'w log_writer \<Rightarrow> (u64 \<times> string) list \<Rightarrow> 'w \<Rightarrow> 'w" where
  "arrive W xs w = fold (\<lambda>(i, l). logWriterServer_Append W (LogEntry i l)) xs w"

text \<open>The lines that a run writes, and what it returns.\<close>

definition run_lines :: "runner \<Rightarrow> command_opts \<Rightarrow> job \<Rightarrow> string list" where
  "run_lines run c j =
     (case run (opts_GetCmd c) (opts_GetArgs c @ args_of j) (opts_GetTimeout c) of
        NoStdout e \<Rightarrow> [] | NoStderr e \<Rightarrow> [] | NotStarted e \<Rightarrow> []
      | Interrupted out e \<Rightarrow> scan_lines out
      | Finished out err_out e \<Rightarrow> scan_lines (out @ err_out))"

definition run_outcome :: "runner \<Rightarrow> command_opts \<Rightarrow> job \<Rightarrow> outcome" where
  "run_outcome run c j =
     (case run (opts_GetCmd c) (opts_GetArgs c @ args_of j) (opts_GetTimeout c) of
        NoStdout e \<Rightarrow> failing (wrap_err ''could not create stdout pipe: '' e)
      | NoStderr e \<Rightarrow> failing (wrap_err ''could not create stderr pipe: '' e)
      | NotStarted e \<Rightarrow> failing e
      | Interrupted out e \<Rightarrow> failing e
      | Finished out err_out e \<Rightarrow>
          (case e of Some x \<Rightarrow> failing x | None \<Rightarrow> printing (concat (map (\<lambda>l. l @ newline) (run_lines run c j)))))"

lemma shell_run:
  "shellCommand_Execute W run c j w =
     (run_outcome run c j,
      (let w1 = fold (\<lambda>l w. snd (lw_Append W (job_ID j) l w)) (run_lines run c j) w
       in case snd (run_outcome run c j) of None \<Rightarrow> w1 | Some e \<Rightarrow> snd (lw_SetError W (job_ID j) (Some e) w1)))"
  by (simp add: shellCommand_Execute_def run_outcome_def run_lines_def AppendLogs_fold shell_SetError_def Let_def
      split: process.split option.split)

lemma run_lines_short: "l \<in> set (run_lines run c j) \<Longrightarrow> length l < MaxScanTokenSize"
  by (auto simp: run_lines_def scan_lines_short split: process.splits)

lemma grpc_Append:
  assumes "hands_over K sent"
  obtains xs where "sent (snd (lw_Append (grpcLogWriter K) i l w)) = sent w @ map (Pair i) xs" "subseq xs [l]"
    "never_fails K \<Longrightarrow> xs = [l]"
proof (cases "fst (gc_open K w) = None")
  case False
  then obtain e w' where w': "gc_open K w = (Some e, w')" by (cases "gc_open K w") auto
  then have "sent w' = sent w" using assms unfolding hands_over_def by (metis snd_conv)
  with w' have "sent (snd (lw_Append (grpcLogWriter K) i l w)) = sent w"
    using assms by (simp add: grpcLogWriter_def hands_over_def)
  moreover have "\<not> never_fails K" using False by (auto simp: never_fails_def)
  ultimately have "sent (snd (lw_Append (grpcLogWriter K) i l w)) = sent w" "\<not> never_fails K" .
  with that [of "[]"] show thesis by simp
next
  case True
  let ?w = "snd (gc_open K w)"
  from True have s: "sent (snd (lw_Append (grpcLogWriter K) i l w)) = sent (snd (gc_Send K i l ?w))"
    using assms by (cases "gc_open K w") (auto simp: grpcLogWriter_def hands_over_def split: prod.split option.split)
  have "sent ?w = sent w" using assms by (simp add: hands_over_def)
  with assms consider "sent (snd (gc_Send K i l ?w)) = sent w @ [(i, l)]"
    | "fst (gc_Send K i l ?w) \<noteq> None" "sent (snd (gc_Send K i l ?w)) = sent w"
    unfolding hands_over_def by metis
  then show thesis
  proof cases
    case 2
    then have "\<not> never_fails K" by (auto simp: never_fails_def)
    with 2(2) s that [of "[]"] show thesis by simp
  qed (use s that [of "[l]"] in simp)
qed

lemma grpc_fold:
  assumes "hands_over K sent"
  shows "\<exists>xs. sent (fold (\<lambda>l w. snd (lw_Append (grpcLogWriter K) i l w)) ls w) = sent w @ map (Pair i) xs \<and>
    subseq xs ls \<and> (never_fails K \<longrightarrow> xs = ls)"
proof (induction ls arbitrary: w)
  case (Cons l ls)
  obtain xs where xs: "sent (snd (lw_Append (grpcLogWriter K) i l w)) = sent w @ map (Pair i) xs" "subseq xs [l]"
    "never_fails K \<Longrightarrow> xs = [l]" using grpc_Append [OF assms, of i l w] by blast
  obtain ys where "sent (fold (\<lambda>l w. snd (lw_Append (grpcLogWriter K) i l w)) (l # ls) w) =
      (sent w @ map (Pair i) xs) @ map (Pair i) ys" "subseq ys ls" "never_fails K \<longrightarrow> ys = ls"
    using Cons.IH [of "snd (lw_Append (grpcLogWriter K) i l w)"] by (auto simp: xs(1))
  moreover from list_emb_append_mono [OF xs(2) this(2)] have "subseq (xs @ ys) (l # ls)" by simp
  ultimately show ?case using xs(3) by (intro exI [of _ "xs @ ys"]) auto
qed simp

lemma grpc_SetError: "lw_SetError (grpcLogWriter K) i e s = (Returns (), s)"
  by (simp add: grpcLogWriter_def)

lemma arrive_job: "arrive W (map (Pair i) ls) w = fold (\<lambda>l w. snd (lw_Append W i l w)) ls w"
  by (induction ls arbitrary: w) (simp_all add: arrive_def)

lemma arrived_lines:
  assumes "mset xs \<subseteq># mset (map (Pair i) ls)"
  shows "xs = map (Pair i) (map snd xs)" and "set (map snd xs) \<subseteq> set ls" and "length xs \<le> length ls"
proof -
  have sub: "set xs \<subseteq> Pair i ` set ls" using set_mset_mono [OF assms] by simp
  then show "set (map snd xs) \<subseteq> set ls" "xs = map (Pair i) (map snd xs)"
    by (auto simp: comp_def intro!: map_idI [symmetric])
  show "length xs \<le> length ls" using size_mset_mono [OF assms] by simp
qed

lemma run_same_request:
  assumes "args_of j = args_of j'"
  shows "run_lines run c j = run_lines run c j'" and "run_outcome run c j = run_outcome run c j'"
proof -
  show same: "run_lines run c j = run_lines run c j'" by (simp add: run_lines_def assms)
  show "run_outcome run c j = run_outcome run c j'" by (simp add: run_outcome_def assms same split: process.split option.split)
qed

lemma local_SetError_text:
  "lw_SetError (local_log_writer B) i (Some (Errorf (err_text e))) w = lw_SetError (local_log_writer B) i (Some e) w"
  proof -
  have "logs_SetError_tx B i (Errorf (err_text e)) = logs_SetError_tx B i e"
    unfolding logs_SetError_tx_def err_text.simps ..
  then have "logs_SetError B i (Some (Errorf (err_text e))) = logs_SetError B i (Some e)"
    unfolding logs_SetError_def option.case by simp
  then show ?thesis by (simp add: local_log_writer_def)
qed

text \<open>What the store holds when some of the lines have arrived before the answer and others after it.\<close>

context reliable_stores
begin

lemma arrived_log:
  assumes "world_rel C view w a" and "length (fst (log_of (st_logs a) i)) + length ls < max_lines"
    and "\<And>l. l \<in> set ls \<Longrightarrow> length l < MaxScanTokenSize" and "subseq new ls"
    and "mset (before @ after) \<subseteq># mset (map (Pair i) new)"
    and "\<And>y. e = Some y \<Longrightarrow> value_ok (err_text y)"
  shows "\<exists>a'. world_rel C view (arrive (local_log_writer B) after
      (case e of None \<Rightarrow> arrive (local_log_writer B) before w
       | Some y \<Rightarrow> snd (lw_SetError (local_log_writer B) i (Some y) (arrive (local_log_writer B) before w)))) a' \<and>
    same_but_log i a a' \<and>
    log_of (st_logs a') i = (fst (log_of (st_logs a) i) @ filter (\<lambda>l. l \<noteq> []) (map snd (before @ after)),
      case e of None \<Rightarrow> snd (log_of (st_logs a) i) | Some y \<Rightarrow> Some (err_text y))"
proof -
  let ?W = "local_log_writer B"
  note l = arrived_lines [OF assms(5)]
  have "length new \<le> length ls" using assms(4) by (rule list_emb_length)
  with l(3) have len: "length before + length after \<le> length ls" by simp
  have short: "\<forall>l \<in> set (map snd before) \<union> set (map snd after). length l < MaxScanTokenSize"
    using l(2) assms(3) by (fastforce elim: list_emb_set [OF assms(4)])
  from l(1) have eq: "before = map (Pair i) (map snd before)" "after = map (Pair i) (map snd after)"
    by (simp_all del: map_map)
  have arr: "arrive ?W before w0 = fold (\<lambda>l w. snd (lw_Append ?W i l w)) (map snd before) w0"
    "arrive ?W after w0 = fold (\<lambda>l w. snd (lw_Append ?W i l w)) (map snd after) w0" for w0
    by (subst eq(1), rule arrive_job) (subst eq(2), rule arrive_job)
  obtain a1 where a1: "world_rel C view (arrive ?W before w) a1" "same_but_log i a a1"
    "log_of (st_logs a1) i = (fst (log_of (st_logs a) i) @ filter (\<lambda>l. l \<noteq> []) (map snd before), snd (log_of (st_logs a) i))"
    using run_append_all [OF assms(1), of "map snd before" i] short assms(2) len unfolding arr by auto
  let ?w2 = "case e of None \<Rightarrow> arrive ?W before w | Some y \<Rightarrow> snd (lw_SetError ?W i (Some y) (arrive ?W before w))"
  obtain a2 where a2: "world_rel C view ?w2 a2" "same_but_log i a a2"
    "log_of (st_logs a2) i = (fst (log_of (st_logs a) i) @ filter (\<lambda>l. l \<noteq> []) (map snd before),
      case e of None \<Rightarrow> snd (log_of (st_logs a) i) | Some y \<Rightarrow> Some (err_text y))"
  proof (cases e)
    case None
    with a1 that show ?thesis by simp
  next
    case (Some y)
    from local_set_error_ok [OF a1(1) assms(6) [OF Some], of i] obtain w' where
      w': "lw_SetError ?W i (Some y) (arrive ?W before w) = (Returns (), w')" by blast
    show ?thesis
      using that [of "a1\<lparr>st_logs := (st_logs a1)(i \<mapsto> (fst (log_of (st_logs a1) i), Some (err_text y)))\<rparr>"]
        local_set_error [OF a1(1) w'] same_but_log_trans [OF a1(2)] Some w' a1(3)
      by (simp add: log_of_def)
  qed
  have "length (fst (log_of (st_logs a2) i)) + length (map snd after) < max_lines"
    using assms(2) len length_filter_le [of "(\<lambda>l. l \<noteq> []) \<circ> snd" before]
    unfolding a2(3) fst_conv length_append filter_map length_map by linarith
  with run_append_all [OF a2(1), of "map snd after" i] short obtain a3 where
    a3: "world_rel C view (arrive ?W after ?w2) a3" "same_but_log i a2 a3"
    "log_of (st_logs a3) i = (fst (log_of (st_logs a2) i) @ filter (\<lambda>l. l \<noteq> []) (map snd after), snd (log_of (st_logs a2) i))"
    unfolding arr by auto
  then show ?thesis
    using same_but_log_trans [OF a2(2) a3(2)] a2(3) by (intro exI [of _ a3]) simp
qed

end

section \<open>Properties\<close>

text \<open>
  C8: a shell command that runs on an agent answers as it would on the server, whatever becomes of its lines: when its
  answer arrives, the command that waits gets the same output, however the process fares, and an error of the same text,
  which is also what the log of the job is given. Of the lines the log gets those that arrive, in the
  order in which they arrive, before or after the answer, and nothing else in the store changes; when
  all of them have arrived in order before the answer, the store is the very one a run on the server
  would leave. The agent itself hands over lines of the output in order, and all of them unless the
  connection fails. (The agent has the command and no alias in its place, and an error has a text.)
\<close>

theorem remote_run_answers_as_local:
  assumes "reliable_stores B view C" and "world_rel C view w a"
    and "hands_over K sent" and "pv_LogWriter (be_providers E) = grpcLogWriter K" and "registry_ok (be_registry E)"
    and "map_of (be_registry E) (req_Command (job_Request j)) = Some \<lparr>hub_kind = KindLocalCommand, hub_cmd = ShellCommand o1\<rparr>"
    and "as_Get (pv_Aliases (be_providers E)) (req_UserID (job_Request j)) (req_Command (job_Request j)) v = (Fails x, v')"
    and "map_of (pl_runningJobs p) (job_ID j) = Some c"
    and "shellCommand_Execute (local_log_writer B) (fst ans) o1 j w = ((out, e), w_local)"
    and "length (fst (log_of (st_logs a) (job_ID j))) + length (run_lines (fst ans) o1 j) < max_lines"
    and "\<And>y. e = Some y \<Longrightarrow> err_text y \<noteq> [] \<and> value_ok (err_text y)"
  shows "\<exists>fin v1 new f. runCommand E agentID ans now (remote_request j) v = (fin, v1) \<and>
    sent v1 = sent v' @ map (Pair (job_ID j)) new \<and> subseq new (run_lines (fst ans) o1 j) \<and>
    (never_fails K \<longrightarrow> new = run_lines (fst ans) o1 j) \<and>
    remoteCommand_Execute (Answered f) = (out, map_option (\<lambda>y. Errorf (err_text y)) e) \<and>
    (\<forall>before after. mset (before @ after) \<subseteq># mset (map (Pair (job_ID j)) new) \<longrightarrow>
      (\<exists>p' w2 a'. Finish (local_log_writer B) fin p (arrive (local_log_writer B) before w) = (None, p', w2) \<and>
        pl_sends p' = pl_sends p @ [(c, f)] \<and>
        world_rel C view (arrive (local_log_writer B) after w2) a' \<and> same_but_log (job_ID j) a a' \<and>
        log_of (st_logs a') (job_ID j) =
          (fst (log_of (st_logs a) (job_ID j)) @ filter (\<lambda>l. l \<noteq> []) (map snd (before @ after)),
           case e of None \<Rightarrow> snd (log_of (st_logs a) (job_ID j)) | Some y \<Rightarrow> Some (err_text y)) \<and>
        (before = map (Pair (job_ID j)) (run_lines (fst ans) o1 j) \<longrightarrow> w2 = w_local)))"
proof -
  let ?W = "local_log_writer B" and ?rq = "received_request (remote_request j)" and ?i = "job_ID j"
  let ?j = "\<lparr>job_ID = job_ID j, job_Request = ?rq, job_StartTime = now, job_EndTime = zero_time, job_Status = JobRunningStatus\<rparr>"
  let ?ls = "run_lines (fst ans) o1 j"
  have id: "cq_JobID (remote_request j) = ?i" by (simp add: remote_request_def Let_def)
  have rq: "?rq = job_Request j" by (simp add: received_request_def remote_request_def Let_def)
  have find: "Find (pv_Aliases (be_providers E)) (be_registry E) ?rq v = ((Some (ShellCommand o1), ?rq), v')"
    using assms(6,7) by (simp add: Find_def rq registry_no_empty_name [OF assms(5)])
  have "args_of ?j = args_of j" by (simp add: rq)
  note same = run_same_request [OF this, of "fst ans" o1]
  have out: "run_outcome (fst ans) o1 j = (out, e)" using assms(9) by (simp add: shell_run)
  let ?v1 = "fold (\<lambda>l w. snd (lw_Append (grpcLogWriter K) ?i l w)) ?ls v'"
  let ?fin = "\<lparr>cf_AgentID = agentID, cf_JobID = ?i, cf_Content = out,
      cf_Error = (case e of None \<Rightarrow> [] | Some y \<Rightarrow> err_text y)\<rparr>"
  have run: "runCommand E agentID ans now (remote_request j) v = (?fin, ?v1)"
    by (simp add: runCommand_def find id assms(4) shell_run same out grpc_SetError Let_def split: option.split)
  obtain new where new: "sent ?v1 = sent v' @ map (Pair ?i) new" "subseq new ?ls" "never_fails K \<longrightarrow> new = ?ls"
    using grpc_fold [OF assms(3)] by blast
  let ?f = "\<lparr>fj_agentID = agentID, fj_jobID = ?i, fj_content = out, fj_err = cf_Error ?fin\<rparr>"
  have err: "finished_getError ?f = map_option (\<lambda>y. Errorf (err_text y)) e"
    using assms(11) by (cases e) (simp_all add: finished_getError_def)
  have "\<exists>p' w2 a'. Finish ?W ?fin p (arrive ?W before w) = (None, p', w2) \<and> pl_sends p' = pl_sends p @ [(c, ?f)] \<and>
      world_rel C view (arrive ?W after w2) a' \<and> same_but_log ?i a a' \<and>
      log_of (st_logs a') ?i = (fst (log_of (st_logs a) ?i) @ filter (\<lambda>l. l \<noteq> []) (map snd (before @ after)),
        case e of None \<Rightarrow> snd (log_of (st_logs a) ?i) | Some y \<Rightarrow> Some (err_text y)) \<and>
      (before = map (Pair ?i) ?ls \<longrightarrow> w2 = w_local)"
    if m: "mset (before @ after) \<subseteq># mset (map (Pair ?i) new)" for before after
  proof -
    let ?w2 = "case e of None \<Rightarrow> arrive ?W before w | Some y \<Rightarrow> snd (lw_SetError ?W ?i (Some y) (arrive ?W before w))"
    have fin: "Finish ?W ?fin p (arrive ?W before w) =
        (None, p\<lparr>pl_runningJobs := gomap_delete ?i (pl_runningJobs p), pl_sends := pl_sends p @ [(c, ?f)]\<rparr>, ?w2)"
      using assms(8) err by (cases e) (simp_all add: Finish_def finishJob_def PopJob_def local_SetError_text)
    have loc: "before = map (Pair ?i) ?ls \<longrightarrow> ?w2 = w_local"
      using assms(9) by (cases e) (auto simp: shell_run out arrive_job Let_def)
    obtain a' where "world_rel C view (arrive ?W after ?w2) a'" "same_but_log ?i a a'"
      "log_of (st_logs a') ?i = (fst (log_of (st_logs a) ?i) @ filter (\<lambda>l. l \<noteq> []) (map snd (before @ after)),
        case e of None \<Rightarrow> snd (log_of (st_logs a) ?i) | Some y \<Rightarrow> Some (err_text y))"
      using reliable_stores.arrived_log [OF assms(1,2,10) _ new(2) m, where e = e] assms(11) run_lines_short by blast
    with fin loc show ?thesis
      by (intro exI [of _ "p\<lparr>pl_runningJobs := gomap_delete ?i (pl_runningJobs p), pl_sends := pl_sends p @ [(c, ?f)]\<rparr>"]
          exI [of _ ?w2] exI [of _ a']) simp
  qed
  with run new err show ?thesis
    by (intro exI [of _ ?fin] exI [of _ ?v1] exI [of _ new] exI [of _ ?f]) simp
qed

text \<open>An agent with one command, no alias and nothing stored of its own.\<close>

definition no_services :: "'w providers" where
  "no_services =
     \<lparr>pv_Aliases = \<lparr>as_Get = (\<lambda>u c s. (Fails ErrAliasNotFound, s)), as_List = (\<lambda>u s. (Returns [], s)),
        as_Create = (\<lambda>u a c args s. (Fails not_initialized, s)), as_Remove = (\<lambda>u a s. (Fails ErrAliasNotFound, s))\<rparr>,
      pv_Jobs = \<lparr>js_Get = (\<lambda>i s. (Fails ErrNoJobWithID, s)), js_Null = (\<lambda>r s. (zero_job\<lparr>job_Request := r\<rparr>, s)),
        js_Create = (\<lambda>r s. (Fails not_initialized, s)), js_Fail = (\<lambda>i s. (Fails ErrNoJobWithID, s)),
        js_Succeed = (\<lambda>i s. (Fails ErrNoJobWithID, s)), js_Find = (\<lambda>f s. (Returns [], s)),
        js_FailRunningJobs = (\<lambda>s. (Returns (), s))\<rparr>,
      pv_APITokens = \<lparr>ts_Create = (\<lambda>u c t s. (([], Some not_initialized), s)), ts_Get = (\<lambda>i s. (Fails ErrTokenNotFound, s)),
        ts_Revoke = (\<lambda>i s. (Fails ErrTokenNotFound, s)), ts_Find = (\<lambda>f s. (([], None), s))\<rparr>,
      pv_LogReader = nullReader, pv_LogWriter = \<lparr>lw_Append = (\<lambda>i l s. (Returns (), s)), lw_SetError = (\<lambda>i e s. (Returns (), s))\<rparr>\<rparr>"

definition handing_client :: "(u64 \<times> string) list log_client" where
  "handing_client = \<lparr>gc_open = (\<lambda>t. (None, t)), gc_Send = (\<lambda>i l t. (None, t @ [(i, l)])), gc_cancel = (\<lambda>t. t)\<rparr>"

definition ref_agent :: "(u64 \<times> string) list builtin_env" where
  "ref_agent =
     \<lparr>be_providers = agent_providers handing_client no_services, be_registry = agent_registry,
      be_auth = auth_init, be_humanize = (\<lambda>t. []), be_version = ([], [], [], []), be_cancel = (\<lambda>i s. s)\<rparr>"

lemma ref_agent_log:
  "hands_over handing_client (\<lambda>t. t)" "never_fails handing_client"
  "pv_LogWriter (be_providers ref_agent) = grpcLogWriter handing_client"
  "pv_Aliases (be_providers ref_agent) = pv_Aliases no_services"
  by (simp_all add: hands_over_def never_fails_def handing_client_def ref_agent_def agent_providers_def Register_providers_def)

definition deploy_job :: job where
  "deploy_job = zero_job\<lparr>job_ID := 1, job_Request := zero_request\<lparr>req_Command := ''deploy''\<rparr>\<rparr>"

text \<open>Two lines arrive the wrong way round, one of them after the answer.\<close>

theorem remote_run_answers_as_local_witness:
  "\<exists>fin p' w2 a' f. runCommand ref_agent ''a1''
      (\<lambda>c args t. Finished ''one'' (newline @ ''two'') (Some (Foreign ''exit status 1'')), ContextDone (Foreign []))
      zero_time (remote_request deploy_job) [] = (fin, [(1, ''one''), (1, ''two'')]) \<and>
    Finish (local_log_writer ref_bolt) fin (snd (StartJob (remote_request deploy_job) newCommandPipelineServer))
      (arrive (local_log_writer ref_bolt) [(1, ''two'')] ref_world) = (None, p', w2) \<and>
    pl_sends p' = [(0, f)] \<and> remoteCommand_Execute (Answered f) = ([], Some (Errorf ''exit status 1'')) \<and>
    ref_holds (arrive (local_log_writer ref_bolt) [(1, ''one'')] w2) a' \<and>
    log_of (st_logs a') 1 = ([''two'', ''one''], Some ''exit status 1'')"
proof -
  let ?run = "\<lambda>c args t. Finished ''one'' (newline @ ''two'') (Some (Foreign ''exit status 1''))"
  let ?ans = "(?run, ContextDone (Foreign []))" and ?W = "local_log_writer ref_bolt"
  let ?p = "snd (StartJob (remote_request deploy_job) newCommandPipelineServer)"
  have id: "job_ID deploy_job = 1" by (simp add: deploy_job_def)
  have p: "map_of (pl_runningJobs ?p) (job_ID deploy_job) = Some 0" "pl_sends ?p = []"
    by (simp_all add: StartJob_def newCommandPipelineServer_def remote_request_def deploy_job_def Let_def)
  have lines: "run_lines (fst ?ans) deploy_opts deploy_job = [''one'', ''two'']"
    by (simp add: run_lines_def scan_lines.simps MaxScanTokenSize_def drop_cr_def)
  have "run_outcome (fst ?ans) deploy_opts deploy_job = ([], Some (Foreign ''exit status 1''))"
    by (simp add: run_outcome_def)
  then obtain w where l: "shellCommand_Execute ?W (fst ?ans) deploy_opts deploy_job ref_world = (([], Some (Foreign ''exit status 1'')), w)"
    by (simp only: shell_run)
  have a: "as_Get (pv_Aliases (be_providers ref_agent)) u c [] = (Fails ErrAliasNotFound, [])" for u c
    by (simp add: ref_agent_log no_services_def)
  have c: "map_of (be_registry ref_agent) (req_Command (job_Request deploy_job)) =
      Some \<lparr>hub_kind = KindLocalCommand, hub_cmd = ShellCommand deploy_opts\<rparr>" "registry_ok (be_registry ref_agent)"
    using agent_registry_ok by (simp_all add: ref_agent_def agent_registry_def deploy_job_def)
  have empty: "log_of (st_logs nothing_stored) (job_ID deploy_job) = ([], None)" by (simp add: log_of_def nothing_stored_def)
  have room: "length (fst (log_of (st_logs nothing_stored) (job_ID deploy_job))) +
      length (run_lines (fst ?ans) deploy_opts deploy_job) < max_lines"
    unfolding lines empty by (simp add: max_lines_def)
  have e: "\<And>y. Some (Foreign ''exit status 1'') = Some y \<Longrightarrow> err_text y \<noteq> [] \<and> value_ok (err_text y)"
    by (auto simp: value_ok_def)
  from remote_run_answers_as_local [OF ref_stores.reliable_stores_axioms ref_world_holds ref_agent_log(1,3) c(2,1) a p(1) l room e,
      of "''a1''" zero_time]
  obtain fin f where f: "runCommand ref_agent ''a1'' ?ans zero_time (remote_request deploy_job) [] = (fin, [(1, ''one''), (1, ''two'')])"
    "remoteCommand_Execute (Answered f) = ([], Some (Errorf ''exit status 1''))"
    and all: "\<forall>before after. mset (before @ after) \<subseteq># mset (map (Pair 1) [''one'', ''two'']) \<longrightarrow>
      (\<exists>p' w2 a'. Finish ?W fin ?p (arrive ?W before ref_world) = (None, p', w2) \<and> pl_sends p' = [] @ [(0, f)] \<and>
        ref_holds (arrive ?W after w2) a' \<and> same_but_log 1 nothing_stored a' \<and>
        log_of (st_logs a') 1 = ([] @ filter (\<lambda>l. l \<noteq> []) (map snd (before @ after)), Some ''exit status 1'') \<and>
        (before = map (Pair 1) [''one'', ''two''] \<longrightarrow> w2 = w))"
    unfolding lines id empty [unfolded id] p(2) by (clarsimp simp: ref_agent_log(2))
  have "mset ([(1, ''two'')] @ [(1, ''one'')]) \<subseteq># mset (map (Pair (1 :: u64)) [''one'', ''two''])" by simp
  with all obtain p' w2 a' where "Finish ?W fin ?p (arrive ?W [(1, ''two'')] ref_world) = (None, p', w2)" "pl_sends p' = [(0, f)]"
    "ref_holds (arrive ?W [(1, ''one'')] w2) a'"
    "log_of (st_logs a') 1 = (filter (\<lambda>l. l \<noteq> []) (map snd ([(1, ''two'')] @ [(1 :: u64, ''one'')])), Some ''exit status 1'')"
    by fastforce
  with f show ?thesis by fastforce
qed

text \<open>
  C37: an agent that has been told to reconnect never serves again. From any state of its loop, once the
  context is cancelled, no command is started any more, and after at most twelve further calls, whose
  number the state determines, the loop has ended.
\<close>

theorem reconnecting_ends_the_agent:
  assumes "possible_run evs (Reconnect (Run before Run_start))"
  shows "al_started (Run evs (Reconnect (Run before Run_start))) = al_started (Run before Run_start) \<and>
    length (calls evs) \<le> calls_left (Run before Run_start) \<and> calls_left (Run before Run_start) \<le> 12 \<and>
    (length (calls evs) = calls_left (Run before Run_start) \<longrightarrow> al_phase (Run evs (Reconnect (Run before Run_start))) = Quit)"
proof -
  let ?s = "Run before Run_start" and ?c = "Reconnect (Run before Run_start)"
  have "loop_ok ?s" by (intro Run_ok loop_ok_start)
  then have "loop_ok ?c" by (simp add: loop_ok_def Reconnect_def)
  then have ok: "loop_ok ?c" "loop_ok (Run evs ?c)" by (simp_all add: Run_ok)
  have same: "calls_left ?c = calls_left ?s" "al_started ?c = al_started ?s" "al_cancelled ?c"
    by (simp_all add: calls_left_def Reconnect_def split: agent_phase.split)
  from cancelled_run [OF ok(1) assms same(3)] have r: "al_started (Run evs ?c) = al_started ?s"
    "length (calls evs) + calls_left (Run evs ?c) = calls_left ?s" by (simp_all add: same)
  have "al_phase s = Quit" if "loop_ok s" "calls_left s = 0" for s
    using that by (auto simp: loop_ok_def calls_left_def split: agent_phase.splits)
  moreover have "calls_left ?s \<le> 12" by (simp add: calls_left_def split: agent_phase.split)
  ultimately show ?thesis using r ok(2) by auto
qed

text \<open>An agent that is listening, and the signal that makes it read its configuration again.\<close>

theorem reconnecting_ends_the_agent_witness:
  "al_phase (Run [RecvReturned RecvCanceled] (Reconnect (Run [RegisterReturned None] Run_start))) = Quit \<and>
   al_started (Run [RecvReturned RecvCanceled] (Reconnect (Run [RegisterReturned None] Run_start))) = []"
  using reconnecting_ends_the_agent [of "[RecvReturned RecvCanceled]" "[RegisterReturned None]"]
  by (simp add: Run_start_def calls_def calls_left_def Reconnect_def)

end
