(* ===== verification/Metrics.thy ===== *)
theory Metrics
  imports Complex_Main Tasks "HOL-Library.Multiset"
begin

text \<open>
  The metrics (\<^verbatim>\<open>meeseeks/metrics/metrics.go\<close>) and the places that count: the loop of the executor, the lookup
  through aliases, the end of a job and the lines of the logs. The counting variants of these
  operations erase to the operations, so that everything else speaks of the operations alone.
\<close>

section \<open>Collectors\<close>

text \<open>
  The registry of the metrics library is a parameter: \<open>refuses names name\<close> is the panic of a registration after those of
  \<open>names\<close>, if there is one. \<open>metric_name\<close> puts the namespace in front.
\<close>

definition metric_name :: "string \<Rightarrow> string" where
  "metric_name name = ''meeseeks'' @ ''_'' @ name"

definition register_collector :: "(string list \<Rightarrow> string \<Rightarrow> string option) \<Rightarrow> string \<Rightarrow> string list run \<Rightarrow> string list run" where
  "register_collector refuses name reg =
     (case reg of
        Panic m \<Rightarrow> Panic m
      | Ret names \<Rightarrow> (case refuses names name of Some m \<Rightarrow> Panic m | None \<Rightarrow> Ret (names @ [name])))"

definition init_metrics :: "(string list \<Rightarrow> string \<Rightarrow> string option) \<Rightarrow> string list run" where
  "init_metrics refuses =
     register_collector refuses (metric_name ''boot_time_seconds'')
       (register_collector refuses (metric_name ''build_info'') (Ret []))"

definition server_metrics :: "string list" where
  "server_metrics = map metric_name [''received_commands_count'', ''aliased_commands_count'', ''unknown_commands_count'',
     ''rejected_commands_count'', ''accepted_commands_count'', ''tasks_durations_seconds'', ''log_lines_count'']"

definition RegisterServerMetrics :: "(string list \<Rightarrow> string \<Rightarrow> string option) \<Rightarrow> string list run \<Rightarrow> string list run" where
  "RegisterServerMetrics refuses reg = fold (register_collector refuses) server_metrics reg"

text \<open>The documented law: a collector is refused exactly when its name is known.\<close>

definition refuses_duplicates :: "(string list \<Rightarrow> string \<Rightarrow> string option) \<Rightarrow> bool" where
  "refuses_duplicates refuses \<longleftrightarrow> (\<forall>names name. refuses names name = None \<longleftrightarrow> name \<notin> set names)"

lemma fold_register:
  assumes "refuses_duplicates refuses"
  shows "distinct names \<Longrightarrow> set names \<inter> set known = {} \<Longrightarrow>
    fold (register_collector refuses) names (Ret known) = Ret (known @ names)"
proof (induction names arbitrary: known)
  case (Cons n names)
  have "refuses known n = None" using Cons.prems assms by (auto simp: refuses_duplicates_def)
  with Cons show ?case by (simp add: register_collector_def)
qed simp

lemma fold_register_panic: "fold (register_collector refuses) names (Panic m) = Panic m"
  by (induction names) (simp_all add: register_collector_def)

text \<open>A process registers the metrics of a server once; a second time it panics.\<close>

lemma register_metrics_once:
  assumes "refuses_duplicates refuses"
  obtains names m where "RegisterServerMetrics refuses (init_metrics refuses) = Ret names"
    "RegisterServerMetrics refuses (Ret names) = Panic m"
proof -
  let ?known = "[metric_name ''build_info'', metric_name ''boot_time_seconds'']"
  have 1: "init_metrics refuses = Ret ?known"
    using fold_register [OF assms, of ?known "[]"] by (simp add: init_metrics_def metric_name_def)
  have 2: "RegisterServerMetrics refuses (init_metrics refuses) = Ret (?known @ server_metrics)"
    unfolding 1 RegisterServerMetrics_def
    by (rule fold_register [OF assms]) (simp_all add: server_metrics_def metric_name_def)
  have "refuses (?known @ server_metrics) (metric_name ''received_commands_count'') \<noteq> None"
    using assms by (simp add: refuses_duplicates_def server_metrics_def)
  then obtain m where "refuses (?known @ server_metrics) (metric_name ''received_commands_count'') = Some m" by blast
  then have "RegisterServerMetrics refuses (Ret (?known @ server_metrics)) = Panic m"
    by (subst RegisterServerMetrics_def, subst server_metrics_def)
      (simp add: register_collector_def fold_register_panic)
  with 2 show thesis by (rule that)
qed

section \<open>Buckets\<close>

text \<open>
  The buckets of the histogram of the durations, in seconds; \<open>exponential\<close> is the function of the metrics library
  that makes them.
\<close>

definition task_buckets :: "(rat \<Rightarrow> rat \<Rightarrow> nat \<Rightarrow> rat list) \<Rightarrow> rat list" where
  "task_buckets exponential = exponential (25 / 100000) 2 18"

text \<open>
  The last bucket ends below 33 seconds: a histogram of jobs that may take hours puts everything above into
  the overflow.
\<close>

lemma task_buckets_end:
  assumes "\<And>start factor n. exponential start factor n = map (\<lambda>i. start * factor ^ i) [0..<n]"
  shows "last (task_buckets exponential) = 32768 / 1000" and "length (task_buckets exponential) = 18"
  by (simp_all add: task_buckets_def assms last_map)

section \<open>Counting requests\<close>

text \<open>A counter with labels is the multiset of the labels it was increased for.\<close>

record metrics =
  mt_received :: nat
  mt_aliased :: nat
  mt_unknown :: nat
  mt_rejected :: "string multiset"
  mt_accepted :: "string multiset"

definition zero_metrics :: metrics where
  "zero_metrics = \<lparr>mt_received = 0, mt_aliased = 0, mt_unknown = 0, mt_rejected = {#}, mt_accepted = {#}\<rparr>"

definition Find_metered :: "'w aliases_service \<Rightarrow> 'c registry \<Rightarrow> request \<Rightarrow> 'w \<Rightarrow> metrics \<Rightarrow>
    (('c option \<times> request) \<times> 'w) \<times> metrics" where
  "Find_metered S cmds req w mt =
     (case as_Get S (req_UserID req) (req_Command req) w of
        (r, w') \<Rightarrow>
          (let (aliasedCommand, args) = (case r of Inl _ \<Rightarrow> ([], []) | Inr x \<Rightarrow> x)
           in case map_of cmds aliasedCommand of
                Some hub \<Rightarrow>
                  (((Some (hub_cmd hub), req\<lparr>req_Command := aliasedCommand, req_Args := args @ req_Args req\<rparr>), w'),
                   mt\<lparr>mt_aliased := Suc (mt_aliased mt)\<rparr>)
              | None \<Rightarrow> (((map_option hub_cmd (map_of cmds (req_Command req)), req), w'), mt)))"

definition run_request_metered :: "'v executor_env \<Rightarrow> request \<Rightarrow> 'v executor \<Rightarrow> metrics \<Rightarrow> 'v executor run \<times> metrics" where
  "run_request_metered E req s mt =
     (case Find_metered (pv_Aliases (xe_services E)) (xe_registry E) req (ex_world s)
             (mt\<lparr>mt_received := Suc (mt_received mt)\<rparr>) of
        (((None, req'), w), m1) \<Rightarrow>
          (Ret (Reply (UnknownCommandReply (xe_formatter E) req') (s\<lparr>ex_world := w\<rparr>)), m1\<lparr>mt_unknown := Suc (mt_unknown m1)\<rparr>)
      | (((Some c, req'), w), m1) \<Rightarrow>
          (case Check (xe_auth E) req' (authorization_of c) of
             Panic m \<Rightarrow> (Panic m, m1)
           | Ret (Some e) \<Rightarrow>
               (Ret (Reply (UnauthorizedCommandReply (xe_formatter E) req') (s\<lparr>ex_world := w\<rparr>)),
                m1\<lparr>mt_rejected := add_mset (req_Command req') (mt_rejected m1)\<rparr>)
           | Ret None \<Rightarrow>
               (let m2 = m1\<lparr>mt_accepted := add_mset (req_Command req') (mt_accepted m1)\<rparr>
                in case createTask E req' c w of
                     (Inl e, w') \<Rightarrow>
                       (Ret (Reply (FailureReply (xe_formatter E) req' (wrap_err ''could not create task: '' e))
                         (s\<lparr>ex_world := w'\<rparr>)), m2)
                   | (Inr t, w') \<Rightarrow> (Ret (s\<lparr>ex_world := w', ex_sending := Some t, ex_counted := False\<rparr>), m2))))"

lemma Find_metered_erase: "fst (Find_metered S cmds req w mt) = Find S cmds req w"
  by (auto simp: Find_metered_def Find_def Let_def split: prod.split sum.split option.split)

lemma run_request_metered_erase: "fst (run_request_metered E req s mt) = run_request E req s"
proof -
  let ?f = "Find_metered (pv_Aliases (xe_services E)) (xe_registry E) req (ex_world s) (mt\<lparr>mt_received := Suc (mt_received mt)\<rparr>)"
  have "Find (pv_Aliases (xe_services E)) (xe_registry E) req (ex_world s) = fst ?f" by (simp add: Find_metered_erase)
  then show ?thesis
    by (cases ?f)
      (auto simp: run_request_metered_def run_request_def Let_def split: prod.split option.split run.split sum.split)
qed

text \<open>The steps of the executor with the counters: only requests count.\<close>

inductive metered_step :: "'v executor_env \<Rightarrow> 'v executor \<times> metrics \<Rightarrow> exec_event \<Rightarrow> 'v executor run \<times> metrics \<Rightarrow> bool" for E where
  counted: "ex_sending s = None \<Longrightarrow> metered_step E (s, mt) (Received req) (run_request_metered E req s mt)"
| uncounted: "exec_step E s ev r \<Longrightarrow> \<not> is_request ev \<Longrightarrow> metered_step E (s, mt) ev (r, mt)"

inductive metered_trace :: "'v executor_env \<Rightarrow> 'v executor \<times> metrics \<Rightarrow> exec_event list \<Rightarrow> 'v executor \<times> metrics \<Rightarrow> bool"
  for E s where
  no_step: "metered_trace E s [] s"
| one_more: "metered_trace E s evs s' \<Longrightarrow> metered_step E s' ev (Ret t, mt) \<Longrightarrow> metered_trace E s (evs @ [ev]) (t, mt)"

inductive_cases metered_stepE: "metered_step E s ev r"

lemma metered_step_erase: "metered_step E (s, mt) ev (r, mt') \<Longrightarrow> exec_step E s ev r"
proof (erule metered_stepE)
  fix s1 m1 req
  assume a: "(s, mt) = (s1, m1)" "ev = Received req" "(r, mt') = run_request_metered E req s1 m1" "ex_sending s1 = None"
  then have "r = run_request E req s" by (metis fst_conv run_request_metered_erase prod.inject)
  with a exec_step.received [of s E req] show ?thesis by simp
qed simp

lemma metered_step_exists: "exec_step E s ev r \<Longrightarrow> \<exists>mt'. metered_step E (s, mt) ev (r, mt')"
proof (cases ev)
  case (Received req)
  assume st: "exec_step E s ev r"
  then have i: "ex_sending s = None" "r = run_request E req s" by (auto simp: Received elim: exec_stepE)
  then have "run_request_metered E req s mt = (r, snd (run_request_metered E req s mt))"
    by (simp add: prod_eq_iff run_request_metered_erase)
  with metered_step.counted [OF i(1), of E mt req] show ?thesis unfolding Received by metis
qed (use metered_step.uncounted [of E s ev r mt] in auto)

lemma metered_trace_erase: "metered_trace E x evs y \<Longrightarrow> exec_trace E (\<lambda>_ _. True) (fst x) evs (fst y)"
proof (induction rule: metered_trace.induct)
  case (one_more evs s' ev t mt)
  then have "exec_step E (fst s') ev (Ret t)" by (cases s') (auto dest: metered_step_erase)
  with one_more.IH show ?case by (auto intro: exec_trace.one_more)
qed (simp add: exec_trace.no_step)

text \<open>Every run of the executor is one of the counting executor.\<close>

lemma metered_trace_exists: "exec_trace E Q s evs s' \<Longrightarrow> \<exists>mt'. metered_trace E (s, mt) evs (s', mt')"
proof (induction rule: exec_trace.induct)
  case no_step
  then show ?case using metered_trace.no_step by blast
next
  case (one_more evs s' ev s'')
  then obtain m1 where "metered_trace E (s, mt) evs (s', m1)" by blast
  moreover from metered_step_exists [OF one_more.hyps(2)] obtain m2 where "metered_step E (s', m1) ev (Ret s'', m2)" by blast
  ultimately show ?case using metered_trace.one_more by blast
qed

section \<open>Counting jobs and lines\<close>

text \<open>
  The end of a job is observed, with the command and the status as labels and the nanoseconds between start and
  end, after the job has left the list of the running ones and before it is saved.
\<close>

type_synonym observation = "(string \<times> string) \<times> time"

definition jobs_finish_metered :: "'db bolt \<Rightarrow> codec \<Rightarrow> time \<Rightarrow> u64 \<Rightarrow> string \<Rightarrow> 'db db_state \<Rightarrow>
    (unit result \<times> 'db db_state) \<times> observation list" where
  "jobs_finish_metered B C now jobID status s =
     (jobs_finish B C now jobID status s,
      if \<not> (status = JobSuccessStatus \<or> status = JobFailedStatus) then []
      else (case database s of
              Open d \<Rightarrow>
                (case jobs_get B C jobID s of
                   Inl e \<Rightarrow> []
                 | Inr job \<Rightarrow>
                     if job_Status job \<noteq> JobRunningStatus then []
                     else if \<not> bucket_exists B d [runningJobsBucketKey] then []
                     else (case bucket_delete B d [runningJobsBucketKey] (IDToBytes jobID) of
                             Inl e \<Rightarrow> []
                           | Inr d1 \<Rightarrow> [((req_Command (job_Request job), status), now - job_StartTime job)]))
            | _ \<Rightarrow> []))"

text \<open>A line is counted before it is put, whether or not it is stored in the end.\<close>

definition logs_Append_metered :: "'db bolt \<Rightarrow> u64 \<Rightarrow> string \<Rightarrow> 'db db_state \<Rightarrow> (unit result \<times> 'db db_state) \<times> nat" where
  "logs_Append_metered B jobID content s =
     (logs_Append B jobID content s,
      if content = [] then 0
      else (case database s of
              Open d \<Rightarrow>
                (case getJobBucket B jobID d of
                   Inl e \<Rightarrow> 0
                 | Inr (jobBucket, d1) \<Rightarrow> (case next_sequence B d1 jobBucket of Inl e \<Rightarrow> 0 | Inr _ \<Rightarrow> 1))
            | _ \<Rightarrow> 0))"

text \<open>What is stored was counted, and a job that ended was observed once, under its command and its status.\<close>

lemma stored_lines_are_counted:
  "logs_Append_metered B i l s = ((Returns (), s'), n) \<Longrightarrow> l \<noteq> [] \<Longrightarrow> n = 1"
  by (auto simp: logs_Append_metered_def logs_Append_def logs_Append_tx_def elim!: Update_returns
      split: sum.splits prod.splits)

lemma ended_jobs_are_observed:
  assumes "jobs_finish_metered B C now i status s = ((Returns (), s'), obs)"
  shows "\<exists>j. jobs_get B C i s = Returns j \<and> obs = [((req_Command (job_Request j), status), now - job_StartTime j)]"
  using assms
  by (auto simp: jobs_finish_metered_def jobs_finish_def elim!: Update_returns split: sum.splits if_splits)

section \<open>What the counters say\<close>

lemma Find_metered_counts:
  "Find_metered S cmds req w mt = (x, mt') \<Longrightarrow>
   mt' = mt \<or> mt' = mt\<lparr>mt_aliased := Suc (mt_aliased mt)\<rparr> \<and> (\<exists>c. fst (fst x) = Some c)"
  by (auto simp: Find_metered_def Let_def split: prod.splits sum.splits option.splits)

text \<open>The counters, seen from the replies.\<close>

definition replies_of :: "string \<Rightarrow> 'v executor \<Rightarrow> reply list" where
  "replies_of action s = filter (\<lambda>r. rp_action r = action) (ex_replies s)"

definition reply_actions :: "string set" where
  "reply_actions = {Handshake, Success, Failure, UnknownCommand, Unauthorized}"

definition metrics_ok :: "'v executor \<Rightarrow> metrics \<Rightarrow> bool" where
  "metrics_ok s mt \<longleftrightarrow>
     (\<forall>r \<in> set (ex_replies s). rp_action r \<in> reply_actions) \<and>
     mt_unknown mt = length (replies_of UnknownCommand s) \<and>
     mt_rejected mt = mset (map (req_Command \<circ> rp_request) (replies_of Unauthorized s)) \<and>
     mt_received mt = mt_unknown mt + size (mt_rejected mt) + size (mt_accepted mt) \<and>
     mt_aliased mt + mt_unknown mt \<le> mt_received mt"

lemma counted_ok:
  assumes "metrics_ok s mt" and "run_request_metered E req s mt = (Ret s', mt')"
  shows "metrics_ok s' mt' \<and> mt_received mt' = Suc (mt_received mt)"
proof -
  let ?m0 = "mt\<lparr>mt_received := Suc (mt_received mt)\<rparr>"
  obtain f req' w m1 where f: "Find_metered (pv_Aliases (xe_services E)) (xe_registry E) req (ex_world s) ?m0 = (((f, req'), w), m1)"
    by (metis prod.exhaust)
  show ?thesis
  proof (cases f)
    case None
    with Find_metered_counts [OF f] have "m1 = ?m0" by simp
    with assms f None show ?thesis
      by (auto simp: run_request_metered_def metrics_ok_def replies_of_def reply_actions_def action_names)
  next
    case (Some c)
    from Find_metered_counts [OF f] obtain n where m1: "m1 = ?m0\<lparr>mt_aliased := n\<rparr>" "n \<le> Suc (mt_aliased mt)"
      by (cases "m1 = ?m0") (auto intro: that [of "mt_aliased mt"] that [of "Suc (mt_aliased mt)"])
    note run = assms(2) [unfolded run_request_metered_def f, simplified Some, simplified]
    consider (rejected) "s' = Reply (UnauthorizedCommandReply (xe_formatter E) req') (s\<lparr>ex_world := w\<rparr>)"
        "mt' = m1\<lparr>mt_rejected := add_mset (req_Command req') (mt_rejected m1)\<rparr>"
      | (accepted) rs where "mt' = m1\<lparr>mt_accepted := add_mset (req_Command req') (mt_accepted m1)\<rparr>"
        "ex_replies s' = ex_replies s @ rs" "\<forall>r \<in> set rs. rp_action r = Failure"
    proof (cases "Check (xe_auth E) req' (authorization_of c)")
      case (Ret v)
      show thesis
      proof (cases v)
        case None
        show thesis
        proof (cases "createTask E req' c w")
          case (Pair t w')
          with run Ret None show thesis by (cases t) (auto intro: accepted)
        qed
      next
        case (Some e)
        with run Ret show thesis by (auto intro: rejected)
      qed
    qed (use run in simp)
    then show ?thesis
    proof cases
      case rejected
      with assms(1) m1 show ?thesis by (auto simp: metrics_ok_def replies_of_def reply_actions_def action_names)
    next
      case accepted
      then have "filter (\<lambda>r. rp_action r = a) rs = []" if "a \<in> {UnknownCommand, Unauthorized}" for a
        using that by (auto simp: filter_empty_conv action_names)
      with accepted assms(1) m1 show ?thesis by (auto simp: metrics_ok_def replies_of_def reply_actions_def)
    qed
  qed
qed

lemma uncounted_replies:
  assumes "exec_step E s ev (Ret s')" and "\<not> is_request ev"
  shows "\<exists>rs. ex_replies s' = ex_replies s @ rs \<and> (\<forall>r \<in> set rs. rp_action r \<in> {Handshake, Success, Failure})"
  using assms(1)
proof cases
  case (began k t)
  then show ?thesis by (auto simp: begin_task_conv)
next
  case (ended k t c ans)
  have "end_task E ans k t s = Ret s'" using ended by simp
  then show ?thesis by (cases rule: end_task_cases) auto
next
  case (released k t)
  then show ?thesis by (simp add: release_task_def)
qed (use assms(2) in auto)

lemma uncounted_ok:
  assumes "metrics_ok s mt" and "exec_step E s ev (Ret s')" and "\<not> is_request ev"
  shows "metrics_ok s' mt"
proof -
  obtain rs where rs: "ex_replies s' = ex_replies s @ rs" "\<forall>r \<in> set rs. rp_action r \<in> {Handshake, Success, Failure}"
    using uncounted_replies [OF assms(2,3)] by blast
  then have "filter (\<lambda>r. rp_action r = a) rs = []" if "a \<in> {UnknownCommand, Unauthorized}" for a
    using that by (auto simp: filter_empty_conv action_names)
  with assms(1) rs show ?thesis by (auto simp: metrics_ok_def replies_of_def reply_actions_def)
qed

lemma metered_trace_ok:
  "metered_trace E x evs y \<Longrightarrow> x = (New_executor v, zero_metrics) \<Longrightarrow>
   metrics_ok (fst y) (snd y) \<and> mt_received (snd y) = length (filter is_request evs)"
proof (induction rule: metered_trace.induct)
  case no_step
  then show ?case by (simp add: metrics_ok_def replies_of_def zero_metrics_def)
next
  case (one_more evs y ev t mt)
  obtain s m where y: "y = (s, m)" by fastforce
  from one_more.hyps(2) show ?case
  proof cases
    case (counted s0 m0 req)
    with counted_ok [of s m E req t mt] one_more.IH [OF one_more.prems] y show ?thesis by auto
  next
    case uncounted
    with uncounted_ok [of s m E ev t] one_more.IH [OF one_more.prems] y show ?thesis by auto
  qed
qed

section \<open>Properties\<close>

text \<open>
  C14: the counters tell the truth about the replies. In every run of the executor with its counters, which is a run of
  the executor, the received counter is the number of requests, known or not; the unknown and the
  rejected counters are the replies of these kinds, the latter by the command that was resolved; and the
  accepted ones are those that ended with a success or a failure, those in the wait group and one about to be
  added there.
\<close>

theorem metrics_account_for_requests:
  assumes "metered_trace E (New_executor v, zero_metrics) evs (s, mt)"
  shows "exec_trace E (\<lambda>_ _. True) (New_executor v) evs s \<and>
    mt_received mt = length (filter is_request evs) \<and>
    mt_received mt = mt_unknown mt + size (mt_rejected mt) + size (mt_accepted mt) \<and>
    mt_unknown mt = length (filter (\<lambda>r. rp_action r = UnknownCommand) (ex_replies s)) \<and>
    mt_rejected mt = mset (map (req_Command \<circ> rp_request) (filter (\<lambda>r. rp_action r = Unauthorized) (ex_replies s))) \<and>
    size (mt_accepted mt) = length (filter (\<lambda>r. rp_action r \<in> {Success, Failure}) (ex_replies s)) + ex_wg s +
      (if ex_sending s \<noteq> None \<and> \<not> ex_counted s then 1 else 0) \<and>
    mt_aliased mt + mt_unknown mt \<le> mt_received mt"
proof -
  have ok: "metrics_ok s mt" "mt_received mt = length (filter is_request evs)"
    using metered_trace_ok [OF assms refl] by simp_all
  have tr: "exec_trace E (\<lambda>_ _. True) (New_executor v) evs s" using metered_trace_erase [OF assms] by simp
  have "final_replies s + (ex_wg s + uncounted s) = mt_received mt" using trace_counts [OF tr] ok(2) by simp
  moreover have "length (filter final_reply rs) = length (filter (\<lambda>r. rp_action r = UnknownCommand) rs) +
      length (filter (\<lambda>r. rp_action r = Unauthorized) rs) + length (filter (\<lambda>r. rp_action r \<in> {Success, Failure}) rs)"
    if "\<forall>r \<in> set rs. rp_action r \<in> reply_actions" for rs
    using that by (induction rs) (auto simp: final_reply_def reply_actions_def action_names)
  moreover have "size (mt_rejected mt) = length (filter (\<lambda>r. rp_action r = Unauthorized) (ex_replies s))"
    using ok(1) unfolding metrics_ok_def replies_of_def by (metis length_map size_mset)
  ultimately have "size (mt_accepted mt) =
      length (filter (\<lambda>r. rp_action r \<in> {Success, Failure}) (ex_replies s)) + ex_wg s + uncounted s"
    using ok(1) unfolding metrics_ok_def replies_of_def final_replies_def by simp
  with ok tr show ?thesis unfolding metrics_ok_def replies_of_def uncounted_def by blast
qed

theorem metrics_account_for_requests_witness:
  "\<exists>s mt. metered_trace ref_executor (New_executor ref_world, zero_metrics) (Received version_request # one_command) (s, mt) \<and>
    mt_received mt = 1 \<and> size (mt_accepted mt) + mt_unknown mt + size (mt_rejected mt) = 1"
proof (rule ref_start)
  fix s t assume s: "exec_step ref_executor (New_executor ref_world) (Received version_request) (Ret s)"
    "ex_sending s = Some t" "tk_cmd t = BuiltinCommand VersionCommand" "ex_queue s = []" "ex_goroutines s = []"
    "\<not> ex_closed s" "\<not> ex_counted s"
  then obtain s' where "exec_trace ref_executor (\<lambda>_. internal) s one_command s'"
    using ref_one_command [of s t] by metis
  then have "exec_trace ref_executor (\<lambda>_ _. True) s one_command s'" by (rule exec_trace_mono) simp
  from exec_trace_Cons [OF this s(1)]
  have "exec_trace ref_executor (\<lambda>_ _. True) (New_executor ref_world) (Received version_request # one_command) s'"
    by simp
  from metered_trace_exists [OF this, of zero_metrics] obtain mt where
    m: "metered_trace ref_executor (New_executor ref_world, zero_metrics) (Received version_request # one_command) (s', mt)"
    by blast
  note acc = metrics_account_for_requests [OF m, THEN conjunct2]
  have "mt_received mt = 1" using acc by (simp add: one_command_def)
  moreover have "size (mt_accepted mt) + mt_unknown mt + size (mt_rejected mt) = mt_received mt" using acc by linarith
  ultimately show ?thesis using m by metis
qed

end
