(* ===== verification/Launch.thy ===== *)
theory Launch
  imports Configuration Slack Agent Metrics
begin

text \<open>
  The main program (\<^verbatim>\<open>main.go\<close>) with the parts of other packages that only it uses (\<^verbatim>\<open>http/http.go\<close>,
  \<^verbatim>\<open>remote/server/server.go\<close>): from the arguments to a running server or agent, the reload of the
  configuration, and the signals. What the outside answers (files, certificates, Slack, the network)
  is a record of functions. The end of the process is a panic with its message.
\<close>

section \<open>Arguments\<close>

record args =
  ar_ConfigFile :: string
  ar_DebugMode :: bool
  ar_StealthMode :: bool
  ar_DebugSlack :: bool
  ar_Address :: string
  ar_APIPath :: string
  ar_MetricsPath :: string
  ar_SlackToken :: string
  ar_ExecutionMode :: string
  ar_AgentOf :: string
  ar_GRPCServerAddress :: string
  ar_GRPCServerEnabled :: bool
  ar_GRPCSecurityMode :: string
  ar_GRPCCertPath :: string
  ar_GRPCKeyPath :: string

text \<open>The defaults of the flags, for a home directory and a token of the environment.\<close>

definition default_args :: "string \<Rightarrow> string \<Rightarrow> args" where
  "default_args home slack_token =
     \<lparr>ar_ConfigFile = home @ ''/.meeseeks.yaml'', ar_DebugMode = False, ar_StealthMode = False, ar_DebugSlack = False,
      ar_Address = '':9696'', ar_APIPath = ''/message'', ar_MetricsPath = ''/metrics'', ar_SlackToken = slack_token,
      ar_ExecutionMode = [], ar_AgentOf = [], ar_GRPCServerAddress = '':9697'', ar_GRPCServerEnabled = False,
      ar_GRPCSecurityMode = ''insecure'', ar_GRPCCertPath = [], ar_GRPCKeyPath = []\<rparr>"

text \<open>\<open>set_flags\<close> is what the flags of the command line change.\<close>

definition parseArgs :: "(args \<Rightarrow> args) \<Rightarrow> string \<Rightarrow> string \<Rightarrow> args" where
  "parseArgs set_flags home slack_token =
     (let a = set_flags (default_args home slack_token)
      in a\<lparr>ar_ExecutionMode := (if ar_AgentOf a \<noteq> [] then ''agent'' else ''server'')\<rparr>)"

section \<open>The HTTP server and the remote server\<close>

text \<open>The services of the HTTP server are shut down in order, up to the first that fails.\<close>

type_synonym 'w http_service = "'w \<Rightarrow> err option \<times> 'w"

definition http_New :: "'w http_service list" where
  "http_New = []"

definition http_Register :: "'w http_service \<Rightarrow> 'w http_service list \<Rightarrow> 'w http_service list" where
  "http_Register svc svcs = svcs @ [svc]"

fun http_Shutdown :: "('w \<Rightarrow> 'w) \<Rightarrow> 'w http_service list \<Rightarrow> 'w \<Rightarrow> err option \<times> 'w" where
  "http_Shutdown stop [] w = (None, stop w)"
| "http_Shutdown stop (svc # svcs) w =
     (case svc w of
        (Some e, w') \<Rightarrow> (Some e, w')
      | (None, w') \<Rightarrow> http_Shutdown stop svcs w')"

text \<open>
  The multiplexer of the HTTP library knows the patterns that were registered; an empty pattern and a pattern
  that is known panic. The error of listening is dropped.
\<close>

definition mux_Handle :: "string \<Rightarrow> string list \<Rightarrow> string list run" where
  "mux_Handle pattern mux =
     (if pattern = [] then Panic ''http: invalid pattern''
      else if pattern \<in> set mux then Panic (''http: multiple registrations for '' @ pattern)
      else Ret (mux @ [pattern]))"

definition RegisterPath :: "string \<Rightarrow> string list \<Rightarrow> string list run" where
  "RegisterPath metricsPath mux = mux_Handle metricsPath mux"

definition listenHTTP :: "args \<Rightarrow> string list \<Rightarrow> string list run" where
  "listenHTTP a mux = RegisterPath (ar_MetricsPath a) mux"

definition startAPI :: "enricher \<Rightarrow> args \<Rightarrow> string list \<Rightarrow> (api_service \<times> string list) run" where
  "startAPI client a mux =
     (case mux_Handle (ar_APIPath a) mux of
        Panic m \<Rightarrow> Panic m
      | Ret mux' \<Rightarrow> Ret (New_service client, mux'))"

text \<open>
  The remote server: the certificate it was made with, if any, and the services that are registered with it, of which
  the pipeline has a state. \<open>credentials\<close> is the error of loading the certificate and the key.
\<close>

record remote_config =
  rc_CertPath :: string
  rc_KeyPath :: string
  rc_SecurityMode :: string

record remote_server =
  rs_tls :: "(string \<times> string) option"
  rs_pipeline :: pipeline
  rs_config :: remote_config

definition RemoteServer_New :: "(string \<Rightarrow> string \<Rightarrow> err option) \<Rightarrow> remote_config \<Rightarrow> remote_server result" where
  "RemoteServer_New credentials c =
     (if rc_SecurityMode c = ''tls''
      then (case credentials (rc_CertPath c) (rc_KeyPath c) of
              Some e \<Rightarrow> Fails (wrap_err ''could not configure tls credentials: '' e)
            | None \<Rightarrow> Returns \<lparr>rs_tls = Some (rc_CertPath c, rc_KeyPath c), rs_pipeline = newCommandPipelineServer, rs_config = c\<rparr>)
      else Returns \<lparr>rs_tls = None, rs_pipeline = newCommandPipelineServer, rs_config = c\<rparr>)"

text \<open>\<open>net_listen\<close> opens the port, \<open>serve\<close> is how serving ends.\<close>

definition RemoteServer_Listen :: "(string \<Rightarrow> err option) \<Rightarrow> err option \<Rightarrow> string \<Rightarrow> err option" where
  "RemoteServer_Listen net_listen serve addr =
     (case net_listen addr of
        Some e \<Rightarrow> Some (wrap_err (''could parse address '' @ addr @ '': '') e)
      | None \<Rightarrow> map_option (wrap_err (''failed to start listening on address '' @ addr @ '': '')) serve)"

definition startRemoteServer :: "(string \<Rightarrow> string \<Rightarrow> err option) \<Rightarrow> args \<Rightarrow> remote_server result" where
  "startRemoteServer credentials a =
     (case RemoteServer_New credentials
             \<lparr>rc_CertPath = ar_GRPCCertPath a, rc_KeyPath = ar_GRPCKeyPath a, rc_SecurityMode = ar_GRPCSecurityMode a\<rparr> of
        Inl e \<Rightarrow> Fails (wrap_err ''could not create GRPC Server: '' e)
      | Inr s \<Rightarrow> Returns s)"

text \<open>
  The goroutine that serves agents, when it is enabled: an error ends the process. The message has no place for
  the error.
\<close>

definition serve_agents :: "(string \<Rightarrow> err option) \<Rightarrow> err option \<Rightarrow> args \<Rightarrow> unit run" where
  "serve_agents net_listen serve a =
     (if ar_GRPCServerEnabled a \<and> RemoteServer_Listen net_listen serve (ar_GRPCServerAddress a) \<noteq> None
      then Panic ''could not start grpc server'' else Ret ())"

definition connectToSlack :: "(string \<Rightarrow> err option) \<Rightarrow> args \<Rightarrow> messageMatcher run" where
  "connectToSlack auth_test a =
     (case Connect auth_test
             \<lparr>co_Debug = ar_DebugSlack a, co_Token = ar_SlackToken a, co_Stealth = ar_StealthMode a\<rparr> of
        Inl e \<Rightarrow> Panic (''Could not connect to slack: '' @ err_text e)
      | Inr matcher \<Rightarrow> Ret matcher)"

section \<open>The connection of an agent\<close>

text \<open>
  The settings of an agent, and the options it dials with; those of the last two kinds name the certificate and the
  lack of one. A certificate that cannot be loaded ends the process.
\<close>

record agent_config =
  cn_ServerURL :: string
  cn_GRPCTimeout :: i64
  cn_SecurityMode :: string
  cn_CertPath :: string
  cn_Token :: string
  cn_Labels :: "(string, string) gomap"

datatype dial_option =
    KeepaliveParams i64 bool i64 | BackoffMaxDelay i64 | DialTimeout i64 | PrometheusInterceptors
  | TransportCredentials string | WithInsecure

definition GetOptions :: "(string \<Rightarrow> err option) \<Rightarrow> agent_config \<Rightarrow> dial_option list run" where
  "GetOptions client_cert c =
     (let opts = [KeepaliveParams (5 * second) True (GetGRPCTimeout (cn_GRPCTimeout c)), BackoffMaxDelay (5 * second),
                  DialTimeout (GetGRPCTimeout (cn_GRPCTimeout c)), PrometheusInterceptors]
      in if cn_SecurityMode c = ''tls''
         then (case client_cert (cn_CertPath c) of
                 Some e \<Rightarrow> Panic (''could not load server cert: '' @ err_text e)
               | None \<Rightarrow> Ret (opts @ [TransportCredentials (cn_CertPath c)]))
         else Ret (opts @ [WithInsecure]))"

section \<open>Launching\<close>

record 'db surroundings =
  su_open_file :: "string \<Rightarrow> string result result"
  su_yaml :: "string \<Rightarrow> config \<Rightarrow> config \<times> err option"
  su_bolt_open :: "database_config \<Rightarrow> 'db result"
  su_credentials :: "string \<Rightarrow> string \<Rightarrow> err option"
  su_slack_auth :: "string \<Rightarrow> err option"
  su_client_cert :: "string \<Rightarrow> err option"
  su_dial :: "string \<Rightarrow> dial_option list \<Rightarrow> err option"
  su_slack_api :: slack_api
  su_refuses :: "string list \<Rightarrow> string \<Rightarrow> string option"

text \<open>\<^verbatim>\<open>must\<close> ends the process.\<close>

definition must :: "string \<Rightarrow> err option \<Rightarrow> unit run" where
  "must message e = (case e of None \<Rightarrow> Ret () | Some x \<Rightarrow> Panic (message @ err_text x))"

definition reload :: "args \<Rightarrow> 'db surroundings \<Rightarrow> 'db system \<Rightarrow> 'db system" where
  "reload a E s =
     (case ReadFile (su_yaml E) (su_open_file E) (ar_ConfigFile a) of
        (_, Some e) \<Rightarrow> s
      | (cnf, None) \<Rightarrow> snd (LoadConfiguration (su_bolt_open E) cnf s))"

datatype 'db launched = Server "'db system" messageMatcher | AgentOf "'db system" agent_loop

text \<open>\<^verbatim>\<open>executor.New\<close> drops the error of \<open>LoadBuiltins\<close>.\<close>

definition launch_server :: "'db bolt \<Rightarrow> codec \<Rightarrow> 'db surroundings \<Rightarrow> args \<Rightarrow> string list \<Rightarrow> 'db system \<Rightarrow>
    'db launched result run" where
  "launch_server B C E a mux s =
     (case js_FailRunningJobs (local_jobs B C) (sy_world s) of
        (Inl e, _) \<Rightarrow> Panic (''Could not flush running jobs after: '' @ err_text e)
      | (Inr _, w) \<Rightarrow>
          (case RegisterServerMetrics (su_refuses E) (init_metrics (su_refuses E)) of
             Panic m \<Rightarrow> Panic m
           | Ret _ \<Rightarrow>
               (case startRemoteServer (su_credentials E) a of
                  Inl e \<Rightarrow> Panic (''could not start GRPC server: '' @ err_text e)
                | Inr remote \<Rightarrow>
                    (case connectToSlack (su_slack_auth E) a of
                       Panic m \<Rightarrow> Panic m
                     | Ret matcher \<Rightarrow>
                         (case startAPI (slack_enricher (su_slack_api E)) a mux of
                            Panic m \<Rightarrow> Panic m
                          | Ret _ \<Rightarrow>
                              Ret (Returns (Server
                                (s\<lparr>sy_world := w, sy_commands := snd (LoadBuiltins (sy_commands s))\<rparr>) matcher)))))))"

definition agent_Connect :: "'db surroundings \<Rightarrow> agent_config \<Rightarrow> err option run" where
  "agent_Connect E c =
     (case GetOptions (su_client_cert E) c of
        Panic m \<Rightarrow> Panic m
      | Ret opts \<Rightarrow>
          Ret (map_option (wrap_err (''could not connect to remote server '' @ cn_ServerURL c @ '': ''))
            (su_dial E (cn_ServerURL c) opts)))"

definition agent_settings :: "args \<Rightarrow> agent_config" where
  "agent_settings a =
     \<lparr>cn_ServerURL = ar_AgentOf a, cn_GRPCTimeout = 10 * second, cn_SecurityMode = ar_GRPCSecurityMode a,
      cn_CertPath = ar_GRPCCertPath a, cn_Token = ''null-token'', cn_Labels = []\<rparr>"

text \<open>An agent never dials for longer than its settings say, and never in the clear when they say TLS.\<close>

lemma agents_dial_as_configured:
  assumes "GetOptions client_cert (agent_settings a) = Ret opts"
  shows "DialTimeout (10 * second) \<in> set opts" and "WithInsecure \<in> set opts \<longleftrightarrow> ar_GRPCSecurityMode a \<noteq> ''tls''"
  using assms by (auto simp: GetOptions_def agent_settings_def GetGRPCTimeout_def Let_def split: if_splits option.splits)

definition launch_agent :: "'db surroundings \<Rightarrow> args \<Rightarrow> 'db system \<Rightarrow> 'db launched result run" where
  "launch_agent E a s =
     (case agent_Connect E (agent_settings a) of
        Panic m \<Rightarrow> Panic m
      | Ret e \<Rightarrow>
          (case must ''could not connect to remote server: '' e of
             Panic m \<Rightarrow> Panic m
           | Ret _ \<Rightarrow> Ret (Returns (AgentOf s Run_start))))"

definition launch :: "'db bolt \<Rightarrow> codec \<Rightarrow> 'db surroundings \<Rightarrow> args \<Rightarrow> 'db system \<Rightarrow> 'db launched result run" where
  "launch B C E a s =
     (case ReadFile (su_yaml E) (su_open_file E) (ar_ConfigFile a) of
        (_, Some e) \<Rightarrow> Panic (''failed to load configuration file: '' @ err_text e)
      | (cnf, None) \<Rightarrow>
          (case LoadConfiguration (su_bolt_open E) cnf s of
             (Some e, _) \<Rightarrow> Panic (''could not load configuration: '' @ err_text e)
           | (None, s') \<Rightarrow>
               (case listenHTTP a [] of
                  Panic m \<Rightarrow> Panic m
                | Ret mux \<Rightarrow>
                    (if ar_ExecutionMode a = ''server'' then launch_server B C E a mux s'
                     else if ar_ExecutionMode a = ''agent'' then launch_agent E a s'
                     else Ret (Fails (Errorf (''Invalid execution mode '' @ ar_ExecutionMode a @
                            '', Valid execution modes are server (default), and agent'')))))))"

text \<open>The reload function of an agent reconnects afterwards.\<close>

definition agent_reload :: "args \<Rightarrow> 'db surroundings \<Rightarrow> 'db system \<times> agent_loop \<Rightarrow> 'db system \<times> agent_loop" where
  "agent_reload a E s = (reload a E (fst s), Reconnect (snd s))"

section \<open>Signals\<close>

datatype signal = SIGHUP | SIGINT | SIGTERM | SIGUSR1

text \<open>The debug level is on or off; other levels are never set.\<close>

definition configureLogger :: "args \<Rightarrow> bool" where
  "configureLogger a = ar_DebugMode a"

definition toggleDebugLogging :: "bool \<Rightarrow> bool" where
  "toggleDebugLogging debug = (if debug then False else True)"

text \<open>
  The signals that arrive, each with the surroundings at that moment; the last result is whether the loop
  has ended. \<open>load\<close> is the reload function that \<open>launch\<close> returns.
\<close>

fun waitForSignals :: "('e \<Rightarrow> 's \<Rightarrow> 's) \<Rightarrow> (signal \<times> 'e) list \<Rightarrow> 's \<Rightarrow> bool \<Rightarrow> 's \<times> bool \<times> bool" where
  "waitForSignals load [] s debug = (s, debug, False)"
| "waitForSignals load ((sig, E) # sigs) s debug =
     (case sig of
        SIGHUP \<Rightarrow> waitForSignals load sigs (load E s) debug
      | SIGUSR1 \<Rightarrow> waitForSignals load sigs s (toggleDebugLogging debug)
      | SIGINT \<Rightarrow> (s, debug, True)
      | SIGTERM \<Rightarrow> (s, debug, True))"

section \<open>Loading\<close>

lemma LoadConfiguration_world:
  assumes "LoadConfiguration bolt_open cnf s = (None, s')"
  shows "\<exists>d. bolt_open (cf_Database cnf) = Returns d \<and>
    sy_world s' = (sy_world s)\<lparr>wd_db := \<lparr>databaseConfig = cf_Database cnf, database = Open d\<rparr>\<rparr>"
    and "Register \<lparr>ra_Kind = KindLocalCommand, ra_Action = ActionRegister, ra_Commands = config_registrations cnf\<rparr>
      (sy_commands s) = (None, sy_commands s')"
    and "sy_formatter s' = Some (Configure_formatter (cf_Format cnf))"
  using assms
  by (auto simp: LoadConfiguration_def Configure_db_def Let_def split: sum.splits prod.splits option.splits)

definition local_hub :: "config_command \<Rightarrow> command commandHub" where
  "local_hub c = \<lparr>hub_kind = KindLocalCommand, hub_cmd = ShellCommand (config_opts c)\<rparr>"

text \<open>A configuration is in force: its commands are the local ones, its groups decide, its texts reply.\<close>

definition configured_as :: "config \<Rightarrow> 'db system \<Rightarrow> bool" where
  "configured_as cnf s \<longleftrightarrow>
     (\<forall>n hub. map_of (sy_commands s) n = Some hub \<and> hub_kind hub = KindLocalCommand \<longleftrightarrow>
       (\<exists>c. map_of (cf_Commands cnf) n = Some c \<and> hub = local_hub c)) \<and>
     (\<forall>req c. Check (sy_auth s) req c = Ret (policy (cf_Groups cnf) req c)) \<and>
     sy_formatter s = Some (Configure_formatter (cf_Format cnf))"

text \<open>Two systems with the same commands of the other kinds.\<close>

definition same_others :: "'db system \<Rightarrow> 'db system \<Rightarrow> bool" where
  "same_others s s' \<longleftrightarrow> (\<forall>n hub. hub_kind hub \<noteq> KindLocalCommand \<longrightarrow>
     (map_of (sy_commands s') n = Some hub \<longleftrightarrow> map_of (sy_commands s) n = Some hub))"

lemma loading:
  assumes "registry_ok (sy_commands s)" and "gomap_ok (cf_Commands cnf)" and "gomap_ok (cf_Groups cnf)"
    and "LoadConfiguration bolt_open cnf s = (None, s')"
  shows "registry_ok (sy_commands s')" and "configured_as cnf s'" and "same_others s s'"
proof -
  note eff = LoadConfiguration_effect [OF assms, simplified]
  from eff show "registry_ok (sy_commands s')" by simp
  have map: "map_of (sy_commands s') n =
      (case map_of (cf_Commands cnf) n of
         Some c \<Rightarrow> Some (local_hub c)
       | None \<Rightarrow> (case map_of (sy_commands s) n of
           Some hub \<Rightarrow> if hub_kind hub = KindLocalCommand then None else Some hub
         | None \<Rightarrow> None))" for n
    using eff by (cases "map_of (cf_Commands cnf) n") (simp_all add: local_hub_def)
  show "configured_as cnf s'"
    using eff LoadConfiguration_world(3) [OF assms(4)]
    by (auto simp: configured_as_def map local_hub_def split: option.splits if_splits)
  show "same_others s s'"
    unfolding same_others_def
  proof (intro allI impI)
    fix n and hub :: "command commandHub"
    assume k: "hub_kind hub \<noteq> KindLocalCommand"
    show "map_of (sy_commands s') n = Some hub \<longleftrightarrow> map_of (sy_commands s) n = Some hub"
    proof (cases "map_of (cf_Commands cnf) n")
      case None
      with k show ?thesis by (auto simp: map split: option.splits if_splits)
    next
      case (Some c)
      have "map_of (sy_commands s) n \<noteq> Some hub"
      proof
        assume "map_of (sy_commands s) n = Some hub"
        from Register_kind_stable [OF assms(1) LoadConfiguration_world(2) [OF assms(4)] this] Some k
        show False by (simp add: map local_hub_def)
      qed
      with Some k show ?thesis by (auto simp: map local_hub_def)
    qed
  qed
qed

lemma same_others_refl [simp]: "same_others s s"
  by (simp add: same_others_def)

lemma same_others_trans: "same_others s t \<Longrightarrow> same_others t u \<Longrightarrow> same_others s u"
  by (simp add: same_others_def)

text \<open>Decoding gives maps: no key occurs twice.\<close>

definition decodes_maps :: "'db surroundings \<Rightarrow> bool" where
  "decodes_maps E \<longleftrightarrow> (\<forall>b cnf. su_yaml E b default_config = (cnf, None) \<longrightarrow> gomap_ok (cf_Commands cnf) \<and> gomap_ok (cf_Groups cnf))"

lemma ReadFile_maps:
  assumes "decodes_maps E" and "ReadFile (su_yaml E) (su_open_file E) f = (cnf, None)"
  shows "gomap_ok (cf_Commands cnf)" and "gomap_ok (cf_Groups cnf)"
  using assms by (auto simp: ReadFile_def New_config_def decodes_maps_def split: sum.splits prod.splits option.splits)

lemma LoadConfiguration_fails:
  "LoadConfiguration bolt_open cnf s = (Some e, s') \<Longrightarrow>
     sy_commands s' = sy_commands s \<and> sy_auth s' = sy_auth s \<and> sy_formatter s' = sy_formatter s"
  by (auto simp: LoadConfiguration_def Let_def Register_def split: prod.splits option.splits)

lemma reloading:
  assumes "registry_ok (sy_commands s)" and "decodes_maps E" and "configured_as cnf s"
  shows "registry_ok (sy_commands (reload a E s)) \<and> same_others s (reload a E s) \<and>
    (configured_as cnf (reload a E s) \<or>
     (\<exists>cnf'. ReadFile (su_yaml E) (su_open_file E) (ar_ConfigFile a) = (cnf', None) \<and> configured_as cnf' (reload a E s)))"
proof (cases "ReadFile (su_yaml E) (su_open_file E) (ar_ConfigFile a)")
  case (Pair cnf' e)
  show ?thesis
  proof (cases e)
    case (Some x)
    with Pair assms show ?thesis by (simp add: reload_def)
  next
    case None
    obtain r s' where l: "LoadConfiguration (su_bolt_open E) cnf' s = (r, s')" by fastforce
    with Pair None have s': "reload a E s = s'" by (simp add: reload_def)
    show ?thesis
    proof (cases r)
      case None
      with l have l': "LoadConfiguration (su_bolt_open E) cnf' s = (None, s')" by simp
      have maps: "gomap_ok (cf_Commands cnf')" "gomap_ok (cf_Groups cnf')"
        using ReadFile_maps [OF assms(2)] Pair \<open>e = None\<close> by blast+
      from loading [OF assms(1) maps l'] Pair \<open>e = None\<close> show ?thesis by (auto simp: s')
    next
      case (Some x)
      with l have "sy_commands s' = sy_commands s" "sy_auth s' = sy_auth s" "sy_formatter s' = sy_formatter s"
        using LoadConfiguration_fails by blast+
      with assms show ?thesis by (simp add: s' same_others_def configured_as_def)
    qed
  qed
qed

lemma LoadBuiltins_shadowed:
  assumes "map_of cmds (builtin_name b) = Some h" and "hub_kind h \<noteq> KindBuiltinCommand"
  shows "snd (LoadBuiltins cmds) = cmds"
proof -
  let ?c = "\<lparr>cr_Name = builtin_name b, cr_Cmd = Some (BuiltinCommand b)\<rparr>"
  have "\<not> valid_registration cmds KindBuiltinCommand ActionRegister ?c"
    using assms by (simp add: valid_registration_def)
  moreover have "?c \<in> (\<lambda>b. \<lparr>cr_Name = builtin_name b, cr_Cmd = Some (BuiltinCommand b)\<rparr>) ` set all_builtins"
    by (rule imageI) (cases b; simp add: all_builtins_def)
  ultimately show ?thesis
    by (auto simp: LoadBuiltins_def Register_def registration_validate_None split: option.split)
qed

text \<open>What a launched server went through.\<close>

lemma launch_server_parts:
  assumes "launch B C E a s = Ret (Returns (Server s' m))"
  obtains cnf s1 w u where "ReadFile (su_yaml E) (su_open_file E) (ar_ConfigFile a) = (cnf, None)"
    "LoadConfiguration (su_bolt_open E) cnf s = (None, s1)"
    "js_FailRunningJobs (local_jobs B C) (sy_world s1) = (Returns u, w)"
    "s' = s1\<lparr>sy_world := w, sy_commands := snd (LoadBuiltins (sy_commands s1))\<rparr>"
    "m = newMessageMatcher (ar_StealthMode a)"
proof -
  obtain cnf e where r: "ReadFile (su_yaml E) (su_open_file E) (ar_ConfigFile a) = (cnf, e)" by fastforce
  with assms have e: "e = None" by (cases e) (simp_all add: launch_def)
  obtain x s1 where l: "LoadConfiguration (su_bolt_open E) cnf s = (x, s1)" by fastforce
  with assms r e have x: "x = None" by (cases x) (simp_all add: launch_def)
  obtain f w where k: "js_FailRunningJobs (local_jobs B C) (sy_world s1) = (f, w)" by fastforce
  obtain mux where mux: "listenHTTP a [] = Ret mux"
    using assms r e l x by (cases "listenHTTP a []") (simp_all add: launch_def)
  have "launch_server B C E a mux s1 = Ret (Returns (Server s' m))"
  proof (rule ccontr)
    assume n: "launch_server B C E a mux s1 \<noteq> Ret (Returns (Server s' m))"
    with assms r e l x mux have "ar_ExecutionMode a = ''agent''" by (simp add: launch_def split: if_splits)
    with assms r e l x mux show False
      by (auto simp: launch_def launch_agent_def split: if_splits run.splits)
  qed
  with k have "\<exists>u. f = Inr u" "s' = s1\<lparr>sy_world := w, sy_commands := snd (LoadBuiltins (sy_commands s1))\<rparr>"
    "m = newMessageMatcher (ar_StealthMode a)"
    by (auto simp: launch_server_def connectToSlack_def Connect_def split: sum.splits run.splits option.splits if_splits)
  with that r e l x k show thesis by blast
qed

text \<open>The paths of the metrics and of the API must differ.\<close>

lemma same_paths_never_serve: "ar_APIPath a = ar_MetricsPath a \<Longrightarrow> launch B C E a s \<noteq> Ret (Returns (Server s' m))"
  by (auto simp: launch_def listenHTTP_def RegisterPath_def mux_Handle_def launch_server_def launch_agent_def startAPI_def
      split: prod.splits option.splits run.splits if_splits sum.splits)

section \<open>Properties\<close>

text \<open>
  C11: a launched server is ready. When no configured command has the name of a builtin, the registry holds the
  twenty builtins and the configured commands and nothing else, every check is the policy over the
  configured groups, and in the database that was opened no job is running, those that were being
  killed and everything else as it was.
\<close>

theorem launched_server_is_ready:
  assumes "launch B C E a s = Ret (Returns (Server s' m))" and "sy_commands s = Reset"
    and "ReadFile (su_yaml E) (su_open_file E) (ar_ConfigFile a) = (cnf, None)"
    and "gomap_ok (cf_Commands cnf)" and "gomap_ok (cf_Groups cnf)"
    and "\<And>b. map_of (cf_Commands cnf) (builtin_name b) = None"
    and "stores B view C"
    and "\<And>d. su_bolt_open E (cf_Database cnf) = Returns d \<Longrightarrow>
      world_rel C view ((sy_world s)\<lparr>wd_db := \<lparr>databaseConfig = cf_Database cnf, database = Open d\<rparr>\<rparr>) stored"
  shows "(\<forall>b. map_of (sy_commands s') (builtin_name b) = Some \<lparr>hub_kind = KindBuiltinCommand, hub_cmd = BuiltinCommand b\<rparr>) \<and>
    (\<forall>n. n \<notin> range builtin_name \<longrightarrow> map_of (sy_commands s') n = map_option local_hub (map_of (cf_Commands cnf) n)) \<and>
    (\<forall>req c. Check (sy_auth s') req c = Ret (policy (cf_Groups cnf) req c)) \<and>
    (\<exists>t. world_rel C view (sy_world s') (stored\<lparr>st_jobs := kill_all t (running (st_jobs stored)) (st_jobs stored)\<rparr>)) \<and>
    (\<forall>t. running (kill_all t (running (st_jobs stored)) (st_jobs stored)) = {})"
proof -
  obtain s1 w u where l: "LoadConfiguration (su_bolt_open E) cnf s = (None, s1)"
    and k: "js_FailRunningJobs (local_jobs B C) (sy_world s1) = (Returns u, w)"
    and s': "s' = s1\<lparr>sy_world := w, sy_commands := snd (LoadBuiltins (sy_commands s1))\<rparr>"
    using launch_server_parts [OF assms(1)] assms(3) by (metis prod.inject)
  have reg: "registry_ok (sy_commands s)" by (simp add: assms(2) registry_ok_def Reset_def)
  note load = loading [OF reg assms(4,5) l]
  have cmds: "map_of (sy_commands s1) n = map_option local_hub (map_of (cf_Commands cnf) n)" for n
    using LoadConfiguration_effect [OF reg assms(4,5) l]
    by (cases "map_of (cf_Commands cnf) n") (simp_all add: assms(2) Reset_def local_hub_def)
  have "map_of (sy_commands s1) (builtin_name b) = None" for b by (simp add: cmds assms(6))
  with LoadBuiltins_effect [OF load(1)] obtain cmds' where b: "LoadBuiltins (sy_commands s1) = (None, cmds')"
    "\<forall>b. map_of cmds' (builtin_name b) = Some \<lparr>hub_kind = KindBuiltinCommand, hub_cmd = BuiltinCommand b\<rparr>"
    "\<forall>n. n \<notin> range builtin_name \<longrightarrow> map_of cmds' n = map_of (sy_commands s1) n"
    by force
  obtain d where "su_bolt_open E (cf_Database cnf) = Returns d"
    "sy_world s1 = (sy_world s)\<lparr>wd_db := \<lparr>databaseConfig = cf_Database cnf, database = Open d\<rparr>\<rparr>"
    using LoadConfiguration_world(1) [OF l] by blast
  with assms(8) have "world_rel C view (sy_world s1) stored" by simp
  from stores.local_kill_running [OF assms(7) this k] have
    "\<exists>t. world_rel C view (sy_world s') (stored\<lparr>st_jobs := kill_all t (running (st_jobs stored)) (st_jobs stored)\<rparr>)"
    by (simp add: s')
  moreover have "running (kill_all t (running (st_jobs stored)) (st_jobs stored)) = {}" for t
    by (auto simp: running_def kill_all_def job_status_defs split: if_splits option.splits)
  moreover have "Check (sy_auth s') req c = Ret (policy (cf_Groups cnf) req c)" for req c
    using load(2) by (simp add: s' configured_as_def)
  ultimately show ?thesis using b cmds by (simp add: s')
qed

text \<open>
  C40: one configured command with the name of a builtin leaves the server without any builtin: the launch
  succeeds all the same, and the registry holds the configured commands alone.
\<close>

theorem shadowed_builtin_disables_all:
  assumes "launch B C E a s = Ret (Returns (Server s' m))" and "sy_commands s = Reset"
    and "ReadFile (su_yaml E) (su_open_file E) (ar_ConfigFile a) = (cnf, None)"
    and "gomap_ok (cf_Commands cnf)" and "gomap_ok (cf_Groups cnf)"
    and "map_of (cf_Commands cnf) (builtin_name b) = Some c"
  shows "map_of (sy_commands s') n = map_option local_hub (map_of (cf_Commands cnf) n)"
proof -
  obtain s1 w u where l: "LoadConfiguration (su_bolt_open E) cnf s = (None, s1)"
    and s': "s' = s1\<lparr>sy_world := w, sy_commands := snd (LoadBuiltins (sy_commands s1))\<rparr>"
    using launch_server_parts [OF assms(1)] assms(3) by (metis prod.inject)
  have reg: "registry_ok (sy_commands s)" by (simp add: assms(2) registry_ok_def Reset_def)
  have cmds: "map_of (sy_commands s1) n = map_option local_hub (map_of (cf_Commands cnf) n)" for n
    using LoadConfiguration_effect [OF reg assms(4,5) l]
    by (cases "map_of (cf_Commands cnf) n") (simp_all add: assms(2) Reset_def local_hub_def)
  have "snd (LoadBuiltins (sy_commands s1)) = sy_commands s1"
    by (rule LoadBuiltins_shadowed [of _ b "local_hub c"]) (simp_all add: cmds assms(6) local_hub_def)
  with cmds show ?thesis by (simp add: s')
qed

text \<open>
  C12: whatever signals arrive, with whatever files behind them, exactly one configuration is in force: the local
  commands, the groups and the replies are all those of the first configuration or all those of one
  file that was read since, never a mixture, and the builtins and the commands of agents stay.
\<close>

theorem reloads_never_mix:
  assumes "registry_ok (sy_commands s)" and "configured_as cnf s" and "\<forall>(sig, E) \<in> set sigs. decodes_maps E"
    and "waitForSignals (reload a) sigs s debug = (s', debug', ended)"
  shows "registry_ok (sy_commands s') \<and> same_others s s' \<and>
    (\<exists>cnf'. configured_as cnf' s' \<and>
       (cnf' = cnf \<or> (\<exists>(sig, E) \<in> set sigs. ReadFile (su_yaml E) (su_open_file E) (ar_ConfigFile a) = (cnf', None))))"
  using assms
proof (induction sigs arbitrary: s cnf debug)
  case Nil
  then show ?case by auto
next
  case (Cons x sigs)
  obtain sig E where x: "x = (sig, E)" by (cases x)
  have E: "decodes_maps E" "\<forall>(sig, E) \<in> set sigs. decodes_maps E" using Cons.prems(3) x by auto
  show ?case
  proof (cases sig)
    case SIGHUP
    with Cons.prems(4) x have w: "waitForSignals (reload a) sigs (reload a E s) debug = (s', debug', ended)" by simp
    from reloading [OF Cons.prems(1) E(1) Cons.prems(2), of a] obtain cnf1 where r: "registry_ok (sy_commands (reload a E s))"
      "same_others s (reload a E s)" "configured_as cnf1 (reload a E s)"
      "cnf1 = cnf \<or> ReadFile (su_yaml E) (su_open_file E) (ar_ConfigFile a) = (cnf1, None)"
      by blast
    from Cons.IH [OF r(1,3) E(2) w] same_others_trans [OF r(2)] r(4) show ?thesis by (auto simp: x)
  next
    case SIGUSR1
    with Cons.IH [OF Cons.prems(1,2) E(2)] Cons.prems(4) x show ?thesis by fastforce
  qed (use Cons.prems x in auto)
qed

section \<open>Examples\<close>

text \<open>A file with one command under a name of choice, and surroundings in which everything works.\<close>

definition named_config :: "string \<Rightarrow> config" where
  "named_config n = echo_config\<lparr>cf_Database := databaseConfig (wd_db ref_world),
     cf_Commands := [(n, snd (hd (cf_Commands echo_config)))]\<rparr>"

definition ref_refuses :: "string list \<Rightarrow> string \<Rightarrow> string option" where
  "ref_refuses names name = (if name \<in> set names then Some ''duplicate'' else None)"

definition ref_surroundings :: "string \<Rightarrow> ref_db surroundings" where
  "ref_surroundings n =
     \<lparr>su_open_file = (\<lambda>f. Returns (Returns n)), su_yaml = (\<lambda>b c. (named_config b, None)), su_bolt_open = (\<lambda>c. Returns ref_empty),
      su_credentials = (\<lambda>c k. None), su_slack_auth = (\<lambda>t. None), su_client_cert = (\<lambda>c. None), su_dial = (\<lambda>u opts. None),
      su_slack_api = se_api ref_slack, su_refuses = ref_refuses\<rparr>"

definition ref_args :: args where
  "ref_args = parseArgs (\<lambda>a. a\<lparr>ar_SlackToken := ''xoxb''\<rparr>) ''/root'' []"

definition fresh_system :: "ref_db system" where
  "fresh_system = \<lparr>sy_world = ref_world, sy_commands = Reset, sy_auth = auth_init, sy_formatter = None\<rparr>"

lemma ref_read: "ReadFile (su_yaml (ref_surroundings n)) (su_open_file (ref_surroundings n)) f = (named_config n, None)"
  by (simp add: ReadFile_def New_config_def ref_surroundings_def)

lemma named_config_ok: "gomap_ok (cf_Commands (named_config n))" "gomap_ok (cf_Groups (named_config n))"
  "map_of (cf_Commands (named_config n)) k = (if k = n then Some (snd (hd (cf_Commands echo_config))) else None)"
  by (simp_all add: named_config_def echo_config_def)

lemma ref_opened: "(sy_world fresh_system)\<lparr>wd_db := \<lparr>databaseConfig = cf_Database (named_config n), database = Open ref_empty\<rparr>\<rparr> = ref_world"
  by (simp add: fresh_system_def named_config_def ref_world_def)

lemma ref_load:
  assumes "trim_space n \<noteq> []"
  shows "\<exists>s. LoadConfiguration (su_bolt_open (ref_surroundings n)) (named_config n) fresh_system = (None, s) \<and> sy_world s = ref_world"
proof -
  have "registration_validate [] \<lparr>ra_Kind = KindLocalCommand, ra_Action = ActionRegister,
      ra_Commands = config_registrations (named_config n)\<rparr> = None"
    using assms by (simp add: registration_validate_None valid_registration_def config_registrations_def named_config_def)
  then show ?thesis
    using ref_opened [of n]
    by (simp add: LoadConfiguration_def Configure_db_def Register_def Let_def fresh_system_def Reset_def ref_surroundings_def
        ref_world_def)
qed

lemma ref_launch:
  assumes "trim_space n \<noteq> []"
  shows "\<exists>s m. launch ref_bolt ref_codec (ref_surroundings n) ref_args fresh_system = Ret (Returns (Server s m))"
proof -
  obtain s where s: "LoadConfiguration (su_bolt_open (ref_surroundings n)) (named_config n) fresh_system = (None, s)"
    "sy_world s = ref_world"
    using ref_load [OF assms] by blast
  obtain w where w: "js_FailRunningJobs ref_jobs ref_world = (Returns (), w)" using ref_fail_running by blast
  have args: "ar_ExecutionMode ref_args = ''server''" "ar_MetricsPath ref_args = ''/metrics''" "ar_APIPath ref_args = ''/message''"
    "ar_SlackToken ref_args = ''xoxb''" "ar_GRPCSecurityMode ref_args = ''insecure''"
    by (simp_all add: ref_args_def parseArgs_def default_args_def Let_def)
  have outside: "su_refuses (ref_surroundings n) = ref_refuses" "su_slack_auth (ref_surroundings n) t = None" for t
    by (simp_all add: ref_surroundings_def)
  obtain names where names: "RegisterServerMetrics ref_refuses (init_metrics ref_refuses) = Ret names"
    by (rule register_metrics_once [of ref_refuses]) (simp_all add: refuses_duplicates_def ref_refuses_def)
  show ?thesis
    by (simp add: launch_def ref_read s args outside names launch_server_def w listenHTTP_def RegisterPath_def mux_Handle_def
        startAPI_def startRemoteServer_def RemoteServer_New_def connectToSlack_def Connect_def)
qed

theorem launched_server_is_ready_witness:
  "\<exists>s m. launch ref_bolt ref_codec (ref_surroundings ''echo'') ref_args fresh_system = Ret (Returns (Server s m)) \<and>
    map_of (sy_commands s) ''kill'' = Some \<lparr>hub_kind = KindBuiltinCommand, hub_cmd = BuiltinCommand KillJobCommand\<rparr> \<and>
    Check (sy_auth s) (zero_request\<lparr>req_Username := ''ann''\<rparr>) \<lparr>ca_AuthStrategy = ''group'', ca_AllowedGroups = [''dev''],
      ca_ChannelStrategy = ''any'', ca_AllowedChannels = []\<rparr> = Ret (Some ErrUserNotAllowed)"
proof -
  have "trim_space ''echo'' \<noteq> []" by (simp add: trim_space_id edge_byte_def)
  then obtain s m where l: "launch ref_bolt ref_codec (ref_surroundings ''echo'') ref_args fresh_system = Ret (Returns (Server s m))"
    using ref_launch by blast
  have b: "map_of (cf_Commands (named_config ''echo'')) (builtin_name b) = None" for b
    by (cases b) (simp_all add: named_config_ok(3))
  have "world_rel ref_codec ref_view ((sy_world fresh_system)\<lparr>wd_db :=
      \<lparr>databaseConfig = cf_Database (named_config ''echo''), database = Open d\<rparr>\<rparr>) nothing_stored"
    if "su_bolt_open (ref_surroundings ''echo'') (cf_Database (named_config ''echo'')) = Returns d" for d
    using that ref_opened [of "''echo''"] ref_world_holds by (simp add: ref_surroundings_def)
  from launched_server_is_ready [OF l _ ref_read named_config_ok(1,2) b ref_stores.stores_axioms this]
  have r: "\<forall>b. map_of (sy_commands s) (builtin_name b) = Some \<lparr>hub_kind = KindBuiltinCommand, hub_cmd = BuiltinCommand b\<rparr>"
    "\<forall>req c. Check (sy_auth s) req c = Ret (policy (cf_Groups (named_config ''echo'')) req c)"
    by (simp_all add: fresh_system_def)
  note k = r(1) [rule_format, of KillJobCommand]
  show ?thesis
    by (rule exI [of _ s], rule exI [of _ m])
      (use l r(2) k in \<open>auto simp: named_config_def echo_config_def policy_def user_allowed_def channel_error_def zero_request_def\<close>)
qed

theorem shadowed_builtin_disables_all_witness:
  "\<exists>s m. launch ref_bolt ref_codec (ref_surroundings ''help'') ref_args fresh_system = Ret (Returns (Server s m)) \<and>
    map_of (sy_commands s) ''kill'' = None"
proof -
  have "trim_space ''help'' \<noteq> []" by (simp add: trim_space_id edge_byte_def)
  then obtain s m where l: "launch ref_bolt ref_codec (ref_surroundings ''help'') ref_args fresh_system = Ret (Returns (Server s m))"
    using ref_launch by blast
  have "map_of (cf_Commands (named_config ''help'')) (builtin_name HelpCommand) = Some (snd (hd (cf_Commands echo_config)))"
    by (simp add: named_config_ok(3))
  from shadowed_builtin_disables_all [OF l _ ref_read named_config_ok(1,2) this, of "''kill''"] l show ?thesis
    by (simp add: named_config_ok(3) fresh_system_def)
qed

theorem reloads_never_mix_witness:
  "\<exists>s s' cnf. LoadConfiguration (su_bolt_open (ref_surroundings ''echo'')) (named_config ''echo'') fresh_system = (None, s) \<and>
    waitForSignals (reload ref_args) [(SIGHUP, ref_surroundings ''date''), (SIGTERM, ref_surroundings ''date'')] s False =
      (s', False, True) \<and> configured_as cnf s' \<and> cnf \<in> {named_config ''echo'', named_config ''date''}"
proof -
  let ?sigs = "[(SIGHUP, ref_surroundings ''date''), (SIGTERM, ref_surroundings ''date'')]"
  have "trim_space ''echo'' \<noteq> []" by (simp add: trim_space_id edge_byte_def)
  then obtain s where s: "LoadConfiguration (su_bolt_open (ref_surroundings ''echo'')) (named_config ''echo'') fresh_system = (None, s)"
    using ref_load by blast
  have "registry_ok (sy_commands fresh_system)" by (simp add: fresh_system_def registry_ok_def Reset_def)
  note l = loading [OF this named_config_ok(1,2) s]
  have d: "\<forall>(sig, E) \<in> set ?sigs. decodes_maps E"
    using named_config_ok(1,2) by (auto simp: decodes_maps_def ref_surroundings_def)
  obtain s' where w: "waitForSignals (reload ref_args) ?sigs s False = (s', False, True)" by simp
  from reloads_never_mix [OF l(1,2) d w] obtain cnf where "configured_as cnf s'"
    "cnf = named_config ''echo'' \<or> cnf = named_config ''date''"
    by (auto simp: ref_read)
  with s w show ?thesis by blast
qed

end
