(* ===== verification/Admission.thy ===== *)
theory Admission
  imports Cancelling
begin

text \<open>
  What gets into the executor: every task it holds, in the channel or in a goroutine, is the resolution
  of a request that was received, carries the command registered under the resolved name, and passed the
  authorization check with the request it runs on.
\<close>

section \<open>Where a task comes from\<close>

text \<open>
  The request a task was made of: the asking user and the channel are those of the received request, an
  alias replaces the name of the command and puts its arguments in front.
\<close>

definition resolves :: "(string \<rightharpoonup> command commandHub) \<Rightarrow> request \<Rightarrow> task \<Rightarrow> bool" where
  "resolves cmds req t \<longleftrightarrow>
     (\<exists>name args. job_Request (tk_job t) = req\<lparr>req_Command := name, req_Args := args @ req_Args req\<rparr> \<and>
        map_option hub_cmd (cmds name) = Some (tk_cmd t))"

lemma Find_resolves:
  assumes "Find S cmds req w = ((Some c, req'), w')"
  obtains name args where "req' = req\<lparr>req_Command := name, req_Args := args @ req_Args req\<rparr>"
    "map_option hub_cmd (map_of cmds name) = Some c"
proof -
  obtain r w1 where g: "as_Get S (req_UserID req) (req_Command req) w = (r, w1)" by fastforce
  obtain name args where x: "(case r of Inl _ \<Rightarrow> ([], []) | Inr x \<Rightarrow> x) = (name, args)" by fastforce
  show thesis
  proof (cases "map_of cmds name")
    case None
    with assms g x have "req' = req" "map_option hub_cmd (map_of cmds (req_Command req)) = Some c"
      by (auto simp: Find_def)
    with that [where name = "req_Command req" and args = "[]"] show thesis by simp
  next
    case (Some hub)
    with assms g x have "req' = req\<lparr>req_Command := name, req_Args := args @ req_Args req\<rparr>" "c = hub_cmd hub"
      by (auto simp: Find_def)
    with Some that show thesis by simp
  qed
qed

text \<open>Only a request brings in a task.\<close>

lemma step_tasks:
  assumes "exec_step E s ev (Ret s')" and "\<not> is_request ev"
  shows "set (tasks_of s') \<subseteq> set (tasks_of s)"
  using assms(1)
proof cases
  case (began k u)
  then have "map fst (ex_goroutines s') = map fst (ex_goroutines s)" "ex_sending s' = ex_sending s" "ex_queue s' = ex_queue s"
    by (simp_all add: begin_task_conv map_update list_update_same_conv)
  then show ?thesis by (simp add: tasks_of_def)
next
  case (ended k u c ans)
  have "end_task E ans k u s = Ret s'" using ended by simp
  then have g: "ex_goroutines s' = (ex_goroutines s)[k := (u, Releasing)]" "ex_sending s' = ex_sending s" "ex_queue s' = ex_queue s"
    by (cases rule: end_task_cases; simp)+
  have "map fst (ex_goroutines s') = map fst (ex_goroutines s)"
    using ended(3,4) g(1) by (simp add: map_update list_update_same_conv)
  with g(2,3) show ?thesis by (simp add: tasks_of_def)
next
  case (released k u)
  then show ?thesis by (auto simp: tasks_of_def release_task_def dest: in_set_takeD in_set_dropD)
next
  case (remote_log x)
  then show ?thesis by (cases x) (simp_all add: tasks_of_def)
qed (use assms(2) in \<open>auto simp: tasks_of_def split: option.splits\<close>)

context orderly_executor
begin

lemma createTask_request:
  assumes "holds (ew_store w) a" and "cs_MustRecord (getters c) \<Longrightarrow> room (ew_store w)" and "json_request req"
    and "createTask E req c w = (Returns t, w')"
  shows "job_Request (tk_job t) = req \<and> tk_cmd t = c"
proof (cases "cs_MustRecord (getters c)")
  case False
  then obtain j where n: "js_Null (pv_Jobs (xe_services E)) req w = (j, w')" "t = \<lparr>tk_job = j, tk_cmd = c\<rparr>"
    using assms(4) by (auto simp: createTask_def split: prod.splits)
  with job_service.null_job [OF lifted_parts(1) [of "contexts_of w"] _ n(1), of a] assms(1) show ?thesis by auto
next
  case True
  then obtain j where x: "js_Create (pv_Jobs (xe_services E)) req w = (Returns j, w')" "t = \<lparr>tk_job = j, tk_cmd = c\<rparr>"
    using assms(4) by (auto simp: createTask_def split: prod.splits sum.splits)
  with job_service.create_job [OF lifted_parts(1) [of "contexts_of w"], of w a req j w'] assms(1,3) assms(2) [OF True]
  show ?thesis by auto
qed

lemma run_request_resolves:
  assumes "exec_ok E holds s a" and "ex_sending s = None" and "orderly E holds room s (Received req)"
    and "run_request E req s = Ret s'" and "t \<in> set (tasks_of s')"
  shows "t \<in> set (tasks_of s) \<or> resolves (map_of (xe_registry E)) req t"
  using assms(4)
proof (cases rule: run_request_cases)
  case (accepted c req' w u w')
  have "ew_holds holds (contexts_of (ex_world s)) w a"
    by (rule alias_service.find_keeps [OF lifted_parts(3) _ accepted(1)]) (use assms(1) in \<open>simp add: exec_ok_def\<close>)
  moreover from assms(3) accepted(1) have "cs_MustRecord (getters c) \<Longrightarrow> room (ew_store w)" "json_request req'" by simp_all
  ultimately have u: "job_Request (tk_job u) = req'" "tk_cmd u = c"
    using createTask_request [OF _ _ _ accepted(3)] by auto
  have "resolves (map_of (xe_registry E)) req u"
    using Find_resolves [OF accepted(1)] u unfolding resolves_def by metis
  then show ?thesis using assms(2,5) accepted(4) by (auto simp: tasks_of_def)
qed (use assms(5) in \<open>simp add: tasks_of_def\<close>)

lemma step_resolves:
  assumes "exec_ok E holds s a" and "exec_step E s ev (Ret s')" and "orderly E holds room s ev" and "t \<in> set (tasks_of s')"
  shows "t \<in> set (tasks_of s) \<or> (\<exists>req. ev = Received req \<and> resolves (map_of (xe_registry E)) req t)"
proof (cases "is_request ev")
  case False
  with step_tasks [OF assms(2)] assms(4) show ?thesis by blast
next
  case True
  then obtain req where ev: "ev = Received req" by (cases ev) auto
  from assms(2) [unfolded ev] have "ex_sending s = None" "run_request E req s = Ret s'" by (auto elim: exec_stepE)
  from run_request_resolves [OF assms(1) this(1) _ this(2) assms(4)] assms(3) ev show ?thesis by blast
qed

lemma trace_resolves:
  "exec_trace E (orderly E holds room) (New_executor v) evs s \<Longrightarrow> holds v a \<Longrightarrow> t \<in> set (tasks_of s) \<Longrightarrow>
   \<exists>req. Received req \<in> set evs \<and> resolves (map_of (xe_registry E)) req t"
proof (induction rule: exec_trace.induct)
  case no_step
  then show ?case by (simp add: tasks_of_def)
next
  case (one_more evs s' ev s'')
  obtain a' where ok: "exec_ok E holds s' a'" using trace_ok [OF one_more.hyps(1) one_more.prems(1)] by blast
  from step_resolves [OF ok one_more.hyps(2,3) one_more.prems(2)] one_more show ?case by auto
qed

end

section \<open>Properties\<close>

text \<open>
  Only what a user may run is run. In every state an orderly run of the executor reaches, whatever the
  interleaving, each goroutine works on a request that was received, with the same user and the same
  channel, resolved through at most one alias; it runs the command registered under the resolved name; and
  the policy of the configured groups lets that user run that command in that channel.
\<close>

theorem only_allowed_commands_run:
  assumes "services (xe_providers E) holds room" and "configured (xe_auth E) cfg" and "holds v a"
    and "exec_trace E (orderly E holds room) (New_executor v) evs s" and "(t, ph) \<in> set (ex_goroutines s)"
  shows "policy cfg (job_Request (tk_job t)) (authorization_of (tk_cmd t)) = None \<and>
    (\<exists>req name args hub. Received req \<in> set evs \<and>
      job_Request (tk_job t) = req\<lparr>req_Command := name, req_Args := args @ req_Args req\<rparr> \<and>
      map_of (xe_registry E) name = Some hub \<and> tk_cmd t = hub_cmd hub)"
proof -
  have loc: "orderly_executor E holds room" using assms(1) by (simp add: orderly_executor_def)
  have t: "t \<in> set (tasks_of s)" using assms(5) by (force simp: tasks_of_def)
  obtain a' where "exec_ok E holds s a'" using orderly_executor.trace_ok [OF loc assms(4,3)] by blast
  then have "Check (xe_auth E) (job_Request (tk_job t)) (authorization_of (tk_cmd t)) = Ret None"
    using t by (simp add: exec_ok_def task_ok_def)
  then have "policy cfg (job_Request (tk_job t)) (authorization_of (tk_cmd t)) = None"
    by (simp add: Check_policy [OF assms(2)])
  with orderly_executor.trace_resolves [OF loc assms(4,3) t] show ?thesis
    unfolding resolves_def by fastforce
qed

theorem only_allowed_commands_run_witness:
  "\<exists>evs s t. exec_trace ref_executor ref_orderly (New_executor ref_world) evs s \<and>
    (t, RunningIn 0) \<in> set (ex_goroutines s) \<and>
    policy [(''admin'', [''root''])] (job_Request (tk_job t)) (authorization_of (tk_cmd t)) = None"
proof (rule ref_sleeping)
  fix s t a
  assume s: "exec_trace ref_executor ref_orderly (New_executor ref_world) [Received sleep_request, TaskCounted, TaskSent, TaskTaken, Began 0] s"
    "ex_goroutines s = [(t, RunningIn 0)]"
  have cfg: "configured (xe_auth ref_executor) [(''admin'', [''root''])]" by (simp add: Configure_configured)
  have sv: "services (xe_providers ref_executor) ref_holds (job_room ref_view)" using ref_env_services by simp
  have m: "(t, RunningIn 0) \<in> set (ex_goroutines s)" using s(2) by simp
  from only_allowed_commands_run [OF sv cfg ref_world_holds s(1) m] s(1) m show ?thesis by blast
qed

end
