(* ===== verification/Server.thy ===== *)
theory Server
  imports Launch Admission
begin

text \<open>
  A running server (\<^verbatim>\<open>launch\<close> and \<^verbatim>\<open>waitForSignals\<close> of \<^verbatim>\<open>main.go\<close>): the chat listener, the handlers of the HTTP API, the
  executor, the agents that come and go, the signals, and the shutdown in its order, interleaved. The
  executor takes its steps with the commands, the groups and the replies that are in force at the
  moment of the step. What is proved here holds whatever the stores and the outside do.
\<close>

section \<open>The state\<close>

record 'db server_env =
  sn_bolt :: "'db bolt"
  sn_codec :: codec
  sn_args :: args
  sn_slack :: slack_api
  sn_engine :: template_engine
  sn_humanize :: "time \<Rightarrow> string"
  sn_version :: "string \<times> string \<times> string \<times> string"

text \<open>
  Where the shutdown stands: waiting for the executor; the wait has returned and the channel is to be closed; the
  channel is closed and the HTTP server still takes posts; it takes none and waits for its handlers; the
  remote server is stopped; the process has ended.
\<close>

datatype stage = Serving | Draining | ClosingTasks | ClosingHTTP | AwaitingHandlers | StoppingRemote | Exited

text \<open>
  \<open>sr_chat\<close> is the request that the chat listener sends, \<open>sr_api\<close> those of the handlers of posts that wait until theirs is
  taken; \<open>sr_taken\<close> is the request that \<open>Run\<close> has taken and not handled yet; \<open>sr_posts\<close> is what was posted to the chat. The world of the stores is that of the executor.
\<close>

record 'db server =
  sr_commands :: "command registry"
  sr_auth :: auth_state
  sr_formatter :: formatter
  sr_debug :: bool
  sr_matcher :: messageMatcher
  sr_chat :: "request option"
  sr_api :: "request list"
  sr_taken :: "request option"
  sr_executor :: "'db world executor"
  sr_posts :: "post list"
  sr_stage :: stage

abbreviation store_of :: "'db server \<Rightarrow> 'db world" where
  "store_of s \<equiv> ew_store (ex_world (sr_executor s))"

definition with_store :: "'db world \<Rightarrow> 'db server \<Rightarrow> 'db server" where
  "with_store w s = s\<lparr>sr_executor := (sr_executor s)\<lparr>ex_world := (ex_world (sr_executor s))\<lparr>ew_store := w\<rparr>\<rparr>\<rparr>"

text \<open>The packages that a configuration sets up, read from the state and written back.\<close>

definition system_of :: "'db server \<Rightarrow> 'db system" where
  "system_of s = \<lparr>sy_world = store_of s, sy_commands = sr_commands s, sy_auth = sr_auth s, sy_formatter = Some (sr_formatter s)\<rparr>"

definition with_system :: "'db system \<Rightarrow> 'db server \<Rightarrow> 'db server" where
  "with_system y s =
     (with_store (sy_world y) s)
       \<lparr>sr_commands := sy_commands y, sr_auth := sy_auth y,
        sr_formatter := (case sy_formatter y of Some f \<Rightarrow> f | None \<Rightarrow> sr_formatter s)\<rparr>"

text \<open>The executor that \<^verbatim>\<open>launch\<close> makes holds twenty tasks in its channel.\<close>

definition executor_env_of :: "'db server_env \<Rightarrow> 'db server \<Rightarrow> 'db world executor_env" where
  "executor_env_of N s =
     \<lparr>xe_providers = local_providers (sn_bolt N) (sn_codec N), xe_registry = sr_commands s, xe_auth = sr_auth s,
      xe_humanize = sn_humanize N, xe_version = sn_version N, xe_formatter = sr_formatter s, xe_capacity = 20\<rparr>"

definition slack_env_of :: "'db server_env \<Rightarrow> 'db server \<Rightarrow> slack_env" where
  "slack_env_of N s =
     \<lparr>se_api = sn_slack N, se_auth = sr_auth s, se_formatter = sr_formatter s, se_engine = sn_engine N\<rparr>"

text \<open>The server that a launch leaves.\<close>

definition server_start :: "args \<Rightarrow> 'db system \<Rightarrow> messageMatcher \<Rightarrow> 'db server" where
  "server_start a y m =
     \<lparr>sr_commands = sy_commands y, sr_auth = sy_auth y,
      sr_formatter = (case sy_formatter y of Some f \<Rightarrow> f | None \<Rightarrow> Configure_formatter (cf_Format default_config)),
      sr_debug = configureLogger a, sr_matcher = m, sr_chat = None, sr_api = [], sr_taken = None, sr_executor = New_executor (sy_world y),
      sr_posts = [], sr_stage = Serving\<rparr>"

text \<open>
  The main function up to its wait for signals: a process is a server or an agent, or it has ended with a message.
\<close>

datatype 'db process = ServerProcess "'db server" | AgentProcess "'db system" agent_loop

definition main :: "'db server_env \<Rightarrow> 'db surroundings \<Rightarrow> 'db system \<Rightarrow> 'db process run" where
  "main N F sys =
     (case launch (sn_bolt N) (sn_codec N) F (sn_args N) sys of
        Panic p \<Rightarrow> Panic p
      | Ret (Inl e) \<Rightarrow> Panic (''could not launch meeseeks-box: '' @ err_text e)
      | Ret (Inr (Server y m)) \<Rightarrow> Ret (ServerProcess (server_start (sn_args N) y m))
      | Ret (Inr (AgentOf y l)) \<Rightarrow> Ret (AgentProcess y l))"

lemma main_serves:
  assumes "main N F sys = Ret (ServerProcess s)"
  obtains y m where "launch (sn_bolt N) (sn_codec N) F (sn_args N) sys = Ret (Returns (Server y m))"
    "s = server_start (sn_args N) y m"
  using assms by (auto simp: main_def split: run.splits sum.splits launched.splits)

section \<open>The steps\<close>

text \<open>What the chat listener does with an event.\<close>

definition chat_effects :: "slack_effect list \<Rightarrow> messageMatcher \<Rightarrow> 'db server \<Rightarrow> 'db server" where
  "chat_effects fx m s =
     s\<lparr>sr_matcher := m, sr_posts := sr_posts s @ [p. Posts p \<leftarrow> fx],
       sr_chat := (case [r. Sends r \<leftarrow> fx] of [] \<Rightarrow> None | r # _ \<Rightarrow> Some r)\<rparr>"

definition chat_event :: "'db server_env \<Rightarrow> slack_event \<Rightarrow> 'db server \<Rightarrow> 'db server run" where
  "chat_event N ev s =
     (case handle_event (slack_env_of N s) ev (sr_matcher s) of
        (Panic p, m) \<Rightarrow> Panic p
      | (Ret fx, m) \<Rightarrow> Ret (chat_effects fx m s))"

text \<open>A handler that panics ends alone: the HTTP library recovers it.\<close>

definition api_post :: "'db server_env \<Rightarrow> string \<Rightarrow> string \<Rightarrow> 'db server \<Rightarrow> 'db server" where
  "api_post N tokenID message s =
     (case HandlePostToken (local_tokens (sn_bolt N) (sn_codec N)) (slack_enricher (sn_slack N)) tokenID message (store_of s) of
        (Ret (resp, Some req), w) \<Rightarrow> (with_store w s)\<lparr>sr_api := sr_api s @ [req]\<rparr>
      | (_, w) \<Rightarrow> with_store w s)"

text \<open>The replies of a step of the executor go to the chat.\<close>

fun post_replies :: "template_engine \<Rightarrow> reply list \<Rightarrow> post list run" where
  "post_replies T [] = Ret []"
| "post_replies T (r # rs) =
     (case client_Reply T r of
        Panic m \<Rightarrow> Panic m
      | Ret ps \<Rightarrow> (case post_replies T rs of Panic m \<Rightarrow> Panic m | Ret qs \<Rightarrow> Ret (ps @ qs)))"

definition after_exec :: "'db server_env \<Rightarrow> 'db server \<Rightarrow> 'db world executor run \<Rightarrow> 'db server run" where
  "after_exec N s r =
     (case r of
        Panic m \<Rightarrow> Panic m
      | Ret x \<Rightarrow>
          (case post_replies (sn_engine N) (drop (length (ex_replies (sr_executor s))) (ex_replies x)) of
             Panic m \<Rightarrow> Panic m
           | Ret ps \<Rightarrow> Ret (s\<lparr>sr_executor := x, sr_posts := sr_posts s @ ps\<rparr>)))"

text \<open>A signal, while the main goroutine waits for one.\<close>

definition handle_signal :: "'db server_env \<Rightarrow> signal \<Rightarrow> 'db surroundings \<Rightarrow> 'db server \<Rightarrow> 'db server" where
  "handle_signal N sig F s =
     (case sig of
        SIGHUP \<Rightarrow> with_system (reload (sn_args N) F (system_of s)) s
      | SIGUSR1 \<Rightarrow> s\<lparr>sr_debug := toggleDebugLogging (sr_debug s)\<rparr>
      | SIGINT \<Rightarrow> s\<lparr>sr_stage := Draining\<rparr>
      | SIGTERM \<Rightarrow> s\<lparr>sr_stage := Draining\<rparr>)"

datatype 'db server_event =
    Chat slack_event | ApiPost string string | FromChat request | FromApi nat request | Exec exec_event
  | Signal signal "'db surroundings" | AgentJoins agent_configuration | AgentLeaves agent_configuration
  | HTTPStopsListening | HandlersDone | RemoteStopped

text \<open>
  \<open>Run\<close> takes the request of the chat listener or of one of the waiting handlers when it has none in hand, and handles
  it in a later step, with the commands, groups and replies of that moment. Nobody stops it or the listeners. \<open>Shutdown\<close> of
  the executor is called after a signal to end: its wait returns, then it closes the channel. The HTTP server is
  shut down when that has returned (it stops listening, then waits for the handlers), and then the remote server.
\<close>

inductive server_step :: "'db server_env \<Rightarrow> 'db server \<Rightarrow> 'db server_event \<Rightarrow> 'db server run \<Rightarrow> bool" for N where
  chat: "sr_stage s \<noteq> Exited \<Longrightarrow> sr_chat s = None \<Longrightarrow> server_step N s (Chat ev) (chat_event N ev s)"
| api: "sr_stage s \<in> {Serving, Draining, ClosingTasks, ClosingHTTP} \<Longrightarrow>
    server_step N s (ApiPost tokenID message) (Ret (api_post N tokenID message s))"
| from_chat: "sr_stage s \<noteq> Exited \<Longrightarrow> sr_taken s = None \<Longrightarrow> ex_sending (sr_executor s) = None \<Longrightarrow> sr_chat s = Some req \<Longrightarrow>
    server_step N s (FromChat req) (Ret (s\<lparr>sr_chat := None, sr_taken := Some req\<rparr>))"
| from_api: "sr_stage s \<noteq> Exited \<Longrightarrow> sr_taken s = None \<Longrightarrow> ex_sending (sr_executor s) = None \<Longrightarrow>
    k < length (sr_api s) \<Longrightarrow> sr_api s ! k = req \<Longrightarrow>
    server_step N s (FromApi k req) (Ret (s\<lparr>sr_api := take k (sr_api s) @ drop (Suc k) (sr_api s), sr_taken := Some req\<rparr>))"
| handled: "sr_stage s \<noteq> Exited \<Longrightarrow> sr_taken s = Some req \<Longrightarrow>
    exec_step (executor_env_of N s) (sr_executor s) (Received req) r \<Longrightarrow>
    server_step N s (Exec (Received req)) (after_exec N (s\<lparr>sr_taken := None\<rparr>) r)"
| exec: "sr_stage s \<noteq> Exited \<Longrightarrow> \<not> is_request ev \<Longrightarrow> ev \<notin> {WaitReturned, ShutDown} \<Longrightarrow>
    exec_step (executor_env_of N s) (sr_executor s) ev r \<Longrightarrow> server_step N s (Exec ev) (after_exec N s r)"
| wait_returned: "sr_stage s = Draining \<Longrightarrow> exec_step (executor_env_of N s) (sr_executor s) WaitReturned r \<Longrightarrow>
    server_step N s (Exec WaitReturned) (after_exec N (s\<lparr>sr_stage := ClosingTasks\<rparr>) r)"
| shut_down: "sr_stage s = ClosingTasks \<Longrightarrow> exec_step (executor_env_of N s) (sr_executor s) ShutDown r \<Longrightarrow>
    server_step N s (Exec ShutDown) (after_exec N (s\<lparr>sr_stage := ClosingHTTP\<rparr>) r)"
| signalled: "sr_stage s = Serving \<Longrightarrow> server_step N s (Signal sig F) (Ret (handle_signal N sig F s))"
| agent_joins: "sr_stage s \<noteq> Exited \<Longrightarrow> ar_GRPCServerEnabled (sn_args N) \<Longrightarrow>
    server_step N s (AgentJoins ac) (Ret (s\<lparr>sr_commands := snd (registerAgent ac (sr_commands s))\<rparr>))"
| agent_leaves: "sr_stage s \<noteq> Exited \<Longrightarrow> ar_GRPCServerEnabled (sn_args N) \<Longrightarrow>
    server_step N s (AgentLeaves ac) (Ret (s\<lparr>sr_commands := deRegisterAgentCommands ac (sr_commands s)\<rparr>))"
| http_stops: "sr_stage s = ClosingHTTP \<Longrightarrow> server_step N s HTTPStopsListening (Ret (s\<lparr>sr_stage := AwaitingHandlers\<rparr>))"
| handlers_done: "sr_stage s = AwaitingHandlers \<Longrightarrow> sr_api s = [] \<Longrightarrow>
    server_step N s HandlersDone (Ret (s\<lparr>sr_stage := StoppingRemote\<rparr>))"
| remote_stopped: "sr_stage s = StoppingRemote \<Longrightarrow> server_step N s RemoteStopped (Ret (s\<lparr>sr_stage := Exited\<rparr>))"

inductive server_run :: "'db server_env \<Rightarrow> 'db server \<Rightarrow> 'db server_event list \<Rightarrow> 'db server \<Rightarrow> bool" for N s0 where
  no_step: "server_run N s0 [] s0"
| one_more: "server_run N s0 evs s \<Longrightarrow> server_step N s ev (Ret s') \<Longrightarrow> server_run N s0 (evs @ [ev]) s'"

inductive_cases server_stepE: "server_step N s ev r"

section \<open>What the steps leave alone\<close>

lemma with_store_simps [simp]:
  "sr_commands (with_store w s) = sr_commands s" "sr_auth (with_store w s) = sr_auth s"
  "sr_formatter (with_store w s) = sr_formatter s" "sr_matcher (with_store w s) = sr_matcher s"
  "sr_chat (with_store w s) = sr_chat s" "sr_api (with_store w s) = sr_api s" "sr_posts (with_store w s) = sr_posts s"
  "sr_stage (with_store w s) = sr_stage s" "store_of (with_store w s) = w"
  "ex_sending (sr_executor (with_store w s)) = ex_sending (sr_executor s)"
  "ex_queue (sr_executor (with_store w s)) = ex_queue (sr_executor s)"
  "ex_goroutines (sr_executor (with_store w s)) = ex_goroutines (sr_executor s)"
  "ex_wg (sr_executor (with_store w s)) = ex_wg (sr_executor s)"
  "ex_replies (sr_executor (with_store w s)) = ex_replies (sr_executor s)"
  "ex_closed (sr_executor (with_store w s)) = ex_closed (sr_executor s)"
  "ex_waited (sr_executor (with_store w s)) = ex_waited (sr_executor s)"
  "ex_counted (sr_executor (with_store w s)) = ex_counted (sr_executor s)" "sr_taken (with_store w s) = sr_taken s"
  by (simp_all add: with_store_def)

lemma with_system_simps [simp]:
  "sr_commands (with_system y s) = sy_commands y" "sr_auth (with_system y s) = sy_auth y"
  "sr_matcher (with_system y s) = sr_matcher s" "sr_chat (with_system y s) = sr_chat s" "sr_api (with_system y s) = sr_api s"
  "sr_taken (with_system y s) = sr_taken s" "sr_posts (with_system y s) = sr_posts s" "sr_stage (with_system y s) = sr_stage s"
  "sr_executor (with_system y s) = sr_executor (with_store (sy_world y) s)"
  by (simp_all add: with_system_def)

lemma server_start_simps [simp]:
  "sr_taken (server_start a y m) = None" "sr_chat (server_start a y m) = None" "sr_api (server_start a y m) = []" "sr_posts (server_start a y m) = []"
  "sr_stage (server_start a y m) = Serving" "sr_matcher (server_start a y m) = m"
  "sr_executor (server_start a y m) = New_executor (sy_world y)"
  by (simp_all add: server_start_def)

lemma executor_env_simps [simp]:
  "xe_providers (executor_env_of N s) = local_providers (sn_bolt N) (sn_codec N)" "xe_registry (executor_env_of N s) = sr_commands s"
  "xe_auth (executor_env_of N s) = sr_auth s"
  by (simp_all add: executor_env_of_def)

lemma slack_env_simps [simp]: "se_api (slack_env_of N s) = sn_slack N" "se_auth (slack_env_of N s) = sr_auth s"
  by (simp_all add: slack_env_of_def)

lemma after_exec_Ret:
  assumes "after_exec N s r = Ret s'"
  obtains x ps where "r = Ret x" "post_replies (sn_engine N) (drop (length (ex_replies (sr_executor s))) (ex_replies x)) = Ret ps"
    "s' = s\<lparr>sr_executor := x, sr_posts := sr_posts s @ ps\<rparr>"
  using assms by (auto simp: after_exec_def split: run.splits)

text \<open>The steps of the server, by what they do to the executor.\<close>

lemma server_step_cases:
  assumes "server_step N s ev (Ret s')"
  obtains (executor) xev x ps where "exec_step (executor_env_of N s) (sr_executor s) xev (Ret x)" "sr_executor s' = x"
      "post_replies (sn_engine N) (drop (length (ex_replies (sr_executor s))) (ex_replies x)) = Ret ps"
      "sr_posts s' = sr_posts s @ ps" "sr_commands s' = sr_commands s" "sr_auth s' = sr_auth s" "sr_formatter s' = sr_formatter s"
      "sr_matcher s' = sr_matcher s" "sr_chat s' = sr_chat s" "sr_api s' = sr_api s" "ev = Exec xev"
      "(\<exists>req. xev = Received req \<and> sr_taken s = Some req \<and> sr_taken s' = None) \<or> \<not> is_request xev \<and> sr_taken s' = sr_taken s"
      "sr_stage s' = (if xev = WaitReturned then ClosingTasks else if xev = ShutDown then ClosingHTTP else sr_stage s)"
      "xev = WaitReturned \<Longrightarrow> sr_stage s = Draining" "xev = ShutDown \<Longrightarrow> sr_stage s = ClosingTasks" "sr_stage s \<noteq> Exited"
  | (taking) req c rest where "s' = s\<lparr>sr_chat := c, sr_api := rest, sr_taken := Some req\<rparr>"
      "ev = FromChat req \<and> sr_chat s = Some req \<and> c = None \<and> rest = sr_api s \<or>
        (\<exists>k. ev = FromApi k req \<and> k < length (sr_api s) \<and> sr_api s ! k = req \<and>
           rest = take k (sr_api s) @ drop (Suc k) (sr_api s) \<and> c = sr_chat s)"
      "sr_taken s = None" "ex_sending (sr_executor s) = None" "sr_stage s \<noteq> Exited"
  | (chat_listener) sev fx m where "ev = Chat sev" "handle_event (slack_env_of N s) sev (sr_matcher s) = (Ret fx, m)"
      "s' = chat_effects fx m s" "sr_chat s = None" "sr_stage s \<noteq> Exited"
  | (post) tokenID message where "ev = ApiPost tokenID message" "s' = api_post N tokenID message s"
      "sr_stage s \<in> {Serving, Draining, ClosingTasks, ClosingHTTP}"
  | (signal) sig F where "ev = Signal sig F" "s' = handle_signal N sig F s" "sr_stage s = Serving"
  | (agent) cmds where "s' = s\<lparr>sr_commands := cmds\<rparr>"
      "\<exists>ac. ev = AgentJoins ac \<and> cmds = snd (registerAgent ac (sr_commands s)) \<or>
        ev = AgentLeaves ac \<and> cmds = deRegisterAgentCommands ac (sr_commands s)"
  | (stopping) st where "s' = s\<lparr>sr_stage := st\<rparr>"
      "(sr_stage s, st) \<in> {(ClosingHTTP, AwaitingHandlers), (AwaitingHandlers, StoppingRemote), (StoppingRemote, Exited)}"
      "st = StoppingRemote \<Longrightarrow> sr_api s = []" "ev \<in> {HTTPStopsListening, HandlersDone, RemoteStopped}"
  using assms
proof cases
  case (chat sev)
  from chat(2) obtain fx m where "handle_event (slack_env_of N s) sev (sr_matcher s) = (Ret fx, m)" "s' = chat_effects fx m s"
    by (auto simp: chat_event_def split: prod.splits run.splits)
  with chat show thesis by (intro chat_listener) auto
next
  case (api tokenID message)
  then show thesis by (intro post) auto
next
  case (from_chat req)
  then show thesis by (intro taking [where c = None and rest = "sr_api s"]) auto
next
  case (from_api k req)
  then show thesis by (intro taking [where c = "sr_chat s" and rest = "take k (sr_api s) @ drop (Suc k) (sr_api s)"]) auto
next
  case (handled req r)
  from handled(2) [symmetric] show thesis
    by (rule after_exec_Ret) (rule executor [of "Received req"], use handled in auto)
next
  case (exec xev r)
  from exec(2) [symmetric] show thesis
    by (rule after_exec_Ret) (rule executor [of xev], use exec in auto)
next
  case (wait_returned r)
  from wait_returned(2) [symmetric] show thesis
    by (rule after_exec_Ret) (rule executor [of WaitReturned], use wait_returned in auto)
next
  case (shut_down r)
  from shut_down(2) [symmetric] show thesis
    by (rule after_exec_Ret) (rule executor [of ShutDown], use shut_down in auto)
next
  case (signalled sig F)
  then show thesis by (intro signal) auto
next
  case (agent_joins ac)
  then show thesis by (intro agent [of "snd (registerAgent ac (sr_commands s))"]) auto
next
  case (agent_leaves ac)
  then show thesis by (intro agent [of "deRegisterAgentCommands ac (sr_commands s)"]) auto
next
  case http_stops
  then show thesis by (intro stopping [of AwaitingHandlers]) auto
next
  case handlers_done
  then show thesis by (intro stopping [of StoppingRemote]) auto
next
  case remote_stopped
  then show thesis by (intro stopping [of Exited]) auto
qed

section \<open>Who asked\<close>

text \<open>
  An event asks for a request: a message meant for the bot, whose text parses to the command and its arguments; or a
  post with a token that is stored at that moment.
\<close>

fun asks :: "'db server_env \<Rightarrow> 'db server \<Rightarrow> 'db server_event \<Rightarrow> request \<Rightarrow> bool" where
  "asks N s (Chat (MessageEvent x)) req \<longleftrightarrow>
     (\<exists>t. (ar_StealthMode (sn_args N) \<longrightarrow> \<not> ignored_in_stealth (slack_env_of N s) x) \<and>
        addressed (sl_botID (sn_slack N)) x = Some t \<and> Parse t = Returns (req_Command req # req_Args req) \<and>
        req_UserID req = ev_User x \<and> req_Username req = getUser (sn_slack N) (ev_User x) \<and>
        req_ChannelID req = ev_Channel x \<and> req_IsIM req = isIMChannel (ev_Channel x))"
| "asks N s (ApiPost tokenID message) req \<longleftrightarrow>
     (\<exists>t w. tokenID \<noteq> [] \<and> ts_Get (local_tokens (sn_bolt N) (sn_codec N)) tokenID (store_of s) = (Returns t, w) \<and>
        ParseUserLink (tok_UserLink t) = Returns (req_UserID req) \<and>
        ParseChannelLink (tok_ChannelLink t) = Returns (req_ChannelID req) \<and>
        req_Username req = getUser (sn_slack N) (req_UserID req) \<and>
        Parse (tok_Text t @ '' '' @ message) = Returns (req_Command req # req_Args req))"
| "asks N s _ req \<longleftrightarrow> False"

definition asked :: "'db server_env \<Rightarrow> 'db server \<Rightarrow> 'db server_event list \<Rightarrow> request \<Rightarrow> bool" where
  "asked N s0 evs req \<longleftrightarrow> (\<exists>e0 ev e1 s. evs = e0 @ ev # e1 \<and> server_run N s0 e0 s \<and> asks N s ev req)"

lemma asked_later: "asked N s0 evs req \<Longrightarrow> asked N s0 (evs @ evs2) req"
  unfolding asked_def by fastforce

lemma asked_now: "server_run N s0 evs s \<Longrightarrow> asks N s ev req \<Longrightarrow> asked N s0 (evs @ [ev]) req"
  unfolding asked_def by blast

lemma matcher_of_env: "se_api E = se_api E' \<Longrightarrow> matcher_of E stealth m = matcher_of E' stealth m"
  by (simp add: matcher_of_def)

lemma api_post_sends:
  assumes "req \<in> set (sr_api (api_post N tokenID message s))"
  shows "req \<in> set (sr_api s) \<or> asks N s (ApiPost tokenID message) req"
  using assms
  by (auto simp: api_post_def HandlePostToken_def sendMessage_def slack_enricher_def
      split: prod.splits run.splits option.splits sum.splits list.splits if_splits)

lemma chat_effects_sends:
  "sr_chat (chat_effects fx m s) = Some req \<Longrightarrow> Sends req \<in> set fx"
proof -
  assume a: "sr_chat (chat_effects fx m s) = Some req"
  then have "req \<in> set [r. Sends r \<leftarrow> fx]"
    by (cases "[r. Sends r \<leftarrow> fx]") (auto simp: chat_effects_def)
  then show ?thesis by (auto split: slack_effect.splits)
qed

lemma chat_effects_simps [simp]:
  "sr_taken (chat_effects fx m s) = sr_taken s" "sr_api (chat_effects fx m s) = sr_api s" "sr_matcher (chat_effects fx m s) = m"
  "sr_executor (chat_effects fx m s) = sr_executor s" "sr_commands (chat_effects fx m s) = sr_commands s"
  "sr_auth (chat_effects fx m s) = sr_auth s" "sr_formatter (chat_effects fx m s) = sr_formatter s"
  "sr_stage (chat_effects fx m s) = sr_stage s"
  by (simp_all add: chat_effects_def)

lemma api_post_simps [simp]:
  "sr_chat (api_post N i msg s) = sr_chat s" "sr_matcher (api_post N i msg s) = sr_matcher s"
  "sr_commands (api_post N i msg s) = sr_commands s" "sr_auth (api_post N i msg s) = sr_auth s"
  "sr_formatter (api_post N i msg s) = sr_formatter s" "sr_stage (api_post N i msg s) = sr_stage s"
  "sr_posts (api_post N i msg s) = sr_posts s"
  "ex_sending (sr_executor (api_post N i msg s)) = ex_sending (sr_executor s)"
  "ex_queue (sr_executor (api_post N i msg s)) = ex_queue (sr_executor s)"
  "ex_goroutines (sr_executor (api_post N i msg s)) = ex_goroutines (sr_executor s)"
  "ex_wg (sr_executor (api_post N i msg s)) = ex_wg (sr_executor s)"
  "ex_replies (sr_executor (api_post N i msg s)) = ex_replies (sr_executor s)"
  "ex_closed (sr_executor (api_post N i msg s)) = ex_closed (sr_executor s)"
  "ex_waited (sr_executor (api_post N i msg s)) = ex_waited (sr_executor s)"
  "ex_counted (sr_executor (api_post N i msg s)) = ex_counted (sr_executor s)" "sr_taken (api_post N i msg s) = sr_taken s"
  by (auto simp: api_post_def split: prod.split run.split option.split)

lemma handle_signal_simps [simp]:
  "sr_chat (handle_signal N sig F s) = sr_chat s" "sr_api (handle_signal N sig F s) = sr_api s"
  "sr_matcher (handle_signal N sig F s) = sr_matcher s" "sr_posts (handle_signal N sig F s) = sr_posts s"
  "ex_sending (sr_executor (handle_signal N sig F s)) = ex_sending (sr_executor s)"
  "ex_queue (sr_executor (handle_signal N sig F s)) = ex_queue (sr_executor s)"
  "ex_goroutines (sr_executor (handle_signal N sig F s)) = ex_goroutines (sr_executor s)"
  "ex_wg (sr_executor (handle_signal N sig F s)) = ex_wg (sr_executor s)"
  "ex_replies (sr_executor (handle_signal N sig F s)) = ex_replies (sr_executor s)"
  "ex_closed (sr_executor (handle_signal N sig F s)) = ex_closed (sr_executor s)"
  "ex_waited (sr_executor (handle_signal N sig F s)) = ex_waited (sr_executor s)"
  "ex_counted (sr_executor (handle_signal N sig F s)) = ex_counted (sr_executor s)"
  "sr_taken (handle_signal N sig F s) = sr_taken s"
  by (auto simp: handle_signal_def split: signal.split)

lemma run_matcher:
  "server_run N s0 evs s \<Longrightarrow> matcher_of (slack_env_of N s0) stealth (sr_matcher s0) \<Longrightarrow>
   matcher_of (slack_env_of N s) stealth (sr_matcher s)"
proof (induction rule: server_run.induct)
  case (one_more evs s ev s')
  have env: "matcher_of (slack_env_of N u) stealth x = matcher_of (slack_env_of N s) stealth x" for u x
    by (rule matcher_of_env) simp
  from one_more.hyps(2) show ?case
  proof (cases rule: server_step_cases)
    case (chat_listener sev fx m)
    with handle_event_matcher [OF one_more.IH [OF one_more.prems], of sev] env [of s'] show ?thesis by simp
  qed (use one_more.IH [OF one_more.prems] env [of s'] in simp_all)
qed simp

text \<open>Every request that waits to be taken was asked for, and so was the one in hand before it was taken.\<close>

fun taken :: "'db server_event \<Rightarrow> request option" where
  "taken (FromChat req) = Some req"
| "taken (FromApi k req) = Some req"
| "taken _ = None"

definition taken_after_asked :: "'db server_env \<Rightarrow> 'db server \<Rightarrow> 'db server_event list \<Rightarrow> request \<Rightarrow> bool" where
  "taken_after_asked N s0 evs req \<longleftrightarrow> (\<exists>e0 ev e1. evs = e0 @ ev # e1 \<and> taken ev = Some req \<and> asked N s0 e0 req)"

lemma taken_later: "taken_after_asked N s0 evs req \<Longrightarrow> taken_after_asked N s0 (evs @ evs2) req"
  unfolding taken_after_asked_def by fastforce

lemma taken_asked: "taken_after_asked N s0 evs req \<Longrightarrow> asked N s0 evs req"
  unfolding taken_after_asked_def using asked_later by blast

lemma pending_asked:
  assumes "server_run N s0 evs s" and "sr_chat s0 = None" and "sr_api s0 = []" and "sr_taken s0 = None"
    and "matcher_of (slack_env_of N s0) (ar_StealthMode (sn_args N)) (sr_matcher s0)"
  shows "(\<forall>req. sr_chat s = Some req \<longrightarrow> asked N s0 evs req) \<and> (\<forall>req \<in> set (sr_api s). asked N s0 evs req) \<and>
    (\<forall>req. sr_taken s = Some req \<longrightarrow> taken_after_asked N s0 evs req)"
  using assms
proof (induction rule: server_run.induct)
  case (one_more evs s ev s')
  note IH = one_more.IH [OF one_more.prems]
  have later: "asked N s0 (evs @ [ev]) req" if "sr_chat s = Some req \<or> req \<in> set (sr_api s)" for req
    using IH that asked_later by blast
  have hand: "taken_after_asked N s0 (evs @ [ev]) req" if "sr_taken s = Some req" for req
    using IH that taken_later by blast
  from one_more.hyps(2) show ?case
  proof (cases rule: server_step_cases)
    case (executor xev x ps)
    then have "sr_taken s' = Some req \<Longrightarrow> sr_taken s = Some req" for req by auto
    with later hand executor(9,10) show ?thesis by simp
  next
    case (taking req c rest)
    then have "asked N s0 evs req" "taken ev = Some req" using IH by fastforce+
    then have "taken_after_asked N s0 (evs @ [ev]) req" unfolding taken_after_asked_def by blast
    moreover have "set rest \<subseteq> set (sr_api s)" "c = Some r \<Longrightarrow> sr_chat s = Some r" for r
      using taking(2) by (auto dest: in_set_takeD in_set_dropD)
    ultimately show ?thesis using taking(1) later by auto
  next
    case (chat_listener sev fx m)
    have "asks N s ev req" if "sr_chat s' = Some req" for req
    proof -
      have "Sends req \<in> set fx" using chat_effects_sends that chat_listener(3) by blast
      with handle_event_Sends [OF run_matcher [OF one_more.hyps(1) one_more.prems(4)], of sev fx req] chat_listener(1,2)
      show ?thesis by fastforce
    qed
    with asked_now [OF one_more.hyps(1)] later hand chat_listener(3) show ?thesis by auto
  next
    case (post tokenID message)
    with api_post_sends [of _ N tokenID message s] asked_now [OF one_more.hyps(1)] later hand show ?thesis
      by (metis api_post_simps(1) api_post_simps(16))
  qed (use later hand in auto)
qed simp

section \<open>Which configuration is in force\<close>

definition in_force :: "'db server_env \<Rightarrow> config \<Rightarrow> 'db server_event list \<Rightarrow> config \<Rightarrow> bool" where
  "in_force N cnf evs cnf' \<longleftrightarrow> cnf' = cnf \<or>
     (\<exists>F. Signal SIGHUP F \<in> set evs \<and> ReadFile (su_yaml F) (su_open_file F) (ar_ConfigFile (sn_args N)) = (cnf', None))"

lemma configured_as_cong:
  "sy_commands y = sy_commands z \<Longrightarrow> sy_auth y = sy_auth z \<Longrightarrow> sy_formatter y = sy_formatter z \<Longrightarrow>
   configured_as cnf y = configured_as cnf z"
  by (simp add: configured_as_def)

lemma system_of_simps [simp]:
  "sy_commands (system_of s) = sr_commands s" "sy_auth (system_of s) = sr_auth s"
  "sy_formatter (system_of s) = Some (sr_formatter s)" "sy_world (system_of s) = store_of s"
  by (simp_all add: system_of_def)

text \<open>The commands of the other kinds come and go without a trace in the local ones.\<close>

lemma Register_keeps_local:
  assumes "Register r cmds = (e, cmds')" and "ra_Kind r \<noteq> KindLocalCommand" and "hub_kind hub = KindLocalCommand"
  shows "map_of cmds' n = Some hub \<longleftrightarrow> map_of cmds n = Some hub"
proof (cases e)
  case (Some x)
  with assms(1) show ?thesis by (simp add: Register_conv)
next
  case None
  with assms(1) have v: "ra_Kind r \<in> {KindBuiltinCommand, KindRemoteCommand}" "cmds' = registration_process r cmds"
    "\<forall>c \<in> set (ra_Commands r). valid_registration cmds (ra_Kind r) (ra_Action r) c"
    using assms(2) by (auto simp: Register_conv registration_validate_None)
  have other: "map_of cmds n \<noteq> Some hub" if "n \<in> cr_Name ` set (ra_Commands r)"
    using v(3) that assms(2,3) by (auto simp: valid_registration_def)
  show ?thesis
  proof (cases "ra_Action r = ActionRegister")
    case True
    have "new_hubs r n \<noteq> Some hub" using new_hubs_Some [of r n hub] assms(2,3) by auto
    with True other new_hubs_None [of r n] assms(2) show ?thesis
      by (auto simp: v(2) registration_process_def map_of_registerCommands map_add_def split: option.split)
  next
    case False
    with v(1) other show ?thesis
      by (auto simp: v(2) registration_process_def map_of_unregisterCommands split: if_splits)
  qed
qed

lemma agent_registers:
  "snd (registerAgent ac cmds) =
     snd (Register \<lparr>ra_Kind = KindRemoteCommand, ra_Action = ActionRegister, ra_Commands = agent_registrations ac\<rparr> cmds)"
  by (simp add: registerAgent_def split: prod.split option.split)

lemma reload_formatter:
  assumes "sy_formatter y = Some f"
  shows "sy_formatter (reload a F y) \<noteq> None"
proof -
  obtain cnf e where r: "ReadFile (su_yaml F) (su_open_file F) (ar_ConfigFile a) = (cnf, e)" by fastforce
  obtain x z where l: "LoadConfiguration (su_bolt_open F) cnf y = (x, z)" by fastforce
  have "sy_formatter z \<noteq> None"
    using LoadConfiguration_fails [of "su_bolt_open F" cnf y _ z] LoadConfiguration_world(3) [of "su_bolt_open F" cnf y z] l assms
    by (cases x) auto
  with assms r l show ?thesis by (simp add: reload_def split: option.split)
qed

lemma system_of_with_system: "sy_formatter y \<noteq> None \<Longrightarrow> system_of (with_system y s) = y"
  by (auto simp: system_of_def with_system_def)

lemma run_configured:
  assumes "server_run N s0 evs s" and "registry_ok (sr_commands s0)" and "configured_as cnf (system_of s0)"
    and "\<forall>sig F. Signal sig F \<in> set evs \<longrightarrow> decodes_maps F"
  shows "registry_ok (sr_commands s) \<and> (\<exists>cnf'. in_force N cnf evs cnf' \<and> configured_as cnf' (system_of s))"
  using assms
proof (induction rule: server_run.induct)
  case no_step
  then show ?case by (auto simp: in_force_def)
next
  case (one_more evs s ev s')
  from one_more obtain c where c: "registry_ok (sr_commands s)" "in_force N cnf evs c" "configured_as c (system_of s)"
    by auto
  have later: "in_force N cnf (evs @ [ev]) c" using c(2) by (auto simp: in_force_def)
  have same: ?case if "sr_commands s' = sr_commands s" "sr_auth s' = sr_auth s" "sr_formatter s' = sr_formatter s"
    using c later that configured_as_cong [of "system_of s'" "system_of s" c] by auto
  from one_more.hyps(2) show ?case
  proof (cases rule: server_step_cases)
    case (signal sig F)
    show ?thesis
    proof (cases "sig = SIGHUP")
      case True
      have "decodes_maps F" using one_more.prems(3) signal(1) by auto
      note r = reloading [OF _ this c(3), of "sn_args N"]
      have s': "system_of s' = reload (sn_args N) F (system_of s)"
        using system_of_with_system [OF reload_formatter [of "system_of s"]] signal(2) True by (simp add: handle_signal_def)
      then have cmds: "sr_commands s' = sy_commands (reload (sn_args N) F (system_of s))" by (metis system_of_simps(1))
      from r c(1) obtain c' where "registry_ok (sr_commands s')" "configured_as c' (system_of s')"
        "c' = c \<or> ReadFile (su_yaml F) (su_open_file F) (ar_ConfigFile (sn_args N)) = (c', None)"
        unfolding s' cmds by auto
      moreover from this(3) have "in_force N cnf (evs @ [ev]) c'"
        using later signal(1) True by (auto simp: in_force_def)
      ultimately show ?thesis by blast
    qed (use same signal in \<open>cases sig; simp add: handle_signal_def\<close>)
  next
    case (agent cmds)
    then obtain act ac where cmds: "cmds = snd (Register
        \<lparr>ra_Kind = KindRemoteCommand, ra_Action = act, ra_Commands = agent_registrations ac\<rparr> (sr_commands s))"
      by (auto simp: agent_registers deRegisterAgentCommands_def)
    define r where "r = \<lparr>ra_Kind = KindRemoteCommand, ra_Action = act, ra_Commands = agent_registrations ac\<rparr>"
    obtain e where reg: "Register r (sr_commands s) = (e, cmds)"
      using cmds by (cases "Register r (sr_commands s)") (simp add: r_def)
    have kind: "ra_Kind r \<noteq> KindLocalCommand" by (simp add: r_def)
    have "sr_commands s' = cmds" "sr_auth s' = sr_auth s" "sr_formatter s' = sr_formatter s" using agent(1) by simp_all
    with c(3) Register_keeps_local [OF reg kind] have "configured_as c (system_of s')"
      unfolding configured_as_def by (metis system_of_simps(1-3))
    with later Register_ok [OF c(1) reg] agent(1) show ?thesis by auto
  next
    case (stopping st)
    then show ?thesis by (intro same) simp_all
  qed (use same in simp_all)
qed

lemma launched_start:
  assumes "launch B C F a sys = Ret (Returns (Server y m))" and "sy_commands sys = Reset"
    and "ReadFile (su_yaml F) (su_open_file F) (ar_ConfigFile a) = (cnf, None)"
    and "gomap_ok (cf_Commands cnf)" and "gomap_ok (cf_Groups cnf)"
  shows "registry_ok (sr_commands (server_start a y m))" and "configured_as cnf (system_of (server_start a y m))"
proof -
  obtain s1 w u where l: "LoadConfiguration (su_bolt_open F) cnf sys = (None, s1)"
    and y: "y = s1\<lparr>sy_world := w, sy_commands := snd (LoadBuiltins (sy_commands s1))\<rparr>"
    using launch_server_parts [OF assms(1)] assms(3) by (metis prod.inject)
  have "registry_ok (sy_commands sys)" by (simp add: assms(2) registry_ok_def Reset_def)
  note load = loading [OF this assms(4,5) l]
  obtain r e where r: "ra_Kind r = KindBuiltinCommand" "Register r (sy_commands s1) = (e, snd (LoadBuiltins (sy_commands s1)))"
    unfolding LoadBuiltins_def by (metis RegistrationArgs.select_convs(1) prod.collapse)
  show "registry_ok (sr_commands (server_start a y m))"
    using Register_ok [OF load(1) r(2)] by (simp add: server_start_def y)
  have "map_of (snd (LoadBuiltins (sy_commands s1))) n = Some hub \<and> hub_kind hub = KindLocalCommand \<longleftrightarrow>
      map_of (sy_commands s1) n = Some hub \<and> hub_kind hub = KindLocalCommand" for n hub
    using Register_keeps_local [OF r(2)] r(1) by auto
  moreover obtain f where "sy_formatter s1 = Some f" using LoadConfiguration_world(3) [OF l] by blast
  ultimately show "configured_as cnf (system_of (server_start a y m))"
    using load(2) unfolding configured_as_def by (simp add: server_start_def system_of_def y)
qed

section \<open>What was let in\<close>

definition admitted :: "'db server \<Rightarrow> request \<Rightarrow> task \<Rightarrow> bool" where
  "admitted s req t \<longleftrightarrow> resolves (map_of (sr_commands s)) req t \<and>
     Check (sr_auth s) (job_Request (tk_job t)) (authorization_of (tk_cmd t)) = Ret None"

text \<open>Whatever the database is like, a task carries the request it was made for.\<close>

lemma created_for: "jobs_create_tx B C now req d = Returns (j, d') \<Longrightarrow> job_Request j = req"
proof -
  assume "jobs_create_tx B C now req d = Returns (j, d')"
  then have "\<exists>i. zero_job\<lparr>job_ID := i, job_Request := req, job_StartTime := now, job_Status := JobRunningStatus\<rparr> = j"
    by (auto simp: jobs_create_tx_def Let_def split: prod.splits sum.splits)
  then show ?thesis by auto
qed

lemma local_task_request:
  assumes "createTask E req c w = (Returns t, w')" and "xe_providers E = local_providers B C"
  shows "job_Request (tk_job t) = req \<and> tk_cmd t = c"
proof (cases "cs_MustRecord (getters c)")
  case False
  with assms show ?thesis
    by (auto simp: createTask_def exec_services in_store_def local_providers_def local_jobs_def jobs_null_def zero_job_def
        split: prod.splits)
next
  case True
  with assms obtain j v where j: "js_Create (local_jobs B C) req (ew_store w) = (Returns j, v)" "tk_job t = j" "tk_cmd t = c"
    by (auto simp: createTask_def exec_services in_store_def local_providers_def split: prod.splits sum.splits)
  then obtain d d' where "jobs_create_tx B C (now_of (ew_store w)) req d = Returns (j, d')"
    by (auto simp: local_jobs_def with_db_def jobs_create_def elim!: Update_returns split: prod.splits sum.splits)
  from created_for [OF this] j show ?thesis by simp
qed

lemma run_request_admits:
  assumes "run_request (executor_env_of N s) req x = Ret x'" and "ex_sending x = None" and "t \<in> set (tasks_of x')"
  shows "t \<in> set (tasks_of x) \<or> admitted s req t"
  using assms(1)
proof (cases rule: run_request_cases)
  case (accepted c req' w u w')
  have u: "job_Request (tk_job u) = req'" "tk_cmd u = c" using local_task_request [OF accepted(3)] by auto
  with Find_resolves [OF accepted(1)] accepted(2) have "admitted s req u"
    unfolding admitted_def resolves_def by (metis executor_env_simps(2,3))
  with assms(2,3) accepted(4) show ?thesis by (auto simp: tasks_of_def)
qed (use assms(3) in \<open>simp add: tasks_of_def\<close>)

text \<open>Where the tasks of a server come from.\<close>

definition let_in :: "'db server_env \<Rightarrow> 'db server \<Rightarrow> 'db server_event list \<Rightarrow> task \<Rightarrow> bool" where
  "let_in N s0 evs t \<longleftrightarrow> (\<exists>e0 req e1 s. evs = e0 @ Exec (Received req) # e1 \<and> server_run N s0 e0 s \<and>
     sr_taken s = Some req \<and> admitted s req t)"

lemma let_in_later: "let_in N s0 evs t \<Longrightarrow> let_in N s0 (evs @ evs2) t"
  unfolding let_in_def by fastforce

lemma same_tasks:
  "ex_sending x = ex_sending y \<Longrightarrow> ex_queue x = ex_queue y \<Longrightarrow> ex_goroutines x = ex_goroutines y \<Longrightarrow>
   tasks_of x = tasks_of y \<and> open_tasks x = open_tasks y"
  by (simp add: tasks_of_def open_tasks_def)

lemma run_let_in:
  assumes "server_run N s0 evs s" and "tasks_of (sr_executor s0) = []"
  shows "\<forall>t \<in> set (tasks_of (sr_executor s)). let_in N s0 evs t"
  using assms
proof (induction rule: server_run.induct)
  case (one_more evs s ev s')
  have later: "let_in N s0 (evs @ [ev]) t" if "t \<in> set (tasks_of (sr_executor s))" for t
    using one_more.IH [OF one_more.prems] that let_in_later by blast
  have same: ?case if "tasks_of (sr_executor s') = tasks_of (sr_executor s)" using later that by simp
  from one_more.hyps(2) show ?case
  proof (cases rule: server_step_cases)
    case (executor xev x ps)
    show ?thesis
    proof
      fix t assume t: "t \<in> set (tasks_of (sr_executor s'))"
      show "let_in N s0 (evs @ [ev]) t"
      proof (cases "is_request xev")
        case False
        with step_tasks [OF executor(1)] t executor(2) later show ?thesis by blast
      next
        case True
        with executor(11,12) obtain req where req: "xev = Received req" "ev = Exec (Received req)" "sr_taken s = Some req" by auto
        from executor(1) [unfolded req(1)] have "ex_sending (sr_executor s) = None"
          "run_request (executor_env_of N s) req (sr_executor s) = Ret x" by (auto elim: exec_stepE)
        from run_request_admits [OF this(2,1)] t executor(2) consider "t \<in> set (tasks_of (sr_executor s))" | "admitted s req t"
          by blast
        then show ?thesis
        proof cases
          case 2
          with req one_more.hyps(1) show ?thesis unfolding let_in_def by blast
        qed (rule later)
      qed
    qed
  next
    case (signal sig F)
    then show ?thesis by (intro same) (simp add: tasks_of_def)
  next
    case (post tokenID message)
    then show ?thesis by (intro same) (simp add: tasks_of_def)
  next
    case (taking req c rest)
    then show ?thesis by (intro same) simp
  qed (use same in simp_all)
qed simp

section \<open>Where the answers go\<close>

lemma Find_keeps_origin:
  "Find S cmds req w = ((f, req'), w') \<Longrightarrow> req_ChannelID req' = req_ChannelID req \<and> req_UserID req' = req_UserID req"
  by (auto simp: Find_def Let_def split: prod.splits sum.splits option.splits)

lemma step_replies:
  assumes "exec_step E x ev (Ret x')"
  shows "\<exists>rs. ex_replies x' = ex_replies x @ rs \<and>
    (\<forall>r \<in> set rs. (\<exists>req. ev = Received req \<and> reply_ChannelID r = req_ChannelID req) \<or>
       (\<exists>t \<in> set (tasks_of x). rp_request r = job_Request (tk_job t)))"
  using assms
proof cases
  case (received req)
  from received(2) [symmetric] show ?thesis
  proof (cases rule: run_request_cases)
    case (replied f req' w0 r w)
    with Find_keeps_origin [OF replied(1)] received(1) show ?thesis
      by (intro exI [of _ "[r]"]) (simp add: reply_ChannelID_def)
  qed simp
next
  case (began k t)
  then have "t \<in> set (tasks_of x)" using nth_mem [OF began(3)] by (force simp: tasks_of_def)
  with began show ?thesis by (auto simp: begin_task_conv)
next
  case (ended k t c ans)
  then have t: "t \<in> set (tasks_of x)" using nth_mem [OF ended(3)] by (force simp: tasks_of_def)
  have "end_task E ans k t x = Ret x'" using ended by simp
  then show ?thesis by (cases rule: end_task_cases) (use t in auto)
next
  case (released k t)
  then show ?thesis by (simp add: release_task_def)
qed auto

text \<open>Every reply goes to a channel from which was asked.\<close>

definition answers :: "'db server_env \<Rightarrow> 'db server \<Rightarrow> 'db server_event list \<Rightarrow> string \<Rightarrow> bool" where
  "answers N s0 evs channel \<longleftrightarrow> (\<exists>req. asked N s0 evs req \<and> channel = req_ChannelID req)"

lemma post_replies_in: "post_replies T rs = Ret ps \<Longrightarrow> p \<in> set ps \<Longrightarrow> \<exists>r \<in> set rs. post_channel p = reply_ChannelID r"
proof (induction rs arbitrary: ps)
  case (Cons r rs)
  then show ?case using client_Reply_channel [of T r _ p] by (auto split: run.splits)
qed simp

text \<open>The server before its first step.\<close>

definition fresh :: "'db server_env \<Rightarrow> 'db server \<Rightarrow> bool" where
  "fresh N s \<longleftrightarrow> (\<exists>y m. s = server_start (sn_args N) y m \<and>
     matcher_of (slack_env_of N s) (ar_StealthMode (sn_args N)) (sr_matcher s))"

lemma fresh_simps:
  assumes "fresh N s"
  shows "sr_chat s = None" "sr_api s = []" "sr_posts s = []" "sr_stage s = Serving" "tasks_of (sr_executor s) = []"
    "ex_replies (sr_executor s) = []" "ex_wg (sr_executor s) = 0" "\<not> ex_closed (sr_executor s)" "sr_taken s = None"
    "\<not> ex_waited (sr_executor s)" "uncounted (sr_executor s) = 0"
    "open_tasks (sr_executor s) = 0" "final_replies (sr_executor s) = 0"
    "matcher_of (slack_env_of N s) (ar_StealthMode (sn_args N)) (sr_matcher s)"
  using assms by (auto simp: fresh_def tasks_of_def open_tasks_def uncounted_def final_replies_def)

lemma fresh_pending:
  assumes "server_run N s0 evs s" and "fresh N s0"
  shows "sr_taken s = Some req \<Longrightarrow> taken_after_asked N s0 evs req"
  using pending_asked [OF assms(1) fresh_simps(1,2,9) [OF assms(2)] fresh_simps(14) [OF assms(2)]] by blast

lemma let_in_asked:
  assumes "fresh N s0" and "let_in N s0 evs t"
  shows "\<exists>req. asked N s0 evs req \<and> req_ChannelID (job_Request (tk_job t)) = req_ChannelID req"
proof -
  obtain e0 req e1 s where e: "evs = e0 @ Exec (Received req) # e1" "server_run N s0 e0 s" "sr_taken s = Some req"
    "admitted s req t"
    using assms(2) unfolding let_in_def by blast
  from fresh_pending [OF e(2) assms(1) e(3)] have "asked N s0 e0 req" by (rule taken_asked)
  then have "asked N s0 evs req" using asked_later e(1) by blast
  moreover have "req_ChannelID (job_Request (tk_job t)) = req_ChannelID req" using e(4) by (auto simp: admitted_def resolves_def)
  ultimately show ?thesis by blast
qed

lemma answers_later: "answers N s0 evs ch \<Longrightarrow> answers N s0 (evs @ evs2) ch"
  unfolding answers_def using asked_later by blast

lemma run_answers:
  assumes "server_run N s0 evs s" and "fresh N s0"
  shows "(\<forall>r \<in> set (ex_replies (sr_executor s)). answers N s0 evs (reply_ChannelID r)) \<and>
    (\<forall>p \<in> set (sr_posts s). post_channel p = [] \<or> answers N s0 evs (post_channel p))"
  using assms
proof (induction rule: server_run.induct)
  case no_step
  then show ?case by (simp add: fresh_simps)
next
  case (one_more evs s ev s')
  note IH = one_more.IH [OF one_more.prems]
  have later: "answers N s0 evs ch \<Longrightarrow> answers N s0 (evs @ [ev]) ch" for ch by (rule answers_later)
  have same: ?case if "ex_replies (sr_executor s') = ex_replies (sr_executor s)" "set (sr_posts s') \<subseteq> set (sr_posts s) \<union> {p. post_channel p = []}"
    using IH later that by (metis (mono_tags, lifting) UnE mem_Collect_eq subsetD)
  from one_more.hyps(2) show ?case
  proof (cases rule: server_step_cases)
    case (executor xev x ps)
    obtain rs where rs: "ex_replies x = ex_replies (sr_executor s) @ rs"
      "\<forall>r \<in> set rs. (\<exists>req. xev = Received req \<and> reply_ChannelID r = req_ChannelID req) \<or>
         (\<exists>t \<in> set (tasks_of (sr_executor s)). rp_request r = job_Request (tk_job t))"
      using step_replies [OF executor(1)] by blast
    have new: "answers N s0 (evs @ [ev]) (reply_ChannelID r)" if "r \<in> set rs" for r
    proof -
      from rs(2) that consider (req) req where "xev = Received req" "reply_ChannelID r = req_ChannelID req"
        | (task) t where "t \<in> set (tasks_of (sr_executor s))" "rp_request r = job_Request (tk_job t)" by blast
      then show ?thesis
      proof cases
        case req
        with executor(12) have "sr_taken s = Some req" by auto
        from fresh_pending [OF one_more.hyps(1) one_more.prems this] have "asked N s0 evs req" by (rule taken_asked)
        with req(2) asked_later show ?thesis unfolding answers_def by blast
      next
        case task
        from run_let_in [OF one_more.hyps(1) fresh_simps(5) [OF one_more.prems]] task(1) have "let_in N s0 evs t" by blast
        from let_in_asked [OF one_more.prems this] task(2) asked_later show ?thesis
          unfolding answers_def reply_ChannelID_def by metis
      qed
    qed
    moreover have "post_channel p \<in> reply_ChannelID ` set rs" if "p \<in> set ps" for p
      using post_replies_in [OF executor(3) that] rs(1) by auto
    ultimately have "\<forall>p \<in> set ps. answers N s0 (evs @ [ev]) (post_channel p)" by fastforce
    with IH later new rs(1) executor(2,4) show ?thesis by (metis Un_iff set_append)
  next
    case (chat_listener sev fx m)
    have "fst (handle_event (slack_env_of N s) sev (sr_matcher s)) = Ret fx" by (simp add: chat_listener(2))
    from handle_event_Posts [OF this] have "set (sr_posts s') \<subseteq> set (sr_posts s) \<union> {p. post_channel p = []}"
      by (auto simp: chat_listener(3) chat_effects_def split: slack_effect.splits)
    with same chat_listener(3) show ?thesis by simp
  qed (use same in auto)
qed

section \<open>Counting and closing\<close>

text \<open>A request that \<open>Run\<close> has in hand: taken and not handled, or handled with a task that is not counted.\<close>

definition in_hand :: "'db server \<Rightarrow> nat" where
  "in_hand s = (if sr_taken s = None then 0 else 1) + uncounted (sr_executor s)"

definition taken_count :: "'db server_event list \<Rightarrow> nat" where
  "taken_count evs = length (filter (\<lambda>ev. taken ev \<noteq> None) evs)"

lemma taken_count_simps [simp]:
  "taken_count [] = 0" "taken_count (xs @ ys) = taken_count xs + taken_count ys"
  "taken_count (ev # evs) = (if taken ev = None then 0 else 1) + taken_count evs"
  by (simp_all add: taken_count_def)

definition counts_ok :: "'db server \<Rightarrow> 'db server_event list \<Rightarrow> bool" where
  "counts_ok s evs \<longleftrightarrow>
     ex_wg (sr_executor s) + uncounted (sr_executor s) = open_tasks (sr_executor s) \<and>
     final_replies (sr_executor s) + open_tasks (sr_executor s) + (if sr_taken s = None then 0 else 1) = taken_count evs \<and>
     (sr_taken s = None \<or> ex_sending (sr_executor s) = None)"

lemma counts_same:
  assumes "counts_ok s evs" and "ex_sending (sr_executor s') = ex_sending (sr_executor s)"
    and "ex_queue (sr_executor s') = ex_queue (sr_executor s)" and "ex_goroutines (sr_executor s') = ex_goroutines (sr_executor s)"
    and "ex_wg (sr_executor s') = ex_wg (sr_executor s)" and "ex_replies (sr_executor s') = ex_replies (sr_executor s)"
    and "ex_counted (sr_executor s') = ex_counted (sr_executor s)" and "sr_taken s' = sr_taken s" and "taken ev = None"
  shows "counts_ok s' (evs @ [ev])"
  using assms by (simp add: counts_ok_def open_tasks_def uncounted_def final_replies_def)

lemma sending_stays_none:
  assumes "exec_step E x ev (Ret x')" and "\<not> is_request ev" and "ex_sending x = None"
  shows "ex_sending x' = None"
  using assms(1)
proof cases
  case (ended k t c ans)
  have "end_task E ans k t x = Ret x'" using ended by simp
  then show ?thesis by (cases rule: end_task_cases) (use assms(3) in simp_all)
qed (use assms(2,3) in \<open>auto simp: begin_task_conv release_task_def\<close>)

lemma run_counts:
  assumes "server_run N s0 evs s" and "fresh N s0"
  shows "counts_ok s evs"
  using assms
proof (induction rule: server_run.induct)
  case no_step
  then show ?case by (simp add: counts_ok_def fresh_simps)
next
  case (one_more evs s ev s')
  note IH = one_more.IH [OF one_more.prems]
  note same = counts_same [OF IH]
  from one_more.hyps(2) show ?case
  proof (cases rule: server_step_cases)
    case (executor xev x ps)
    have wg: "ex_wg (sr_executor s) + uncounted (sr_executor s) = open_tasks (sr_executor s)" using IH by (simp add: counts_ok_def)
    note new = step_counts [OF executor(1) wg]
    have ev: "taken ev = None" using executor(11) by simp
    show ?thesis
    proof (cases "is_request xev")
      case True
      with executor(12) have "sr_taken s \<noteq> None" "sr_taken s' = None" by auto
      with new True IH ev executor(2) show ?thesis by (simp add: counts_ok_def)
    next
      case False
      with executor(12) have same: "sr_taken s' = sr_taken s" by auto
      have "sr_taken s = None \<or> ex_sending x = None"
        using IH sending_stays_none [OF executor(1) False] by (auto simp: counts_ok_def)
      with new False IH ev executor(2) same show ?thesis by (simp add: counts_ok_def)
    qed
  next
    case (taking req c rest)
    then have "taken ev \<noteq> None" by auto
    with taking IH show ?thesis by (auto simp: counts_ok_def)
  next
    case (chat_listener sev fx m)
    then show ?thesis by (intro same) simp_all
  next
    case (post tokenID message)
    then show ?thesis by (intro same) simp_all
  next
    case (signal sig F)
    then show ?thesis by (intro same) simp_all
  next
    case (agent cmds)
    then show ?thesis by (intro same) auto
  next
    case (stopping st)
    then show ?thesis by (intro same) auto
  qed
qed

text \<open>What the channel closed says of the stage, and that the last stages come with no post waiting.\<close>

definition closing_ok :: "'db server \<Rightarrow> bool" where
  "closing_ok s \<longleftrightarrow>
     (ex_waited (sr_executor s) \<longleftrightarrow> sr_stage s \<notin> {Serving, Draining}) \<and>
     (ex_closed (sr_executor s) \<longleftrightarrow> sr_stage s \<notin> {Serving, Draining, ClosingTasks}) \<and>
     (sr_stage s \<in> {StoppingRemote, Exited} \<longrightarrow> sr_api s = [])"

lemma open_step:
  assumes "exec_step E x ev (Ret x')"
  shows "ex_closed x' \<longleftrightarrow> ex_closed x \<or> ev = ShutDown" and "ex_waited x' \<longleftrightarrow> ex_waited x \<or> ev = WaitReturned"
proof -
  have "(ex_closed x' \<longleftrightarrow> ex_closed x \<or> ev = ShutDown) \<and> (ex_waited x' \<longleftrightarrow> ex_waited x \<or> ev = WaitReturned)"
    using assms
  proof cases
    case (received req)
    from received(2) [symmetric] show ?thesis by (cases rule: run_request_cases) (use received in simp_all)
  next
    case (ended k t c ans)
    have "end_task E ans k t x = Ret x'" using ended by simp
    then show ?thesis by (cases rule: end_task_cases) (use ended in simp_all)
  qed (auto simp: begin_task_conv release_task_def)
  then show "ex_closed x' \<longleftrightarrow> ex_closed x \<or> ev = ShutDown" "ex_waited x' \<longleftrightarrow> ex_waited x \<or> ev = WaitReturned" by blast+
qed

lemma run_closing:
  assumes "server_run N s0 evs s" and "fresh N s0"
  shows "closing_ok s"
  using assms
proof (induction rule: server_run.induct)
  case no_step
  then show ?case by (simp add: closing_ok_def fresh_simps)
next
  case (one_more evs s ev s')
  note IH = one_more.IH [OF one_more.prems]
  from one_more.hyps(2) show ?case
  proof (cases rule: server_step_cases)
    case (executor xev x ps)
    with open_step [OF executor(1)] IH show ?thesis by (auto simp: closing_ok_def)
  next
    case (taking req c rest)
    with IH show ?thesis by (auto simp: closing_ok_def)
  next
    case (post tokenID message)
    with IH show ?thesis by (auto simp: closing_ok_def)
  next
    case (signal sig F)
    with IH show ?thesis by (cases sig) (auto simp: closing_ok_def handle_signal_def)
  next
    case (stopping st)
    then have "sr_stage s = ClosingHTTP \<and> st = AwaitingHandlers \<or> sr_stage s = AwaitingHandlers \<and> st = StoppingRemote \<or>
        sr_stage s = StoppingRemote \<and> st = Exited" by simp
    then show ?thesis using IH stopping(1,3) by (elim disjE conjE) (simp_all add: closing_ok_def)
  qed (use IH in \<open>auto simp: closing_ok_def\<close>)
qed

text \<open>The moment at which the wait returned.\<close>

lemma when_waited:
  assumes "server_run N s0 evs s" and "fresh N s0" and "ex_waited (sr_executor s)"
  shows "\<exists>e0 e1 s1. evs = e0 @ Exec WaitReturned # e1 \<and> server_run N s0 e0 s1 \<and> server_run N s1 (Exec WaitReturned # e1) s \<and>
    sr_stage s1 = Draining \<and> ex_wg (sr_executor s1) = 0"
  using assms
proof (induction rule: server_run.induct)
  case no_step
  then show ?case by (simp add: fresh_simps)
next
  case (one_more evs s ev s')
  show ?case
  proof (cases "ex_waited (sr_executor s)")
    case True
    from one_more.IH [OF one_more.prems(1) True] obtain e0 e1 s1 where
      e: "evs = e0 @ Exec WaitReturned # e1" "server_run N s0 e0 s1" "server_run N s1 (Exec WaitReturned # e1) s"
      "sr_stage s1 = Draining" "ex_wg (sr_executor s1) = 0" by blast
    from server_run.one_more [OF e(3) one_more.hyps(2)] e show ?thesis
      by (intro exI [of _ e0] exI [of _ "e1 @ [ev]"] exI [of _ s1]) simp
  next
    case False
    from one_more.hyps(2) show ?thesis
    proof (cases rule: server_step_cases)
      case (executor xev x ps)
      with open_step(2) [OF executor(1)] False one_more.prems(2) have x: "xev = WaitReturned" by simp
      with executor(1) have "ex_wg (sr_executor s) = 0" by (auto elim: exec_stepE)
      with executor(11,14) x one_more.hyps server_run.one_more [OF server_run.no_step one_more.hyps(2)] show ?thesis
        by (intro exI [of _ evs] exI [of _ "[]"] exI [of _ s]) simp
    qed (use False one_more.prems(2) in simp_all)
  qed
qed

lemma run_keeps_said:
  "server_run N s0 evs s \<Longrightarrow> prefix (ex_replies (sr_executor s0)) (ex_replies (sr_executor s)) \<and> prefix (sr_posts s0) (sr_posts s)"
proof (induction rule: server_run.induct)
  case (one_more evs s ev s')
  have "prefix (ex_replies (sr_executor s)) (ex_replies (sr_executor s')) \<and> prefix (sr_posts s) (sr_posts s')"
    using one_more.hyps(2)
  proof (cases rule: server_step_cases)
    case (executor xev x ps)
    with step_replies [OF executor(1)] show ?thesis by (auto simp: prefix_def)
  qed (auto simp: chat_effects_def)
  with one_more.IH show ?case by (blast intro: prefix_order.trans)
qed simp

lemma final_replies_prefix: "prefix (ex_replies x) (ex_replies y) \<Longrightarrow> final_replies x \<le> final_replies y"
  by (auto simp: final_replies_def prefix_def)

end
