(* ===== verification/EndToEnd.thy ===== *)
theory EndToEnd
  imports Server
begin

text \<open>
  What holds from the command line to the chat: what a server runs was asked for and allowed, answers go where was
  asked, and what a shutdown waits for, and what it cuts off. The stores, the network, Slack and the clock
  are arbitrary.
\<close>

lemma main_fresh:
  assumes "main N F sys = Ret (ServerProcess s0)"
  shows "fresh N s0"
  using assms
proof (rule main_serves)
  fix y m assume l: "launch (sn_bolt N) (sn_codec N) F (sn_args N) sys = Ret (Returns (Server y m))"
    and s0: "s0 = server_start (sn_args N) y m"
  have m: "m = newMessageMatcher (ar_StealthMode (sn_args N))" by (rule launch_server_parts [OF l])
  show ?thesis unfolding fresh_def s0 m using matcher_of_new by (metis server_start_simps(6))
qed

section \<open>Properties\<close>

text \<open>
  C2: whatever a server runs was asked for, and allowed when it was let in. From the launch, through any
  interleaving of messages, posts, agents, reloads and goroutines, each task in the executor goes back to one
  request that a message meant for the bot or a post with a stored token asked for, that was then taken from the
  listeners, and that was then handled: the task runs the command that was registered under the resolved
  name at that last moment; and the policy of the configuration in force at that moment, the first one
  or one that a reload had read, lets the user run it.
\<close>

theorem what_runs_was_asked_and_allowed:
  assumes "main N F sys = Ret (ServerProcess s0)" and "sy_commands sys = Reset"
    and "ReadFile (su_yaml F) (su_open_file F) (ar_ConfigFile (sn_args N)) = (cnf, None)"
    and "gomap_ok (cf_Commands cnf)" and "gomap_ok (cf_Groups cnf)"
    and "server_run N s0 evs s"
    and "\<forall>sig F. Signal sig F \<in> set evs \<longrightarrow> decodes_maps F" and "t \<in> set (tasks_of (sr_executor s))"
  shows "\<exists>e0 e1 req s1 cnf1 name args hub ea ev eb.
    evs = e0 @ Exec (Received req) # e1 \<and> server_run N s0 e0 s1 \<and>
    e0 = ea @ ev # eb \<and> taken ev = Some req \<and> asked N s0 ea req \<and>
    job_Request (tk_job t) = req\<lparr>req_Command := name, req_Args := args @ req_Args req\<rparr> \<and>
    map_of (sr_commands s1) name = Some hub \<and> tk_cmd t = hub_cmd hub \<and>
    in_force N cnf e0 cnf1 \<and> configured_as cnf1 (system_of s1) \<and>
    policy (cf_Groups cnf1) (job_Request (tk_job t)) (authorization_of (tk_cmd t)) = None"
proof -
  note fresh = main_fresh [OF assms(1)]
  have start: "registry_ok (sr_commands s0)" "configured_as cnf (system_of s0)"
    by (rule main_serves [OF assms(1)], use launched_start [OF _ assms(2-5)] in simp)+
  have "let_in N s0 evs t" using run_let_in [OF assms(6) fresh_simps(5) [OF fresh]] assms(8) by blast
  then obtain e0 req e1 s1 where e: "evs = e0 @ Exec (Received req) # e1" "server_run N s0 e0 s1"
    "sr_taken s1 = Some req" "admitted s1 req t"
    unfolding let_in_def by blast
  from fresh_pending [OF e(2) fresh e(3)] obtain ea ev eb where
    asked: "e0 = ea @ ev # eb" "taken ev = Some req" "asked N s0 ea req" unfolding taken_after_asked_def by blast
  have "\<forall>sig F. Signal sig F \<in> set e0 \<longrightarrow> decodes_maps F" using assms(7) e(1) by simp
  from run_configured [OF e(2) start this] obtain c where c: "in_force N cnf e0 c" "configured_as c (system_of s1)" by blast
  have "policy (cf_Groups c) (job_Request (tk_job t)) (authorization_of (tk_cmd t)) = None"
    using c(2) e(4) by (simp add: configured_as_def admitted_def)
  moreover from e(4) obtain name args hub where "job_Request (tk_job t) = req\<lparr>req_Command := name, req_Args := args @ req_Args req\<rparr>"
    "map_of (sr_commands s1) name = Some hub" "tk_cmd t = hub_cmd hub"
    unfolding admitted_def resolves_def by auto
  ultimately show ?thesis using e(1,2) asked c by blast
qed

text \<open>
  C13: answers go where was asked. Whatever the server posts to the chat goes to the channel of a request that
  a message or a post asked for before, or to the channel with the empty name.
\<close>

theorem answers_go_where_asked:
  assumes "main N F sys = Ret (ServerProcess s0)"
    and "server_run N s0 evs s" and "p \<in> set (sr_posts s)"
  shows "post_channel p = [] \<or>
    (\<exists>req. asked N s0 evs req \<and> post_channel p = req_ChannelID req)"
  using run_answers [OF assms(2) main_fresh [OF assms(1)]] assms(3) unfolding answers_def by blast


section \<open>Examples\<close>

definition ref_server_env :: "ref_db server_env" where
  "ref_server_env = \<lparr>sn_bolt = ref_bolt, sn_codec = ref_codec, sn_args = ref_args, sn_slack = se_api ref_slack,
     sn_engine = ref_engine, sn_humanize = (\<lambda>t. ''now''), sn_version = (''meeseeks-box'', ''1'', ''abc'', ''today'')\<rparr>"

lemma ref_server_env_simps [simp]:
  "sn_bolt ref_server_env = ref_bolt" "sn_codec ref_server_env = ref_codec" "sn_args ref_server_env = ref_args"
  "sn_slack ref_server_env = se_api ref_slack" "sn_engine ref_server_env = ref_engine"
  by (simp_all add: ref_server_env_def)

lemma ref_stealth [simp]: "ar_StealthMode ref_args = False"
  by (simp add: ref_args_def parseArgs_def default_args_def Let_def)

lemma ref_launched:
  obtains y a where
    "main ref_server_env (ref_surroundings ''echo'') fresh_system = Ret (ServerProcess (server_start ref_args y (newMessageMatcher False)))"
    "ref_holds (sy_world y) a" "st_aliases a = st_aliases nothing_stored" "registry_ok (sy_commands y)"
    "\<And>b. map_of (sy_commands y) (builtin_name b) = Some \<lparr>hub_kind = KindBuiltinCommand, hub_cmd = BuiltinCommand b\<rparr>"
    "\<And>req c. Check (sy_auth y) req c = Ret (policy [(''dev'', [''bob''])] req c)"
    "sy_formatter y = Some (Configure_formatter (cf_Format default_config))"
proof -
  let ?F = "ref_surroundings ''echo''" and ?c = "named_config ''echo''"
  have "trim_space ''echo'' \<noteq> []" by (simp add: trim_space_id edge_byte_def)
  then obtain y m where l: "launch ref_bolt ref_codec ?F ref_args fresh_system = Ret (Returns (Server y m))"
    using ref_launch by blast
  obtain cnf s1 w u where p: "ReadFile (su_yaml ?F) (su_open_file ?F) (ar_ConfigFile ref_args) = (cnf, None)"
    "LoadConfiguration (su_bolt_open ?F) cnf fresh_system = (None, s1)"
    "js_FailRunningJobs ref_jobs (sy_world s1) = (Returns u, w)"
    "y = s1\<lparr>sy_world := w, sy_commands := snd (LoadBuiltins (sy_commands s1))\<rparr>" "m = newMessageMatcher (ar_StealthMode ref_args)"
    by (rule launch_server_parts [OF l])
  have cnf: "cnf = ?c" using p(1) ref_read [of "''echo''"] by simp
  obtain d where "su_bolt_open ?F (cf_Database ?c) = Returns d"
    "sy_world s1 = (sy_world fresh_system)\<lparr>wd_db := \<lparr>databaseConfig = cf_Database ?c, database = Open d\<rparr>\<rparr>"
    using LoadConfiguration_world(1) [OF p(2)] cnf by blast
  then have "ref_holds (sy_world s1) nothing_stored"
    using ref_opened [of "''echo''"] ref_world_holds by (simp add: ref_surroundings_def)
  from ref_stores.local_kill_running [OF this p(3)] obtain t where
    h: "ref_holds w (nothing_stored\<lparr>st_jobs := kill_all t (running (st_jobs nothing_stored)) (st_jobs nothing_stored)\<rparr>)" by blast
  have reg: "registry_ok (sy_commands fresh_system)" by (simp add: fresh_system_def registry_ok_def Reset_def)
  note load = loading [OF reg named_config_ok(1,2) p(2) [unfolded cnf]]
  have "map_of (sy_commands s1) n = map_option local_hub (map_of (cf_Commands ?c) n)" for n
    using LoadConfiguration_effect [OF reg named_config_ok(1,2) p(2) [unfolded cnf]]
    by (cases "map_of (cf_Commands ?c) n") (simp_all add: fresh_system_def Reset_def local_hub_def)
  then have "map_of (sy_commands s1) (builtin_name b) = None" for b by (cases b) (simp_all add: named_config_ok(3))
  with LoadBuiltins_effect [OF load(1)] obtain cmds where b: "LoadBuiltins (sy_commands s1) = (None, cmds)" "registry_ok cmds"
    "\<forall>b. map_of cmds (builtin_name b) = Some \<lparr>hub_kind = KindBuiltinCommand, hub_cmd = BuiltinCommand b\<rparr>"
    by force
  have groups: "cf_Groups ?c = [(''dev'', [''bob''])]" "cf_Format ?c = cf_Format default_config"
    by (simp_all add: named_config_def echo_config_def)
  show thesis
    by (rule that [of y "nothing_stored\<lparr>st_jobs := kill_all t (running (st_jobs nothing_stored)) (st_jobs nothing_stored)\<rparr>"])
      (use l p(4,5) h b load(2) groups in \<open>simp_all add: configured_as_def main_def\<close>)
qed

text \<open>Bob writes the name of a command to the bot.\<close>

definition bobs_request :: "string \<Rightarrow> request" where
  "bobs_request c = \<lparr>req_Command = c, req_Args = [], req_Username = ''bob'', req_UserID = ''U1'', req_UserLink = ''<@U1>'',
     req_Channel = ''IM'', req_ChannelID = ''D1'', req_ChannelLink = ''<#D1|IM>'', req_IsIM = True\<rparr>"

lemma ref_chat:
  assumes "se_api E = se_api ref_slack" and "Parse c = Returns [c]"
  obtains m where "handle_event E (MessageEvent (bobs_message c)) (newMessageMatcher False) = (Ret [Sends (bobs_request c)], m)"
proof -
  have "fst (Matches (se_api E) (se_auth E) (newMessageMatcher False) (bobs_message c)) = Returns
      \<lparr>ms_text = c, ms_channel = ''IM'', ms_channelID = ''D1'', ms_username = ''bob'', ms_userID = ''U1'', ms_isIM = True\<rparr>"
    using Matches_addressed [OF matcher_of_new, of E False "bobs_message c"] assms(1)
    by (simp add: addressed_def bobs_message_def isIMChannel_def has_prefix_def getChannel_def ref_api)
  then obtain m where "Matches (se_api E) (se_auth E) (newMessageMatcher False) (bobs_message c) = (Returns
      \<lparr>ms_text = c, ms_channel = ''IM'', ms_channelID = ''D1'', ms_username = ''bob'', ms_userID = ''U1'', ms_isIM = True\<rparr>, m)"
    by (metis prod.collapse)
  with assms(2) that [of m] show thesis
    by (simp add: requestFromMessage_def bobs_request_def message_GetUserLink_def message_GetChannelLink_def user_link_def)
qed

lemma ref_words: "Parse ''version'' = Returns [''version'']" "Parse ''kill'' = Returns [''kill'']"
  using parse_unquoted [of "''version''"] parse_unquoted [of "''kill''"]
  by (simp_all add: trim_space_id edge_byte_def blank_def plain_byte_def)

text \<open>The server after a message of Bob with the name of a builtin, up to the lookup of its request.\<close>

lemma ref_asked:
  assumes p: "Parse (builtin_name b) = Returns [builtin_name b]"
  obtains y s m w where
    "main ref_server_env (ref_surroundings ''echo'') fresh_system = Ret (ServerProcess (server_start ref_args y (newMessageMatcher False)))"
    "s = (server_start ref_args y (newMessageMatcher False))\<lparr>sr_matcher := m, sr_chat := Some (bobs_request (builtin_name b))\<rparr>"
    "server_step ref_server_env (server_start ref_args y (newMessageMatcher False))
       (Chat (MessageEvent (bobs_message (builtin_name b)))) (Ret s)"
    "Find (pv_Aliases (xe_services (executor_env_of ref_server_env s))) (sr_commands s) (bobs_request (builtin_name b))
       (ex_world (sr_executor s)) = ((Some (BuiltinCommand b), bobs_request (builtin_name b)), w)"
    "\<And>req c. Check (sr_auth s) req c = Ret (policy [(''dev'', [''bob''])] req c)"
    "sr_formatter s = Configure_formatter (cf_Format default_config)"
proof (rule ref_launched)
  fix y :: "ref_db system" and a
  let ?N = ref_server_env and ?s0 = "server_start ref_args y (newMessageMatcher False)" and ?c = "builtin_name b"
  assume l: "main ref_server_env (ref_surroundings ''echo'') fresh_system = Ret (ServerProcess (server_start ref_args y (newMessageMatcher False)))"
    and y: "ref_holds (sy_world y) a" "st_aliases a = st_aliases nothing_stored" "registry_ok (sy_commands y)"
    "\<And>b. map_of (sy_commands y) (builtin_name b) = Some \<lparr>hub_kind = KindBuiltinCommand, hub_cmd = BuiltinCommand b\<rparr>"
    "\<And>req c. Check (sy_auth y) req c = Ret (policy [(''dev'', [''bob''])] req c)"
    "sy_formatter y = Some (Configure_formatter (cf_Format default_config))"
  obtain m where m: "handle_event (slack_env_of ?N ?s0) (MessageEvent (bobs_message ?c)) (newMessageMatcher False) =
      (Ret [Sends (bobs_request ?c)], m)"
    by (rule ref_chat [of "slack_env_of ?N ?s0", OF _ p]) simp_all
  define s where "s = ?s0\<lparr>sr_matcher := m, sr_chat := Some (bobs_request ?c)\<rparr>"
  have "chat_event ?N (MessageEvent (bobs_message ?c)) ?s0 = Ret s"
    by (simp add: chat_event_def m chat_effects_def s_def del: handle_event.simps)
  with server_step.chat [of ?s0 ?N "MessageEvent (bobs_message ?c)"] have step:
    "server_step ?N ?s0 (Chat (MessageEvent (bobs_message ?c))) (Ret s)" by simp
  have "ew_holds ref_holds ([], {}, 0) (ex_world (sr_executor s)) a" by (simp add: s_def y(1) contexts_of_def)
  moreover have "st_aliases a (req_UserID (bobs_request ?c)) (req_Command (bobs_request ?c)) = None"
    by (simp add: y(2) nothing_stored_def)
  ultimately obtain w where w: "Find (exec_aliases (local_aliases ref_bolt ref_codec)) (sy_commands y) (bobs_request ?c)
      (ex_world (sr_executor s)) = ((map_option hub_cmd (map_of (sy_commands y) (req_Command (bobs_request ?c))), bobs_request ?c), w)"
    by (rule alias_service.find_without_alias [OF alias_service.exec_alias [OF ref_stores.local_alias.alias_service_axioms]
        _ _ registry_no_empty_name [OF y(3)]]) simp
  show thesis
    by (rule that [OF l s_def step, of w]) (use w y in \<open>simp_all add: s_def server_start_def exec_providers_def local_providers_def bobs_request_def\<close>)
qed

lemma ref_policy:
  "policy [(''dev'', [''bob''])] (bobs_request c) (authorization_of (BuiltinCommand VersionCommand)) = None"
  "policy [(''dev'', [''bob''])] (bobs_request c) (authorization_of (BuiltinCommand KillJobCommand)) \<noteq> None"
  by (simp_all add: builtin_authorization policy_def user_allowed_def channel_error_def admin_builtins_def private_builtins_def
      bobs_request_def)

lemma ref_take:
  assumes "s = (server_start ref_args y m0)\<lparr>sr_matcher := m, sr_chat := Some req\<rparr>"
    and "run_request (executor_env_of ref_server_env s) req (sr_executor s) = Ret x"
    and "post_replies ref_engine (ex_replies x) = Ret ps"
    and "server_run ref_server_env s0 [ev] s"
  shows "server_run ref_server_env s0 [ev, FromChat req, Exec (Received req)]
    (s\<lparr>sr_chat := None, sr_executor := x, sr_posts := ps\<rparr>)"
proof -
  let ?s1 = "s\<lparr>sr_chat := None, sr_taken := Some req\<rparr>"
  have 1: "server_step ref_server_env s (FromChat req) (Ret ?s1)"
    by (rule server_step.from_chat) (simp_all add: assms(1))
  have E: "executor_env_of ref_server_env ?s1 = executor_env_of ref_server_env s" by (simp add: executor_env_of_def)
  have "ex_sending (sr_executor s) = None" by (simp add: assms(1))
  from exec_step.received [OF this, of "executor_env_of ref_server_env s" req]
  have "exec_step (executor_env_of ref_server_env ?s1) (sr_executor ?s1) (Received req) (Ret x)"
    unfolding E assms(2) by simp
  from server_step.handled [OF _ _ this] have
    "server_step ref_server_env ?s1 (Exec (Received req)) (after_exec ref_server_env (?s1\<lparr>sr_taken := None\<rparr>) (Ret x))"
    by (simp add: assms(1))
  moreover have "after_exec ref_server_env (?s1\<lparr>sr_taken := None\<rparr>) (Ret x) = Ret (s\<lparr>sr_chat := None, sr_executor := x, sr_posts := ps\<rparr>)"
    using assms(1,3) by (simp add: after_exec_def)
  ultimately have 2: "server_step ref_server_env ?s1 (Exec (Received req)) (Ret (s\<lparr>sr_chat := None, sr_executor := x, sr_posts := ps\<rparr>))"
    by simp
  from server_run.one_more [OF server_run.one_more [OF assms(4) 1] 2] show ?thesis by simp
qed

lemma ref_version_run:
  obtains y evs s t where
    "main ref_server_env (ref_surroundings ''echo'') fresh_system = Ret (ServerProcess (server_start ref_args y (newMessageMatcher False)))"
    "server_run ref_server_env (server_start ref_args y (newMessageMatcher False)) evs s"
    "t \<in> set (tasks_of (sr_executor s))" "\<And>sig F. Signal sig F \<notin> set evs"
proof (rule ref_asked [of VersionCommand])
  fix y :: "ref_db system" and s m w
  let ?N = ref_server_env and ?s0 = "server_start ref_args y (newMessageMatcher False)"
  let ?r = "bobs_request (builtin_name VersionCommand)" and ?E = "executor_env_of ref_server_env s"
    and ?c = "BuiltinCommand VersionCommand" and ?ev = "Chat (MessageEvent (bobs_message (builtin_name VersionCommand)))"
  assume l: "main ref_server_env (ref_surroundings ''echo'') fresh_system = Ret (ServerProcess (server_start ref_args y (newMessageMatcher False)))"
    and s: "s = ?s0\<lparr>sr_matcher := m, sr_chat := Some ?r\<rparr>" and chat: "server_step ?N ?s0 ?ev (Ret s)"
    and f: "Find (pv_Aliases (xe_services ?E)) (sr_commands s) ?r (ex_world (sr_executor s)) = ((Some ?c, ?r), w)"
    and c: "\<And>req c. Check (sr_auth s) req c = Ret (policy [(''dev'', [''bob''])] req c)"
  obtain j w' where n: "js_Null (pv_Jobs (xe_services ?E)) ?r w = (j, w')" by fastforce
  let ?t = "\<lparr>tk_job = j, tk_cmd = ?c\<rparr>"
  let ?x = "(sr_executor s)\<lparr>ex_world := w', ex_sending := Some ?t, ex_counted := False\<rparr>"
  have "createTask ?E ?r ?c w = (Returns ?t, w')"
    using n by (simp add: createTask_def builtin_getters del: executor_env_simps builtin_struct.simps)
  then have "run_request ?E ?r (sr_executor s) = Ret ?x"
    using f by (simp add: run_request_def c ref_policy del: builtin_name.simps)
  from ref_take [OF s this, of "[]" ?s0 ?ev] server_run.one_more [OF server_run.no_step chat]
  have "server_run ?N ?s0 [?ev, FromChat ?r, Exec (Received ?r)] (s\<lparr>sr_chat := None, sr_executor := ?x, sr_posts := []\<rparr>)"
    by (simp add: s)
  from that [OF l this, of ?t] show thesis by (simp add: tasks_of_def)
qed (simp add: ref_words)

theorem what_runs_was_asked_and_allowed_witness:
  "\<exists>y evs s t name. main ref_server_env (ref_surroundings ''echo'') fresh_system =
      Ret (ServerProcess (server_start ref_args y (newMessageMatcher False))) \<and>
    server_run ref_server_env (server_start ref_args y (newMessageMatcher False)) evs s \<and> t \<in> set (tasks_of (sr_executor s)) \<and>
    (\<exists>e0 req args. asked ref_server_env (server_start ref_args y (newMessageMatcher False)) e0 req \<and>
       job_Request (tk_job t) = req\<lparr>req_Command := name, req_Args := args @ req_Args req\<rparr>)"
proof (rule ref_version_run)
  fix y :: "ref_db system" and evs s t
  assume l: "main ref_server_env (ref_surroundings ''echo'') fresh_system = Ret (ServerProcess (server_start ref_args y (newMessageMatcher False)))"
    and run: "server_run ref_server_env (server_start ref_args y (newMessageMatcher False)) evs s"
    and t: "t \<in> set (tasks_of (sr_executor s))" and no: "\<And>sig F. Signal sig F \<notin> set evs"
  have cmds: "sy_commands fresh_system = Reset" by (simp add: fresh_system_def)
  from what_runs_was_asked_and_allowed [where N = ref_server_env, simplified, OF l cmds ref_read named_config_ok(1,2) run _ t] no
  obtain e0 req name args where "asked ref_server_env (server_start ref_args y (newMessageMatcher False)) e0 req"
    "job_Request (tk_job t) = req\<lparr>req_Command := name, req_Args := args @ req_Args req\<rparr>"
    by blast
  with l run t show ?thesis by blast
qed

text \<open>A command that Bob may not run, answered in his channel.\<close>

lemma ref_rejected_run:
  obtains y s where
    "main ref_server_env (ref_surroundings ''echo'') fresh_system = Ret (ServerProcess (server_start ref_args y (newMessageMatcher False)))"
    "server_run ref_server_env (server_start ref_args y (newMessageMatcher False))
       [Chat (MessageEvent (bobs_message ''kill'')), FromChat (bobs_request ''kill''), Exec (Received (bobs_request ''kill''))] s"
    "\<exists>p \<in> set (sr_posts s). post_channel p = ''D1''"
proof (rule ref_asked [of KillJobCommand])
  fix y :: "ref_db system" and s m w
  let ?N = ref_server_env and ?s0 = "server_start ref_args y (newMessageMatcher False)"
  let ?r = "bobs_request (builtin_name KillJobCommand)" and ?E = "executor_env_of ref_server_env s"
    and ?c = "BuiltinCommand KillJobCommand" and ?ev = "Chat (MessageEvent (bobs_message (builtin_name KillJobCommand)))"
  assume l: "main ref_server_env (ref_surroundings ''echo'') fresh_system = Ret (ServerProcess (server_start ref_args y (newMessageMatcher False)))"
    and s: "s = ?s0\<lparr>sr_matcher := m, sr_chat := Some ?r\<rparr>" and chat: "server_step ?N ?s0 ?ev (Ret s)"
    and f: "Find (pv_Aliases (xe_services ?E)) (sr_commands s) ?r (ex_world (sr_executor s)) = ((Some ?c, ?r), w)"
    and c: "\<And>req c. Check (sr_auth s) req c = Ret (policy [(''dev'', [''bob''])] req c)"
    and fmt: "sr_formatter s = Configure_formatter (cf_Format default_config)"
  let ?m = "UnauthorizedCommandReply (xe_formatter ?E) ?r"
  let ?x = "Reply ?m ((sr_executor s)\<lparr>ex_world := w\<rparr>)"
  obtain e where "policy [(''dev'', [''bob''])] ?r (authorization_of ?c) = Some e" using ref_policy(2) by blast
  then have run: "run_request ?E ?r (sr_executor s) = Ret ?x" using f by (simp add: run_request_def c del: builtin_name.simps)
  have "no_overrides (cf_Format default_config)" by (simp add: no_overrides_def default_config_def)
  note said = unauthorized_reply_has_no_reason [OF ref_engine_reads(1) this, of ?r]
  have fmt': "xe_formatter ?E = Configure_formatter (cf_Format default_config)" by (simp add: executor_env_of_def fmt)
  obtain p where p: "client_Reply ref_engine ?m = Ret [p]" "post_channel p = ''D1''"
    by (cases "getReplyStyle (rp_style ?m)")
      (use said in \<open>simp_all add: client_Reply_def fmt' reply_ChannelID_def UnauthorizedCommandReply_def newReplier_def
         bobs_request_def replyStyle_Get_def Configure_formatter_def default_config_def getReplyStyle_def\<close>)
  have "post_replies ref_engine (ex_replies ?x) = Ret [p]" using p(1) by (simp add: s)
  from ref_take [OF s run this, of ?s0 ?ev] server_run.one_more [OF server_run.no_step chat]
  have "server_run ?N ?s0 [?ev, FromChat ?r, Exec (Received ?r)] (s\<lparr>sr_chat := None, sr_executor := ?x, sr_posts := [p]\<rparr>)" by simp
  from that [OF l this [simplified]] p(2) show thesis by simp
qed (simp add: ref_words)

theorem answers_go_where_asked_witness:
  "\<exists>y s p. main ref_server_env (ref_surroundings ''echo'') fresh_system =
      Ret (ServerProcess (server_start ref_args y (newMessageMatcher False))) \<and>
    p \<in> set (sr_posts s) \<and> post_channel p = ''D1'' \<and>
    (\<exists>evs req. server_run ref_server_env (server_start ref_args y (newMessageMatcher False)) evs s \<and>
       asked ref_server_env (server_start ref_args y (newMessageMatcher False)) evs req \<and> req_ChannelID req = ''D1'')"
proof (rule ref_rejected_run)
  fix y :: "ref_db system" and s
  let ?s0 = "server_start ref_args y (newMessageMatcher False)"
    and ?evs = "[Chat (MessageEvent (bobs_message ''kill'')), FromChat (bobs_request ''kill''), Exec (Received (bobs_request ''kill''))]"
  assume l: "main ref_server_env (ref_surroundings ''echo'') fresh_system = Ret (ServerProcess (server_start ref_args y (newMessageMatcher False)))"
    and run: "server_run ref_server_env ?s0 ?evs s" and "\<exists>p \<in> set (sr_posts s). post_channel p = ''D1''"
  then obtain p where p: "p \<in> set (sr_posts s)" "post_channel p = ''D1''" by blast
  from answers_go_where_asked [where N = ref_server_env, simplified, OF l run p(1)] p l run show ?thesis by fastforce
qed





end
