(* ===== verification/Spec2Isabelle.thy ===== *)
theory Spec2Isabelle
  imports History Recorded EndToEnd
begin

text \<open>
  Meeseeks-box is a chat bot that runs commands: a message becomes a request, the request is matched
  to a registered command, the user and the channel are checked, a job is recorded, the command
  runs, and the reply goes back to the chat. This development models the program's own logic and
  proves what makes it correct.

  Theories, and the code under \<^verbatim>\<open>src/\<close> they model:

  \<^item> \<open>Prelude\<close>, \<open>GoStrings\<close>: Go's maps, panics, machine integers, and of its standard library what the
    code uses (\<^verbatim>\<open>strings.TrimSpace\<close>, \<^verbatim>\<open>Join\<close>, \<^verbatim>\<open>Title\<close>, \<^verbatim>\<open>strconv.ParseUint\<close>, big-endian integers, UTF-8).
  \<^item> \<open>Meeseeks\<close> (\<^verbatim>\<open>meeseeks/meeseeks.go\<close>): requests, jobs, options with their defaults, errors as values.
  \<^item> \<open>Parser\<close> (\<^verbatim>\<open>text/parser\<close>): the byte loop of the command-line parser; what quoted and unquoted text
    parses to.
  \<^item> \<open>Auth\<close> (\<^verbatim>\<open>auth\<close>): groups and strategies; the check equals a policy, and where the documentation differs from it.
  \<^item> \<open>Bolt\<close>, \<open>Codec\<close>: the interfaces of the key-value store and of JSON as locales, each with a store
    (codec) that meets it.
  \<^item> \<open>Db\<close> (\<^verbatim>\<open>persistence/db\<close>): the database handle, transactions, keys.
  \<^item> \<open>Jobs\<close>, \<open>Logs\<close>, \<open>Aliases\<close>, \<open>Tokens\<close> (\<^verbatim>\<open>persistence/jobs\<close>, \<^verbatim>\<open>logs/local\<close>, \<^verbatim>\<open>aliases\<close>, \<^verbatim>\<open>tokens\<close>): the
    transactions of each store, and a simulation: the buckets implement a map (\<open>jobs_rel\<close>,
    \<open>logs_rel\<close>, \<open>aliases_rel\<close>, \<open>tokens_rel\<close>), each operation implements its operation on the map and
    leaves the buckets of the others alone.
  \<^item> \<open>Persistence\<close>, \<open>Services\<close> (\<^verbatim>\<open>persistence/persistence.go\<close>): the service registry, the service
    interfaces as locales, the proof that the local services meet them, and the properties of the
    stores as their clients see them.
  \<^item> \<open>History\<close>: an abstract machine of the stores, the proof that any sequence of writes on the local
    services is one of the machine, and what the machine keeps: the history of the jobs and the logs.
  \<^item> \<open>Commands\<close> (\<^verbatim>\<open>commands/commands.go\<close>): the command registry and the lookup through aliases.
  \<^item> \<open>Flags\<close>: the part of Go's package \<^verbatim>\<open>flag\<close> that the builtins use.
  \<^item> \<open>Builtins\<close>, \<open>Executions\<close>, \<open>Ownership\<close> (\<^verbatim>\<open>commands/builtins/builtins.go\<close>): the getters of the twenty
    builtin commands by embedding, what each of them does to a world of services and prints, and who
    can see or cancel what.
  \<^item> \<open>Replies\<close> (\<^verbatim>\<open>text/formatter\<close>, \<^verbatim>\<open>text/template\<close>): replies, their payloads and templates, a reader of
    template texts, and what a reply says with the default texts.
  \<^item> \<open>Shell\<close> (\<^verbatim>\<open>commands/shell/shell.go\<close>): the run of a local command, its output and its log.
  \<^item> \<open>Pipeline\<close> (\<^verbatim>\<open>remote/server\<close>, \<^verbatim>\<open>remote/agent/agent_config.go\<close>): registration of an agent's commands, and
    a state machine of the running jobs, the commands that wait for answers and the answers, with the loop that
    serves an agent and may have to wait with an answer of its own.
  \<^item> \<open>Executor\<close>, \<open>Tasks\<close> (\<^verbatim>\<open>meeseeks/executor/executor.go\<close>): a state machine of the executor, of which a
    step is one step of one goroutine; its counters, that it comes to an end, and its shutdown, in which the wait
    for the tasks and the closing of their channel are two steps.
  \<^item> \<open>Cancelling\<close>: the invariant that ties running tasks, stored jobs and active commands together, and
    who can cancel a running job.
  \<^item> \<open>Recorded\<close>: the jobs that the store has as running are the recorded tasks that are open in the executor.
  \<^item> \<open>Admission\<close>: where the tasks of the executor come from: what runs was asked for by a user who may run it.
  \<^item> \<open>Api\<close> (\<^verbatim>\<open>api/api.go\<close>): the handler of a post with a token, and the life of its service.
  \<^item> \<open>Regexps\<close>, \<open>Slack\<close> (\<^verbatim>\<open>slack/slack.go\<close>): the regular expressions of the links; the messages the bot cares
    about, the requests it makes of them, the links it writes and reads, and how replies are posted.
  \<^item> \<open>Configuration\<close> (\<^verbatim>\<open>config/config.go\<close>): the file, its defaults, and what loading it changes.
  \<^item> \<open>Agent\<close> (\<^verbatim>\<open>remote/agent/agent.go\<close>, \<^verbatim>\<open>remote_logger.go\<close>): the run of a command on an agent, which answers as a
    run on the server does, what arrives of its log, and the loop of the agent.
  \<^item> \<open>Metrics\<close> (\<^verbatim>\<open>meeseeks/metrics\<close>): the counters, where the program counts (the loop of the executor, the lookup
    through aliases, the end of a job, the lines of the logs), and what the counters say of the replies.
  \<^item> \<open>Launch\<close> (\<^verbatim>\<open>main.go\<close>, \<^verbatim>\<open>http/http.go\<close>, \<^verbatim>\<open>remote/server/server.go\<close>): from the arguments to a running server
    or agent, the reload of the configuration, and the signals.
  \<^item> \<open>Server\<close>: the parts that a launched server runs side by side, as one step relation, with its shutdown.
  \<^item> \<open>EndToEnd\<close>: what holds from the command line to the chat: what runs was asked for and allowed, answers go
    where was asked, and what a shutdown waits for and what it cuts off.

  Conventions. A Go function that returns a value and an error returns an \<open>err + 'a\<close>; a transaction
  is a function from database contents to contents, and its error rolls it back. Everything
  outside the repository (bolt, JSON, the clock, generated identifiers) is a parameter whose laws
  are the assumptions of a locale; a theorem that needs them names the locale as a premise, and
  its example discharges it on \<open>ref_bolt\<close> and \<open>ref_codec\<close>. The state of the world is passed
  explicitly (\<open>world\<close>), \<open>stored\<close> is its abstraction and \<open>world_rel\<close> the relation between them.

  Bounds: identifiers are 64-bit words; a job is created while the next identifier is not zero
  (\<open>job_room\<close>), and a log holds fewer than \<open>2 ^ 62\<close> lines (\<open>max_lines\<close>), below which line keys sort
  before the key of the error bucket.

  How the parts meet: the executor runs over \<open>exec_world\<close>, the world of the services with the contexts of
  the active commands added; \<open>exec_services_ok\<close> carries the laws of the services over to it, so that what
  \<open>Ownership\<close> and \<open>Shell\<close> prove of single commands holds of the commands the executor runs. \<open>ref_executor\<close> is
  a configuration over \<open>ref_bolt\<close> on which the properties are tried out.

  Interleaving: a step of the executor is a request of \<open>Run\<close> up to its task or its reply (the lookup, the check, the
  job and the reply in one), the counting of the task, one send into or receive from the channel of tasks, the return
  of the wait of \<open>Shutdown\<close>, the closing of the channel, or one of the three parts of the goroutine of a task
  (up to the context, the command with its reply and the end of its job, the deferred cancellation). The channel holds at least one task;
  a command runs within one step. No fuel is used: \<open>work\<close> bounds the steps that the executor takes on
  its own, \<open>length\<close> the loops of the parser, of the scanner and of the flags.

  The whole server: a step of \<open>server_step\<close> is an event of the chat, a post, a request that the executor takes from
  the chat listener (\<open>sr_chat\<close>) or from any of the handlers that wait (\<open>sr_api\<close>) and has in hand then
  (\<open>sr_taken\<close>), the handling of it, another step of the executor with the
  registry, groups and replies of that moment, a signal, an agent that comes or goes, or one of the steps of the
  shutdown (the wait for the tasks, their channel, HTTP server, remote server, in this order), during which requests
  are taken as before. A reload and the start of the builtins are one step, so is the handling of a request: a reload
  between the lookup of a command and its check is not covered.

  Counters: those with labels are multisets; the counting variants of the operations (\<open>run_request_metered\<close>,
  \<open>Find_metered\<close>, \<open>jobs_finish_metered\<close>, \<open>logs_Append_metered\<close>) erase to the operations, of which everything else
  speaks.

  The ends: a request enters through \<open>Slack\<close> or \<open>Api\<close> (which \<open>slack_enricher\<close> joins) and a reply leaves
  through \<open>client_Reply\<close>; \<open>Launch\<close> puts the registry, the groups, the replies and the stores into the
  state from which the executor runs. An agent needs at most twelve more calls after its context is
  cancelled (\<open>calls_left\<close>): eleven attempts of its backoff and the last one.

  Not modelled: the connections to Slack, to gRPC and to the HTTP listener, whose answers are parameters or
  events; the encoding of messages; the decoding of YAML and the parsing of flags by the library at
  the start; the library's parsing of templates, a parameter that yields nodes
  and is assumed to agree with \<open>parse_template\<close> on the texts this reads; lines that a process prints after
  its context is done; the values of the gauges of the boot time and the build. Log lines are left out
  throughout, and so is locking: the operations are the critical sections.
\<close>

end
